(* ===== verification/NlsPrelude.thy ===== *)
theory NlsPrelude
  imports Main "HOL-Library.Word" "HOL-Library.Monad_Syntax"
begin

text \<open>
  Shared vocabulary of the development: bytes and pointers, the reading of undefined
  behaviour as \<open>None\<close>, the generic loop ``find the first element'' that the C++ code
  writes over its vectors, ordered index lists, and the lemmas about them that every
  component uses. The named collections are filled where the definitions stand:
  \<open>pool_defs\<close> and \<open>frame_defs\<close> hold the definitions a component's proofs unfold together.
\<close>

unbundle bit_operations_syntax

named_theorems pool_defs "definitions of the connected pool"
named_theorems frame_defs "definitions of the frame codec"

section \<open>Machine types\<close>

type_synonym byte = "8 word"
type_synonym u32 = "32 word"
type_synonym u64 = "64 word"

text \<open>
  A pointer is an address. The null pointer is 0; nothing is ever allocated there.
  A computation that dereferences a null or dangling pointer, or that indexes outside a
  buffer, has no defined result in C++: it is the value \<open>None\<close>.
\<close>

type_synonym ptr = nat

abbreviation (input) NULL :: ptr where "NULL \<equiv> 0"

section \<open>Searching a vector from its front\<close>

fun first_index :: "('a \<Rightarrow> bool) \<Rightarrow> 'a list \<Rightarrow> nat option" where
  "first_index P [] = None"
| "first_index P (x # xs) = (if P x then Some 0 else map_option Suc (first_index P xs))"

lemma first_index_None_iff: "first_index P xs = None \<longleftrightarrow> (\<forall>x\<in>set xs. \<not> P x)"
  by (induction xs) auto

lemma first_index_SomeD:
  "first_index P xs = Some i \<Longrightarrow> i < length xs \<and> P (xs ! i) \<and> (\<forall>j<i. \<not> P (xs ! j))"
proof (induction xs arbitrary: i)
  case Nil
  then show ?case by simp
next
  case (Cons x xs)
  show ?case
  proof (cases "P x")
    case True
    with Cons.prems show ?thesis by simp
  next
    case False
    with Cons.prems obtain k where k: "first_index P xs = Some k" "i = Suc k" by auto
    with Cons.IH [OF k(1)] False show ?thesis
      by (auto simp: less_Suc_eq_0_disj)
  qed
qed

lemma first_index_SomeI:
  "i < length xs \<Longrightarrow> P (xs ! i) \<Longrightarrow> (\<And>j. j < i \<Longrightarrow> \<not> P (xs ! j)) \<Longrightarrow>
    first_index P xs = Some i"
proof (induction xs arbitrary: i)
  case Nil
  then show ?case by simp
next
  case (Cons x xs)
  show ?case
  proof (cases i)
    case 0
    with Cons.prems show ?thesis by simp
  next
    case (Suc k)
    have "\<not> P x" using Cons.prems(3) [of 0] Suc by simp
    moreover have "\<not> P (xs ! j)" if "j < k" for j
      using Cons.prems(3) [of "Suc j"] that Suc by simp
    then have "first_index P xs = Some k"
      using Cons.prems(1,2) Suc by (intro Cons.IH) auto
    ultimately show ?thesis using Suc by simp
  qed
qed

lemma first_index_Some_iff:
  "first_index P xs = Some i \<longleftrightarrow> i < length xs \<and> P (xs ! i) \<and> (\<forall>j<i. \<not> P (xs ! j))"
  by (blast dest: first_index_SomeD intro: first_index_SomeI)

lemma first_index_less [dest]: "first_index P xs = Some i \<Longrightarrow> i < length xs"
  by (simp add: first_index_Some_iff)

lemma first_index_ex: "(\<exists>i. first_index P xs = Some i) \<longleftrightarrow> (\<exists>x\<in>set xs. P x)"
  using first_index_None_iff [of P xs] by (cases "first_index P xs") auto

text \<open>The loop \<open>for (it = begin() + start; it != end(); ++it)\<close>.\<close>

definition first_index_from :: "('a \<Rightarrow> bool) \<Rightarrow> nat \<Rightarrow> 'a list \<Rightarrow> nat option" where
  "first_index_from P start xs = map_option ((+) start) (first_index P (drop start xs))"

lemma first_index_from_0 [simp]: "first_index_from P 0 xs = first_index P xs"
  by (cases "first_index P xs") (simp_all add: first_index_from_def)

lemma first_index_from_SomeD:
  "first_index_from P start xs = Some i \<Longrightarrow> start \<le> i \<and> i < length xs \<and> P (xs ! i)"
  by (cases "start \<le> length xs")
    (auto simp: first_index_from_def dest!: first_index_SomeD)

section \<open>Ordered index lists\<close>

text \<open>
  \<open>std::lower_bound\<close> on a sorted list is the first position whose element is not smaller,
  and inserting there is \<open>insort\<close>. \<open>std::list::remove\<close> is \<open>removeAll\<close>.
\<close>

fun lower_bound_insert :: "int list \<Rightarrow> int \<Rightarrow> int list" where
  "lower_bound_insert [] a = [a]"
| "lower_bound_insert (x # xs) a = (if x < a then x # lower_bound_insert xs a else a # x # xs)"

lemma set_lower_bound_insert [simp]: "set (lower_bound_insert xs a) = insert a (set xs)"
  by (induction xs) auto

lemma sorted_lower_bound_insert [intro]:
  "sorted xs \<Longrightarrow> sorted (lower_bound_insert xs a)"
  by (induction xs) (auto simp: not_less)

lemma length_lower_bound_insert [simp]: "length (lower_bound_insert xs a) = Suc (length xs)"
  by (induction xs) auto

lemma sorted_removeAll [intro]: "sorted xs \<Longrightarrow> sorted (removeAll a xs)"
  by (simp add: removeAll_filter_not_eq sorted_filter [of "\<lambda>x. x", simplified])

section \<open>Lists updated by index\<close>

lemma list_all_update:
  "list_all P xs \<Longrightarrow> P y \<Longrightarrow> list_all P (xs[i := y])"
  by (auto simp: list_all_iff dest!: set_update_subset_insert [THEN subsetD])

lemma nth_list_update_cases:
  "i < length xs \<Longrightarrow> xs[i := y] ! j = (if j = i then y else xs ! j)"
  by (auto simp: nth_list_update)

section \<open>Interfaces\<close>

text \<open>
  A component as a transition system: its initial states, its steps and an invariant. The
  invariant then holds along every run.
\<close>

locale invariant_system =
  fixes init :: "'s \<Rightarrow> bool"
    and step :: "'s \<Rightarrow> 's \<Rightarrow> bool"
    and inv :: "'s \<Rightarrow> bool"
  assumes init_inv: "init s \<Longrightarrow> inv s"
    and step_inv: "inv s \<Longrightarrow> step s s' \<Longrightarrow> inv s'"
begin

lemma run_inv: "step\<^sup>*\<^sup>* s s' \<Longrightarrow> inv s \<Longrightarrow> inv s'"
  by (induction rule: rtranclp_induct) (auto intro: step_inv)

lemma reachable_inv: "init s \<Longrightarrow> step\<^sup>*\<^sup>* s s' \<Longrightarrow> inv s'"
  by (blast intro: run_inv init_inv)

end

text \<open>
  An ordered list of indexes: the pool adds an index when a connection becomes pickable, removes
  it when it is taken, and looks at the least one. \<open>good\<close> is the representation invariant,
  \<open>elems\<close> the abstraction.
\<close>

locale ordered_indexes =
  fixes good :: "'l \<Rightarrow> bool"
    and elems :: "'l \<Rightarrow> int set"
    and insert_index :: "'l \<Rightarrow> int \<Rightarrow> 'l"
    and remove_index :: "'l \<Rightarrow> int \<Rightarrow> 'l"
    and pop_front :: "'l \<Rightarrow> int \<times> 'l"
  assumes insert_good: "good l \<Longrightarrow> good (insert_index l a)"
    and insert_elems: "good l \<Longrightarrow> elems (insert_index l a) = insert a (elems l)"
    and remove_good: "good l \<Longrightarrow> good (remove_index l a)"
    and remove_elems: "good l \<Longrightarrow> elems (remove_index l a) = elems l - {a}"
    and pop_good: "good l \<Longrightarrow> good (snd (pop_front l))"
    and pop_elems: "good l \<Longrightarrow> elems (snd (pop_front l)) \<subseteq> elems l"
    and pop_least: "good l \<Longrightarrow> a \<in> elems l \<Longrightarrow> fst (pop_front l) \<le> a \<and> fst (pop_front l) \<in> elems l"
    and pop_empty: "good l \<Longrightarrow> elems l = {} \<Longrightarrow> fst (pop_front l) = 0"
begin

text \<open>Every operation keeps a range.\<close>

lemma insert_range: "good l \<Longrightarrow> elems l \<subseteq> A \<Longrightarrow> a \<in> A \<Longrightarrow> elems (insert_index l a) \<subseteq> A"
  by (simp add: insert_elems)

lemma remove_range: "good l \<Longrightarrow> elems l \<subseteq> A \<Longrightarrow> elems (remove_index l a) \<subseteq> A"
  by (auto simp: remove_elems)

lemma pop_range: "good l \<Longrightarrow> elems l \<subseteq> A \<Longrightarrow> elems (snd (pop_front l)) \<subseteq> A"
  using pop_elems by blast

lemma front_range: "good l \<Longrightarrow> elems l \<subseteq> {0..<n} \<Longrightarrow> 0 \<le> n \<Longrightarrow> 0 \<le> fst (pop_front l) \<and> fst (pop_front l) \<le> n"
proof (cases "elems l = {}")
  case True
  assume "good l" "0 \<le> n"
  then show ?thesis using pop_empty True by simp
next
  case False
  assume l: "good l" "elems l \<subseteq> {0..<n}"
  from False obtain a where "a \<in> elems l" by blast
  then have "fst (pop_front l) \<in> elems l" using pop_least l(1) by blast
  then show ?thesis using l(2) by auto
qed

lemma front_first: "good l \<Longrightarrow> a \<in> elems l \<Longrightarrow> fst (pop_front l) \<le> a"
  by (simp add: pop_least)

lemma remove_insert: "good l \<Longrightarrow> a \<notin> elems l \<Longrightarrow> elems (remove_index (insert_index l a) a) = elems l"
  by (simp add: remove_elems insert_good insert_elems)

end

end
