(* ===== verification/NlsGlobal.thy ===== *)
theory NlsGlobal
  imports NlsPrelude
begin

text \<open>
  The enumerations of \<open>framework/common/nlsGlobal.h\<close>: return codes, request states and
  request types, with the numbers the C++ compiler gives them. A return code is an \<open>int\<close>
  in the code (the enumeration is unscoped), and every call returns \<open>Success\<close>, a byte
  count, or the negated code. The constants below abbreviate those numbers, and
  \<open>NlsRetCode\<close> is the whole table, in the order of the header.
\<close>

section \<open>Return codes\<close>

definition NlsRetCode :: "(string \<times> int) list" where
  "NlsRetCode =
    [(''Success'', 0),
     (''DefaultError'', 10),
     (''JsonParseFailed'', 11),
     (''JsonObjectError'', 12),
     (''MallocFailed'', 13),
     (''ReallocFailed'', 14),
     (''InvalidInputParam'', 15),
     (''InvalidLogLevel'', 50),
     (''InvalidLogFileSize'', 51),
     (''InvalidLogFileNum'', 52),
     (''EncoderExistent'', 100),
     (''EncoderInexistent'', 101),
     (''OpusEncoderCreateFailed'', 102),
     (''OggOpusEncoderCreateFailed'', 103),
     (''InvalidEncoderType'', 104),
     (''OggOpusInvalidState'', 110),
     (''OggOpusCreateFailed'', 111),
     (''OggOpusStartFailed'', 112),
     (''OggOpusEncodeFailed'', 113),
     (''OggOpusDecodeFailed'', 114),
     (''OggOpusStopFailed'', 115),
     (''EventClientEmpty'', 150),
     (''SelectThreadFailed'', 151),
     (''StartCommandFailed'', 160),
     (''InvokeStartFailed'', 161),
     (''InvokeSendAudioFailed'', 162),
     (''InvalidOpusFrameSize'', 163),
     (''InvokeStopFailed'', 164),
     (''InvokeCancelFailed'', 165),
     (''InvokeStControlFailed'', 166),
     (''InvokeSendTextFailed'', 167),
     (''InvokeTimeout'', 168),
     (''InvalidStatusWhenReleasing'', 169),
     (''NlsEventEmpty'', 200),
     (''NewNlsEventFailed'', 201),
     (''NlsEventMsgEmpty'', 202),
     (''InvalidNlsEventMsgType'', 203),
     (''InvalidNlsEventMsgStatusCode'', 204),
     (''InvalidNlsEventMsgHeader'', 205),
     (''IgnoredNlsEventMsg'', 206),
     (''CancelledExitStatus'', 250),
     (''InvalidWorkStatus'', 251),
     (''InvalidNodeQueue'', 252),
     (''InvalidRequestParams'', 300),
     (''RequestEmpty'', 301),
     (''InvalidRequest'', 302),
     (''SetParamsEmpty'', 303),
     (''GetHttpHeaderFailed'', 350),
     (''HttpGotBadStatus'', 351),
     (''WsResponsePackageFailed'', 352),
     (''WsResponsePackageEmpty'', 353),
     (''WsRequestPackageEmpty'', 354),
     (''UnknownWsFrameHeadType'', 355),
     (''InvalidWsFrameHeaderSize'', 356),
     (''InvalidWsFrameHeaderBody'', 357),
     (''InvalidWsFrameBody'', 358),
     (''WsFrameBodyEmpty'', 359),
     (''InvalidWsFrameCloseCode'', 360),
     (''NodeEmpty'', 400),
     (''InvaildNodeStatus'', 401),
     (''GetAddrinfoFailed'', 402),
     (''ConnectFailed'', 403),
     (''InvalidDnsSource'', 404),
     (''ParseUrlFailed'', 405),
     (''SslHandshakeFailed'', 406),
     (''SslCtxEmpty'', 407),
     (''SslNewFailed'', 408),
     (''SslSetFailed'', 409),
     (''SslConnectFailed'', 410),
     (''SslWriteFailed'', 411),
     (''SslReadSysError'', 412),
     (''SslReadFailed'', 413),
     (''SocketFailed'', 414),
     (''SetSocketoptFailed'', 415),
     (''SocketConnectFailed'', 416),
     (''SocketWriteFailed'', 417),
     (''SocketReadFailed'', 418),
     (''NlsReceiveFailed'', 430),
     (''NlsReceiveEmpty'', 431),
     (''ReadFailed'', 432),
     (''NlsSendFailed'', 433),
     (''NewOutputBufferFailed'', 434),
     (''NlsEncodingFailed'', 435),
     (''EventEmpty'', 436),
     (''EvbufferTooMuch'', 437),
     (''EvutilSocketFalied'', 438),
     (''InvalidExitStatus'', 439),
     (''InvalidAkId'', 450),
     (''InvalidAkSecret'', 451),
     (''InvalidAppKey'', 452),
     (''InvalidDomain'', 453),
     (''InvalidAction'', 454),
     (''InvalidServerVersion'', 455),
     (''InvalidServerResource'', 456),
     (''InvalidRegionId'', 457),
     (''InvalidApiKey'', 458),
     (''InvalidFileLink'', 500),
     (''ErrorStatusCode'', 501),
     (''IconvOpenFailed'', 502),
     (''IconvFailed'', 503),
     (''ClientRequestFaild'', 504),
     (''VipClientInitFailed'', 550),
     (''VipClientMergeHostFailed'', 551),
     (''VipClientQueryIpFailed'', 552),
     (''ConnectedPoolEmpty'', 560),
     (''NlsMaxErrorCode'', 999)]"

abbreviation (input) Success :: int where "Success \<equiv> 0"
abbreviation (input) DefaultError :: int where "DefaultError \<equiv> 10"
abbreviation (input) JsonParseFailed :: int where "JsonParseFailed \<equiv> 11"
abbreviation (input) JsonObjectError :: int where "JsonObjectError \<equiv> 12"
abbreviation (input) MallocFailed :: int where "MallocFailed \<equiv> 13"
abbreviation (input) ReallocFailed :: int where "ReallocFailed \<equiv> 14"
abbreviation (input) InvalidInputParam :: int where "InvalidInputParam \<equiv> 15"
abbreviation (input) InvalidLogLevel :: int where "InvalidLogLevel \<equiv> 50"
abbreviation (input) InvalidLogFileSize :: int where "InvalidLogFileSize \<equiv> 51"
abbreviation (input) InvalidLogFileNum :: int where "InvalidLogFileNum \<equiv> 52"
abbreviation (input) EncoderExistent :: int where "EncoderExistent \<equiv> 100"
abbreviation (input) EncoderInexistent :: int where "EncoderInexistent \<equiv> 101"
abbreviation (input) OpusEncoderCreateFailed :: int where "OpusEncoderCreateFailed \<equiv> 102"
abbreviation (input) OggOpusEncoderCreateFailed :: int where "OggOpusEncoderCreateFailed \<equiv> 103"
abbreviation (input) InvalidEncoderType :: int where "InvalidEncoderType \<equiv> 104"
abbreviation (input) OggOpusInvalidState :: int where "OggOpusInvalidState \<equiv> 110"
abbreviation (input) OggOpusCreateFailed :: int where "OggOpusCreateFailed \<equiv> 111"
abbreviation (input) OggOpusStartFailed :: int where "OggOpusStartFailed \<equiv> 112"
abbreviation (input) OggOpusEncodeFailed :: int where "OggOpusEncodeFailed \<equiv> 113"
abbreviation (input) OggOpusDecodeFailed :: int where "OggOpusDecodeFailed \<equiv> 114"
abbreviation (input) OggOpusStopFailed :: int where "OggOpusStopFailed \<equiv> 115"
abbreviation (input) EventClientEmpty :: int where "EventClientEmpty \<equiv> 150"
abbreviation (input) SelectThreadFailed :: int where "SelectThreadFailed \<equiv> 151"
abbreviation (input) StartCommandFailed :: int where "StartCommandFailed \<equiv> 160"
abbreviation (input) InvokeStartFailed :: int where "InvokeStartFailed \<equiv> 161"
abbreviation (input) InvokeSendAudioFailed :: int where "InvokeSendAudioFailed \<equiv> 162"
abbreviation (input) InvalidOpusFrameSize :: int where "InvalidOpusFrameSize \<equiv> 163"
abbreviation (input) InvokeStopFailed :: int where "InvokeStopFailed \<equiv> 164"
abbreviation (input) InvokeCancelFailed :: int where "InvokeCancelFailed \<equiv> 165"
abbreviation (input) InvokeStControlFailed :: int where "InvokeStControlFailed \<equiv> 166"
abbreviation (input) InvokeSendTextFailed :: int where "InvokeSendTextFailed \<equiv> 167"
abbreviation (input) InvokeTimeout :: int where "InvokeTimeout \<equiv> 168"
abbreviation (input) InvalidStatusWhenReleasing :: int where "InvalidStatusWhenReleasing \<equiv> 169"
abbreviation (input) NlsEventEmpty :: int where "NlsEventEmpty \<equiv> 200"
abbreviation (input) NewNlsEventFailed :: int where "NewNlsEventFailed \<equiv> 201"
abbreviation (input) NlsEventMsgEmpty :: int where "NlsEventMsgEmpty \<equiv> 202"
abbreviation (input) InvalidNlsEventMsgType :: int where "InvalidNlsEventMsgType \<equiv> 203"
abbreviation (input) InvalidNlsEventMsgStatusCode :: int where "InvalidNlsEventMsgStatusCode \<equiv> 204"
abbreviation (input) InvalidNlsEventMsgHeader :: int where "InvalidNlsEventMsgHeader \<equiv> 205"
abbreviation (input) IgnoredNlsEventMsg :: int where "IgnoredNlsEventMsg \<equiv> 206"
abbreviation (input) CancelledExitStatus :: int where "CancelledExitStatus \<equiv> 250"
abbreviation (input) InvalidWorkStatus :: int where "InvalidWorkStatus \<equiv> 251"
abbreviation (input) InvalidNodeQueue :: int where "InvalidNodeQueue \<equiv> 252"
abbreviation (input) InvalidRequestParams :: int where "InvalidRequestParams \<equiv> 300"
abbreviation (input) RequestEmpty :: int where "RequestEmpty \<equiv> 301"
abbreviation (input) InvalidRequest :: int where "InvalidRequest \<equiv> 302"
abbreviation (input) SetParamsEmpty :: int where "SetParamsEmpty \<equiv> 303"
abbreviation (input) GetHttpHeaderFailed :: int where "GetHttpHeaderFailed \<equiv> 350"
abbreviation (input) HttpGotBadStatus :: int where "HttpGotBadStatus \<equiv> 351"
abbreviation (input) WsResponsePackageFailed :: int where "WsResponsePackageFailed \<equiv> 352"
abbreviation (input) WsResponsePackageEmpty :: int where "WsResponsePackageEmpty \<equiv> 353"
abbreviation (input) WsRequestPackageEmpty :: int where "WsRequestPackageEmpty \<equiv> 354"
abbreviation (input) UnknownWsFrameHeadType :: int where "UnknownWsFrameHeadType \<equiv> 355"
abbreviation (input) InvalidWsFrameHeaderSize :: int where "InvalidWsFrameHeaderSize \<equiv> 356"
abbreviation (input) InvalidWsFrameHeaderBody :: int where "InvalidWsFrameHeaderBody \<equiv> 357"
abbreviation (input) InvalidWsFrameBody :: int where "InvalidWsFrameBody \<equiv> 358"
abbreviation (input) WsFrameBodyEmpty :: int where "WsFrameBodyEmpty \<equiv> 359"
abbreviation (input) InvalidWsFrameCloseCode :: int where "InvalidWsFrameCloseCode \<equiv> 360"
abbreviation (input) NodeEmpty :: int where "NodeEmpty \<equiv> 400"
abbreviation (input) InvaildNodeStatus :: int where "InvaildNodeStatus \<equiv> 401"
abbreviation (input) GetAddrinfoFailed :: int where "GetAddrinfoFailed \<equiv> 402"
abbreviation (input) ConnectFailed :: int where "ConnectFailed \<equiv> 403"
abbreviation (input) InvalidDnsSource :: int where "InvalidDnsSource \<equiv> 404"
abbreviation (input) ParseUrlFailed :: int where "ParseUrlFailed \<equiv> 405"
abbreviation (input) SslHandshakeFailed :: int where "SslHandshakeFailed \<equiv> 406"
abbreviation (input) SslCtxEmpty :: int where "SslCtxEmpty \<equiv> 407"
abbreviation (input) SslNewFailed :: int where "SslNewFailed \<equiv> 408"
abbreviation (input) SslSetFailed :: int where "SslSetFailed \<equiv> 409"
abbreviation (input) SslConnectFailed :: int where "SslConnectFailed \<equiv> 410"
abbreviation (input) SslWriteFailed :: int where "SslWriteFailed \<equiv> 411"
abbreviation (input) SslReadSysError :: int where "SslReadSysError \<equiv> 412"
abbreviation (input) SslReadFailed :: int where "SslReadFailed \<equiv> 413"
abbreviation (input) SocketFailed :: int where "SocketFailed \<equiv> 414"
abbreviation (input) SetSocketoptFailed :: int where "SetSocketoptFailed \<equiv> 415"
abbreviation (input) SocketConnectFailed :: int where "SocketConnectFailed \<equiv> 416"
abbreviation (input) SocketWriteFailed :: int where "SocketWriteFailed \<equiv> 417"
abbreviation (input) SocketReadFailed :: int where "SocketReadFailed \<equiv> 418"
abbreviation (input) NlsReceiveFailed :: int where "NlsReceiveFailed \<equiv> 430"
abbreviation (input) NlsReceiveEmpty :: int where "NlsReceiveEmpty \<equiv> 431"
abbreviation (input) ReadFailed :: int where "ReadFailed \<equiv> 432"
abbreviation (input) NlsSendFailed :: int where "NlsSendFailed \<equiv> 433"
abbreviation (input) NewOutputBufferFailed :: int where "NewOutputBufferFailed \<equiv> 434"
abbreviation (input) NlsEncodingFailed :: int where "NlsEncodingFailed \<equiv> 435"
abbreviation (input) EventEmpty :: int where "EventEmpty \<equiv> 436"
abbreviation (input) EvbufferTooMuch :: int where "EvbufferTooMuch \<equiv> 437"
abbreviation (input) EvutilSocketFalied :: int where "EvutilSocketFalied \<equiv> 438"
abbreviation (input) InvalidExitStatus :: int where "InvalidExitStatus \<equiv> 439"
abbreviation (input) InvalidAkId :: int where "InvalidAkId \<equiv> 450"
abbreviation (input) InvalidAkSecret :: int where "InvalidAkSecret \<equiv> 451"
abbreviation (input) InvalidAppKey :: int where "InvalidAppKey \<equiv> 452"
abbreviation (input) InvalidDomain :: int where "InvalidDomain \<equiv> 453"
abbreviation (input) InvalidAction :: int where "InvalidAction \<equiv> 454"
abbreviation (input) InvalidServerVersion :: int where "InvalidServerVersion \<equiv> 455"
abbreviation (input) InvalidServerResource :: int where "InvalidServerResource \<equiv> 456"
abbreviation (input) InvalidRegionId :: int where "InvalidRegionId \<equiv> 457"
abbreviation (input) InvalidApiKey :: int where "InvalidApiKey \<equiv> 458"
abbreviation (input) InvalidFileLink :: int where "InvalidFileLink \<equiv> 500"
abbreviation (input) ErrorStatusCode :: int where "ErrorStatusCode \<equiv> 501"
abbreviation (input) IconvOpenFailed :: int where "IconvOpenFailed \<equiv> 502"
abbreviation (input) IconvFailed :: int where "IconvFailed \<equiv> 503"
abbreviation (input) ClientRequestFaild :: int where "ClientRequestFaild \<equiv> 504"
abbreviation (input) VipClientInitFailed :: int where "VipClientInitFailed \<equiv> 550"
abbreviation (input) VipClientMergeHostFailed :: int where "VipClientMergeHostFailed \<equiv> 551"
abbreviation (input) VipClientQueryIpFailed :: int where "VipClientQueryIpFailed \<equiv> 552"
abbreviation (input) ConnectedPoolEmpty :: int where "ConnectedPoolEmpty \<equiv> 560"
abbreviation (input) NlsMaxErrorCode :: int where "NlsMaxErrorCode \<equiv> 999"

lemma NlsRetCode_distinct: "distinct (map snd NlsRetCode)"
  by (simp add: NlsRetCode_def)

lemma NlsRetCode_range: "\<forall>v\<in>set (map snd NlsRetCode). 0 \<le> v \<and> v \<le> 999"
  by (simp add: NlsRetCode_def)

section \<open>Request types and request states\<close>

datatype NlsType =
    TypeAsr | TypeRealTime | TypeTts | TypeStreamInputTts | TypeDialog
    | TypeDashScopeBegin | TypeDashScopeParaformerRealTime
    | TypeDashScopeFunAsrRealTime | TypeDashSceopCosyVoiceStreamInputTts
    | TypeDashScopeEnd | TypeNone

datatype NlsRequestStatus =
    RequestStatusInvalid | RequestStatusCreated | RequestStatusInvoking
    | RequestStatusInvoked | RequestStatusConnecting | RequestStatusConnected
    | RequestStatusHandshaking | RequestStatusHandshaked | RequestStatusStarting
    | RequestStatusRunning | RequestStatusFailed | RequestStatusCompleted
    | RequestStatusClosed | RequestStatusReleased | RequestStatusStop
    | RequestStatusCancel | RequestStatusDisconnected

primrec request_status_code :: "NlsRequestStatus \<Rightarrow> int" where
    "request_status_code RequestStatusInvalid = 0"
  | "request_status_code RequestStatusCreated = 1"
  | "request_status_code RequestStatusInvoking = 2"
  | "request_status_code RequestStatusInvoked = 3"
  | "request_status_code RequestStatusConnecting = 4"
  | "request_status_code RequestStatusConnected = 5"
  | "request_status_code RequestStatusHandshaking = 6"
  | "request_status_code RequestStatusHandshaked = 7"
  | "request_status_code RequestStatusStarting = 8"
  | "request_status_code RequestStatusRunning = 9"
  | "request_status_code RequestStatusFailed = 11"
  | "request_status_code RequestStatusCompleted = 12"
  | "request_status_code RequestStatusClosed = 13"
  | "request_status_code RequestStatusReleased = 14"
  | "request_status_code RequestStatusStop = 15"
  | "request_status_code RequestStatusCancel = 16"
  | "request_status_code RequestStatusDisconnected = 21"

end
