(* ===== verification/TextUtils.thy ===== *)
theory TextUtils
  imports NlsGlobal "HOL-Library.Signed_Division"
begin

text \<open>
  \<open>utils/text_utils.cpp\<close>: the character counter of the synthesizers, the masking of secrets
  in log lines, string splitting, the conversion of timeouts and the byte/short array
  conversions. C strings are lists without the terminating NUL; a null pointer is \<open>None\<close>.
\<close>

section \<open>std::string::find\<close>

fun str_find :: "'a list \<Rightarrow> 'a list \<Rightarrow> nat option" where
  "str_find key [] = (if key = [] then Some 0 else None)"
| "str_find key (x # xs) =
     (if take (length key) (x # xs) = key then Some 0 else map_option Suc (str_find key xs))"

definition str_find_from :: "'a list \<Rightarrow> nat \<Rightarrow> 'a list \<Rightarrow> nat option" where
  "str_find_from key pos s =
    (if length s < pos then None else map_option ((+) pos) (str_find key (drop pos s)))"

lemma str_find_SomeD:
  "str_find key s = Some i \<Longrightarrow> i + length key \<le> length s \<and> take (length key) (drop i s) = key"
proof (induction key s arbitrary: i rule: str_find.induct)
  case (1 key)
  then show ?case by (simp split: if_splits)
next
  case (2 key x xs)
  show ?case
  proof (cases "take (length key) (x # xs) = key")
    case True
    have "length (take (length key) (x # xs)) = length key" using True by simp
    then have "length key \<le> length (x # xs)" by simp
    with True "2.prems" show ?thesis by simp
  next
    case False
    with "2.prems" obtain k where "str_find key xs = Some k" "i = Suc k" by auto
    with "2.IH" [OF False] show ?thesis by simp
  qed
qed

lemma str_find_append:
  assumes "\<And>i. i < length pre \<Longrightarrow> take (length key) (drop i (pre @ key @ post)) \<noteq> key"
  shows "str_find key (pre @ key @ post) = Some (length pre)"
  using assms
proof (induction pre)
  case Nil
  show ?case by (cases "key @ post") (auto simp: append_eq_Cons_conv)
next
  case (Cons x pre)
  have "take (length key) (x # pre @ key @ post) \<noteq> key"
    using Cons.prems [of 0] by simp
  moreover have "str_find key (pre @ key @ post) = Some (length pre)"
    using Cons.prems [of "Suc _"] by (intro Cons.IH) auto
  ultimately show ?case by simp
qed

section \<open>Counting characters of a UTF-8 text\<close>

text \<open>
  \<open>Utf8Size\<close> reads the length of a UTF-8 sequence off its first byte. The \<open>char\<close> is
  promoted to \<open>int\<close> (sign-extended) and shifted arithmetically, as on the SDK's targets.
\<close>

definition Utf8Size :: "byte \<Rightarrow> int" where
  "Utf8Size head =
    (let h = scast head :: u32;
         one_mask = signed_drop_bit 7 h AND 0x1;
         two_mask = signed_drop_bit 5 h AND 0x7;
         three_mask = signed_drop_bit 4 h AND 0xf;
         four_mask = signed_drop_bit 3 h AND 0x1f;
         five_mask = signed_drop_bit 2 h AND 0x3f;
         six_mask = signed_drop_bit 1 h AND 0x7f
     in if one_mask = 0 then 1
        else if two_mask = 0x6 then 2
        else if three_mask = 0xe then 3
        else if four_mask = 0x1e then 4
        else if five_mask = 0x3e then 5
        else if six_mask = 0x7e then 6
        else 0)"

lemma Utf8Size_range: "0 \<le> Utf8Size b \<and> Utf8Size b \<le> 6"
  by (simp add: Utf8Size_def Let_def)

function chars_loop :: "byte list \<Rightarrow> nat \<Rightarrow> int \<Rightarrow> int" where
  "chars_loop text i ret =
    (if i < length text then
       (let len = Utf8Size (text ! i)
        in if 6 < len \<or> len \<le> 0 then ret else chars_loop text (i + nat len) (ret + 1))
     else ret)"
  by pat_completeness auto
termination
  by (relation "measure (\<lambda>(text, i, ret). length text - i)") auto

declare chars_loop.simps [simp del]

definition CharsCalculate :: "byte list option \<Rightarrow> int" where
  "CharsCalculate text =
    (case text of None \<Rightarrow> 0 | Some t \<Rightarrow> chars_loop (takeWhile (\<lambda>b. b \<noteq> 0) t) 0 0)"

text \<open>The reference: RFC 3629 encodes a Unicode scalar value in one to four bytes.\<close>

definition utf8_encode :: "nat \<Rightarrow> byte list" where
  "utf8_encode c =
    (if c < 0x80 then [of_nat c]
     else if c < 0x800 then [of_nat (0xC0 + c div 0x40), of_nat (0x80 + c mod 0x40)]
     else if c < 0x10000 then
       [of_nat (0xE0 + c div 0x1000), of_nat (0x80 + c div 0x40 mod 0x40),
        of_nat (0x80 + c mod 0x40)]
     else
       [of_nat (0xF0 + c div 0x40000), of_nat (0x80 + c div 0x1000 mod 0x40),
        of_nat (0x80 + c div 0x40 mod 0x40), of_nat (0x80 + c mod 0x40)])"

lemma byte_nat_cases:
  assumes "list_all (\<lambda>n. P (of_nat n :: byte)) [0..<256]"
  shows "P b"
proof -
  have "unat b < 256" using unsigned_less [of b, where ?'a = nat] by simp
  moreover have "P (of_nat n)" if "n < 256" for n using assms that by (simp add: list_all_iff)
  ultimately have "P (of_nat (unat b))" by blast
  then show ?thesis by simp
qed

lemma Utf8Size_of_nat:
  "list_all (\<lambda>n. Utf8Size (of_nat n) =
     (if n < 0x80 then 1 else if n < 0xC0 then 0 else if n < 0xE0 then 2
      else if n < 0xF0 then 3 else if n < 0xF8 then 4 else if n < 0xFC then 5
      else if n < 0xFE then 6 else 0)) [0..<256]"
  by code_simp

lemma Utf8Size_nat:
  "n < 256 \<Longrightarrow> Utf8Size (of_nat n) =
     (if n < 0x80 then 1 else if n < 0xC0 then 0 else if n < 0xE0 then 2
      else if n < 0xF0 then 3 else if n < 0xF8 then 4 else if n < 0xFC then 5
      else if n < 0xFE then 6 else 0)"
  using Utf8Size_of_nat by (simp add: list_all_iff)

lemma byte_of_nat_neq_0: "0 < n \<Longrightarrow> n < 256 \<Longrightarrow> (of_nat n :: byte) \<noteq> 0"
  by (simp add: word_of_nat_eq_0_iff nat_dvd_not_less)

lemma utf8_tail_neq_0: "(of_nat (0x80 + n mod 0x40) :: byte) \<noteq> 0"
proof (rule byte_of_nat_neq_0)
  have "n mod 0x40 < 0x40" by simp
  then show "0x80 + n mod 0x40 < 256" by linarith
qed simp

lemma utf8_encode_head:
  assumes "c < 0x110000"
  shows "utf8_encode c \<noteq> [] \<and>
    Utf8Size (hd (utf8_encode c)) = int (length (utf8_encode c)) \<and>
    length (utf8_encode c) \<le> 4"
proof -
  have "c div 0x40 < 0x20" if "c < 0x800" using that by linarith
  moreover have "c div 0x1000 < 0x10" if "c < 0x10000" using that by linarith
  moreover have "c div 0x40000 < 5" using assms by linarith
  ultimately show ?thesis
    using Utf8Size_nat [of c] Utf8Size_nat [of "0xC0 + c div 0x40"]
      Utf8Size_nat [of "0xE0 + c div 0x1000"] Utf8Size_nat [of "0xF0 + c div 0x40000"]
    by (simp add: utf8_encode_def)
qed

lemma utf8_encode_nonzero:
  assumes "0 < c" "c < 0x110000" "b \<in> set (utf8_encode c)"
  shows "b \<noteq> 0"
proof -
  have "c div 0x40 < 0x20" if "c < 0x800" using that by linarith
  moreover have "c div 0x1000 < 0x10" if "c < 0x10000" using that by linarith
  moreover have "c div 0x40000 < 5" using assms by linarith
  ultimately show ?thesis
    using assms byte_of_nat_neq_0 [of c] byte_of_nat_neq_0 [of "0xC0 + c div 0x40"]
      byte_of_nat_neq_0 [of "0xE0 + c div 0x1000"] byte_of_nat_neq_0 [of "0xF0 + c div 0x40000"]
      utf8_tail_neq_0 [of c] utf8_tail_neq_0 [of "c div 0x40"] utf8_tail_neq_0 [of "c div 0x1000"]
    by (auto simp: utf8_encode_def simp del: of_nat_add split: if_splits)
qed

lemma chars_loop_encoded:
  assumes "list_all (\<lambda>c. c < 0x110000) cs"
  shows "chars_loop (pre @ concat (map utf8_encode cs)) (length pre) r = r + int (length cs)"
  using assms
proof (induction cs arbitrary: pre r)
  case Nil
  show ?case by (simp add: chars_loop.simps)
next
  case (Cons c cs)
  let ?e = "utf8_encode c" and ?rest = "concat (map utf8_encode cs)"
  have head: "?e \<noteq> []" "Utf8Size (hd ?e) = int (length ?e)" "length ?e \<le> 4"
    using utf8_encode_head [of c] Cons.prems by auto
  have "(pre @ ?e @ ?rest) ! length pre = hd ?e"
    using head(1) by (simp add: nth_append hd_conv_nth)
  then have "chars_loop (pre @ ?e @ ?rest) (length pre) r =
      chars_loop ((pre @ ?e) @ ?rest) (length (pre @ ?e)) (r + 1)"
    using head by (subst chars_loop.simps) (auto simp: Let_def)
  also have "\<dots> = r + 1 + int (length cs)"
    using Cons.prems by (intro Cons.IH) simp
  finally show ?case by simp
qed

text \<open>\<open>CharsCalculate\<close> counts Unicode characters: on the UTF-8 encoding of any list of scalar
values (none of them NUL, which would end the C string) it returns the length of the list.\<close>

theorem CharsCalculate_utf8:
  assumes "list_all (\<lambda>c. 0 < c \<and> c < 0x110000) cs"
  shows "CharsCalculate (Some (concat (map utf8_encode cs))) = int (length cs)"
proof -
  have "b \<noteq> 0" if b: "b \<in> set (concat (map utf8_encode cs))" for b
  proof -
    obtain c where "c \<in> set cs" "b \<in> set (utf8_encode c)" using b by auto
    then show ?thesis using assms utf8_encode_nonzero [of c b] by (simp add: list_all_iff)
  qed
  then have eq: "takeWhile (\<lambda>b. b \<noteq> 0) (concat (map utf8_encode cs)) = concat (map utf8_encode cs)"
    by (simp only: takeWhile_eq_all_conv) blast
  have "list_all (\<lambda>c. c < 0x110000) cs" using assms by (simp add: list_all_iff)
  from chars_loop_encoded [OF this, of "[]" 0] show ?thesis
    unfolding CharsCalculate_def option.case eq by simp
qed

theorem CharsCalculate_utf8_witness:
  "CharsCalculate (Some [0x61, 0xE4, 0xBD, 0xA0, 0xF0, 0x9F, 0x98, 0x80]) = 3"
  using CharsCalculate_utf8 [of "[0x61, 0x4F60, 0x1F600]"] by (simp add: utf8_encode_def)

section \<open>Masking secrets before logging\<close>

text \<open>
  \<open>buf_out\<close> is the input with its NUL. The loop writes \<open>step\<close> times from \<open>begin\<close>;
  \<open>assign\<close> reads back up to a NUL, so that losing the terminator is undefined too.
\<close>

fun fill_from :: "byte list \<Rightarrow> nat \<Rightarrow> nat \<Rightarrow> byte \<Rightarrow> byte list option" where
  "fill_from buf pos 0 c = Some buf"
| "fill_from buf pos (Suc n) c =
     (if pos < length buf then fill_from (buf[pos := c]) (Suc pos) n c else None)"

definition c_str :: "byte list \<Rightarrow> byte list option" where
  "c_str buf = (if 0 \<in> set buf then Some (takeWhile (\<lambda>b. b \<noteq> 0) buf) else None)"

definition securityDisposalForLog ::
  "byte list \<Rightarrow> byte list \<Rightarrow> byte list \<Rightarrow> nat \<Rightarrow> byte \<Rightarrow> byte list option" where
  "securityDisposalForLog buf_in buf_str key step c =
    (let buf_in_size = length buf_in
     in if 0 < buf_in_size then
          (let buf_out = buf_in @ [0]
           in case str_find key buf_in of
                None \<Rightarrow> c_str buf_out
              | Some pos2 \<Rightarrow>
                  do { buf_out \<leftarrow> fill_from buf_out (pos2 + length key + 1) step c;
                       c_str buf_out })
        else Some buf_str)"

lemma fill_from_eq:
  "pos \<le> length buf \<Longrightarrow> fill_from buf pos n c =
    (if pos + n \<le> length buf
     then Some (take pos buf @ replicate n c @ drop (pos + n) buf) else None)"
proof (induction buf pos n c rule: fill_from.induct)
  case (1 buf pos c)
  then show ?case by simp
next
  case (2 buf pos n c)
  show ?case
  proof (cases "pos < length buf")
    case True
    then have "take (Suc pos) (buf[pos := c]) = take pos buf @ [c]"
      by (simp add: take_Suc_conv_app_nth)
    then show ?thesis using 2 True by (simp add: drop_update_cancel)
  next
    case False
    then show ?thesis using 2 by simp
  qed
qed

text \<open>Masking is confined to its window. If the key occurs in a log line and the \<open>step\<close>
characters after the key and one separator lie inside the line, the result is the line with
exactly these characters replaced; when they do not, the routine writes over the terminating
NUL or past the buffer and its behaviour is undefined.\<close>

theorem securityDisposalForLog_window:
  assumes "0 \<notin> set buf_in" "c \<noteq> 0" "0 < step" "str_find key buf_in = Some p" "buf_in \<noteq> []"
  shows "securityDisposalForLog buf_in buf_str key step c =
    (if p + length key + 1 + step \<le> length buf_in
     then Some (take (p + length key + 1) buf_in @ replicate step c @
                drop (p + length key + 1 + step) buf_in)
     else None)"
proof -
  let ?b = "p + length key + 1"
  have "p + length key \<le> length buf_in" using str_find_SomeD [OF assms(4)] by simp
  then have fill: "fill_from (buf_in @ [0]) ?b step c =
      (if ?b + step \<le> Suc (length buf_in)
       then Some (take ?b (buf_in @ [0]) @ replicate step c @ drop (?b + step) (buf_in @ [0]))
       else None)"
    by (subst fill_from_eq) auto
  have no0: "0 \<notin> set (take k buf_in)" "0 \<notin> set (drop k buf_in)" for k
    using assms(1) by (auto dest: in_set_takeD in_set_dropD)
  show ?thesis
  proof (cases "?b + step \<le> length buf_in")
    case True
    let ?m = "take ?b buf_in @ replicate step c @ drop (?b + step) buf_in"
    have "0 \<notin> set ?m" using no0 assms(2) by auto
    then have "takeWhile (\<lambda>b. b \<noteq> 0) (?m @ [0]) = ?m" by (subst takeWhile_append2) auto
    then have "c_str (?m @ [0]) = Some ?m" by (simp add: c_str_def)
    with True fill assms(4,5) show ?thesis by (simp add: securityDisposalForLog_def)
  next
    case False
    have "c_str (take ?b (buf_in @ [0]) @ replicate step c) = None"
      if "?b + step = Suc (length buf_in)"
      using that no0 assms(2,3) by (auto simp: c_str_def)
    with False fill assms(4,5) show ?thesis
      by (auto simp: securityDisposalForLog_def not_le le_Suc_eq)
  qed
qed

theorem securityDisposalForLog_window_witness:
  "securityDisposalForLog [0x54, 0x3A, 0x20, 0x61, 0x62, 0x63] [] [0x54, 0x3A] 2 0x58 =
     Some [0x54, 0x3A, 0x20, 0x58, 0x58, 0x63]"
proof -
  have "replicate 2 (0x58 :: byte) = [0x58, 0x58]" by (simp add: numeral_2_eq_2)
  then show ?thesis by (subst securityDisposalForLog_window [of _ _ _ _ 0]) simp_all
qed

section \<open>Splitting at a delimiter\<close>

text \<open>
  \<open>std::getline\<close> yields the characters up to the next delimiter, which it removes; at the
  end of the stream it yields what is left, and fails when nothing is left.
\<close>

function split :: "'a list \<Rightarrow> 'a \<Rightarrow> 'a list list" where
  "split s delim =
    (if s = [] then []
     else takeWhile (\<lambda>x. x \<noteq> delim) s #
          split (tl (dropWhile (\<lambda>x. x \<noteq> delim) s)) delim)"
  by pat_completeness auto
termination
proof (relation "measure (\<lambda>(s, delim). length s)")
  fix s :: "'a list" and delim :: 'a
  assume "s \<noteq> []"
  then have "length (tl (dropWhile (\<lambda>x. x \<noteq> delim) s)) < length s"
    using length_dropWhile_le [of "\<lambda>x. x \<noteq> delim" s] by (cases s) auto
  then show "((tl (dropWhile (\<lambda>x. x \<noteq> delim) s), delim), s, delim)
      \<in> measure (\<lambda>(s, delim). length s)" by simp
qed simp

declare split.simps [simp del]

lemma takeWhile_neq [simp]:
  "d \<notin> set xs \<Longrightarrow> takeWhile (\<lambda>x. x \<noteq> d) (xs @ d # ys) = xs"
  "d \<notin> set xs \<Longrightarrow> takeWhile (\<lambda>x. x \<noteq> d) xs = xs"
  by (induction xs) auto

lemma dropWhile_neq [simp]:
  "d \<notin> set xs \<Longrightarrow> dropWhile (\<lambda>x. x \<noteq> d) (xs @ d # ys) = d # ys"
  "d \<notin> set xs \<Longrightarrow> dropWhile (\<lambda>x. x \<noteq> d) xs = []"
  by (induction xs) auto

lemma split_Nil [simp]: "split [] delim = []"
  by (simp add: split.simps)

lemma split_terminated:
  "delim \<notin> set item \<Longrightarrow> split (item @ delim # rest) delim = item # split rest delim"
  by (subst split.simps) simp

lemma split_last: "delim \<notin> set item \<Longrightarrow> item \<noteq> [] \<Longrightarrow> split item delim = [item]"
  by (subst split.simps) simp

text \<open>Splitting undoes joining. Items free of the delimiter, each followed by it, are
recovered exactly, empty ones included, together with a last item that is not terminated.\<close>

theorem split_join:
  assumes "list_all (\<lambda>item. delim \<notin> set item) items" "delim \<notin> set last_item"
  shows "split (concat (map (\<lambda>item. item @ [delim]) items) @ last_item) delim =
    items @ (if last_item = [] then [] else [last_item])"
  using assms
  by (induction items) (simp_all add: split_terminated split_last)

theorem split_join_witness: "split [1, 9, 9, 2, 3 :: int] 9 = [[1], [], [2, 3]]"
  using split_join [of "9 :: int" "[[1], []]" "[2, 3]"] by simp

section \<open>Timeouts\<close>

text \<open>\<open>time_t\<close> is a signed 64-bit count; C++ division truncates towards zero.\<close>

record timeval = tv_sec :: int  tv_usec :: int
record timespec = ts_sec :: int  ts_nsec :: int

definition GetTimevalFromMs :: "int \<Rightarrow> timeval" where
  "GetTimevalFromMs ms =
    (let sec = ms sdiv 1000 in \<lparr>tv_sec = sec, tv_usec = (ms - sec * 1000) * 1000\<rparr>)"

definition GetTimespecFromMs :: "int \<Rightarrow> timespec" where
  "GetTimespecFromMs ms = \<lparr>ts_sec = ms sdiv 1000, ts_nsec = (ms smod 1000) * 1000000\<rparr>"

lemma GetTimevalFromMs_exact:
  "tv_sec (GetTimevalFromMs ms) * 1000000 + tv_usec (GetTimevalFromMs ms) = ms * 1000"
  by (simp add: GetTimevalFromMs_def Let_def algebra_simps)

lemma GetTimevalFromMs_range:
  "0 \<le> ms \<Longrightarrow> 0 \<le> tv_usec (GetTimevalFromMs ms) \<and> tv_usec (GetTimevalFromMs ms) < 1000000"
  by (auto simp: GetTimevalFromMs_def Let_def signed_divide_int_def sgn_if minus_div_mult_eq_mod
    split: if_splits)

lemma GetTimespec_Timeval:
  "ts_sec (GetTimespecFromMs ms) = tv_sec (GetTimevalFromMs ms) \<and>
   ts_nsec (GetTimespecFromMs ms) = tv_usec (GetTimevalFromMs ms) * 1000"
proof -
  have "ms - ms sdiv 1000 * 1000 = ms smod 1000"
    by (rule minus_sdiv_mult_eq_smod)
  then show ?thesis by (simp add: GetTimespecFromMs_def GetTimevalFromMs_def Let_def)
qed

section \<open>Small helpers\<close>

definition IsEmpty :: "byte list option \<Rightarrow> bool" where
  "IsEmpty str = (case str of None \<Rightarrow> True | Some s \<Rightarrow> s ! 0 = 0)"

text \<open>\<open>uuid_unparse\<close> (libuuid) supplies the text; the loop drops its dashes.\<close>

definition getRandomUuid :: "byte list \<Rightarrow> byte list" where
  "getRandomUuid tmp = filter (\<lambda>c. c \<noteq> 0x2D) (takeWhile (\<lambda>c. c \<noteq> 0) tmp)"

fun ByteArrayToShortArray :: "byte list \<Rightarrow> nat \<Rightarrow> 16 word list option" where
  "ByteArrayToShortArray bytes 0 = Some []"
| "ByteArrayToShortArray (lo # hi # bytes) (Suc count) =
     map_option (\<lambda>xs. (push_bit 8 (scast hi) OR ucast lo) # xs)
       (ByteArrayToShortArray bytes count)"
| "ByteArrayToShortArray _ (Suc count) = None"

text \<open>
  The buffer holds the samples, low byte first (the SDK's targets are little-endian), and is
  overwritten in place; each sample is read before its two bytes are written.
\<close>

fun ShortArrayToByteArray :: "byte list \<Rightarrow> nat \<Rightarrow> byte list option" where
  "ShortArrayToByteArray buffer 0 = Some buffer"
| "ShortArrayToByteArray (lo # hi # buffer) (Suc count) =
     (let x = push_bit 8 (scast hi) OR ucast lo :: 16 word;
          low_byte = ucast (x AND 0xF);
          high_byte = ucast (signed_drop_bit 8 x AND 0xF)
      in map_option (\<lambda>rest. low_byte # high_byte # rest) (ShortArrayToByteArray buffer count))"
| "ShortArrayToByteArray _ (Suc count) = None"

lemma sample_masked:
  fixes lo :: byte and hi :: byte and x :: "16 word"
  assumes x: "x = (push_bit 8 (scast hi) OR ucast lo)"
  shows "push_bit 8 (scast (ucast (signed_drop_bit 8 x AND 0xF) :: byte)) OR
      ucast (ucast (x AND 0xF) :: byte) = x AND 0x0F0F" (is "?l = ?r")
proof (rule bit_word_eqI)
  fix n assume "n < LENGTH(16)"
  then have "n \<in> {0,1,2,3,4,5,6,7,8,9,10,11,12,13,14,15}" by (simp; presburger)
  then show "bit ?l n = bit ?r n"
    unfolding x by (elim insertE emptyE; simp add: bit_simps)
qed

text \<open>Converting samples to bytes and back keeps only the low four bits of each of their
two bytes: the conversion masks with \<open>0xF\<close> where a byte needs \<open>0xFF\<close>.\<close>

theorem ShortArrayToByteArray_loses:
  assumes "ShortArrayToByteArray buffer count = Some buffer'"
  shows "ByteArrayToShortArray buffer' count =
    map_option (map (\<lambda>x. x AND 0x0F0F)) (ByteArrayToShortArray buffer count)"
  using assms
  by (induction buffer count arbitrary: buffer' rule: ShortArrayToByteArray.induct)
    (auto simp: Let_def sample_masked option.map_comp comp_def)

theorem ShortArrayToByteArray_loses_witness:
  "ByteArrayToShortArray [0x4, 0x2] 1 = Some [0x1234 AND 0x0F0F]"
  using ShortArrayToByteArray_loses [of "[0x34, 0x12]" 1 "[0x4, 0x2]"]
  by code_simp

end
