(* ===== verification/WebSocketTcp.thy ===== *)
theory WebSocketTcp
  imports TextUtils
begin

text \<open>
  \<open>transport/webSocketTcp.cpp\<close>: the frame codec of the WebSocket connection (client frames
  out, server frames in), the incremental receiver with its four states, and the parsing of
  URLs and of the HTTP upgrade response. A buffer is the list of the bytes it can hold; the
  count of received bytes is a separate \<open>size_t\<close>, as in the code. An access outside the
  list is undefined behaviour (\<open>None\<close>). Results are the return code (or byte count) as
  \<open>int\<close>, paired with the objects the call has changed.
\<close>

section \<open>Data\<close>

abbreviation (input) HttpPort :: int where "HttpPort \<equiv> 80"
abbreviation (input) TypeSize :: nat where "TypeSize \<equiv> 10"
abbreviation (input) HostSize :: nat where "HostSize \<equiv> 256"
abbreviation (input) PathSize :: nat where "PathSize \<equiv> 512"
abbreviation (input) TokenSize :: nat where "TokenSize \<equiv> 512"
abbreviation (input) BufferSize :: nat where "BufferSize \<equiv> 2048"
abbreviation (input) ReadBufferSize :: nat where "ReadBufferSize \<equiv> 30720"

datatype WebSocketReceiveStatus = WsHeadSize | WsHeadBody | WsContentBody | WsWsFailed

abbreviation (input) CONTINUATION :: byte where "CONTINUATION \<equiv> 0x0"
abbreviation (input) TEXT_FRAME :: byte where "TEXT_FRAME \<equiv> 0x1"
abbreviation (input) BINARY_FRAME :: byte where "BINARY_FRAME \<equiv> 0x2"
abbreviation (input) CLOSE :: byte where "CLOSE \<equiv> 0x8"
abbreviation (input) PING :: byte where "PING \<equiv> 0x9"
abbreviation (input) PONG :: byte where "PONG \<equiv> 0xa"

record WebSocketHeaderType =
  headerSize :: u32
  fin :: bool
  maskBit :: bool
  opCode :: byte
  N0 :: int
  N :: u64
  masKingKey :: "byte list"

text \<open>\<open>data\<close> points into the receive buffer: it is an offset, or \<open>None\<close> for null.\<close>

record WebSocketFrame =
  frame_type :: byte
  data :: "nat option"
  data_length :: u64
  closeCode :: int

definition empty_frame :: WebSocketFrame where
  "empty_frame = \<lparr>frame_type = 0, data = None, data_length = 0, closeCode = 0\<rparr>"

record WebSocketTcp =
  httpCode :: u64
  httpLength :: u64
  rStatus :: WebSocketReceiveStatus
  errorMsg :: string

text \<open>The state after construction; the connection clears its header description.\<close>

definition WebSocketTcp_init :: WebSocketTcp where
  "WebSocketTcp_init = \<lparr>httpCode = 0, httpLength = 0, rStatus = WsHeadSize, errorMsg = []\<rparr>"

definition header_init :: WebSocketHeaderType where
  "header_init = \<lparr>headerSize = 0, fin = False, maskBit = False, opCode = 0, N0 = 0, N = 0,
     masKingKey = [0, 0, 0, 0]\<rparr>"

section \<open>Masking\<close>

text \<open>\<open>for (i = 0; i != n; ++i) buffer[off + i] ^= key[i & 3]\<close>\<close>

fun xor_loop :: "byte list \<Rightarrow> nat \<Rightarrow> byte list \<Rightarrow> nat \<Rightarrow> nat \<Rightarrow> byte list option" where
  "xor_loop buffer off key i 0 = Some buffer"
| "xor_loop buffer off key i (Suc n) =
     (if off + i < length buffer
      then xor_loop (buffer[off + i := buffer ! (off + i) XOR key ! (i mod 4)]) off key (Suc i) n
      else None)"

definition xor_key :: "byte list \<Rightarrow> nat \<Rightarrow> byte list \<Rightarrow> byte list" where
  "xor_key key i xs = map (\<lambda>(j, b). b XOR key ! (j mod 4)) (enumerate i xs)"

lemma length_xor_key [simp]: "length (xor_key key i xs) = length xs"
  by (simp add: xor_key_def)

lemma xor_key_Nil [simp]: "xor_key key i [] = []"
  by (simp add: xor_key_def)

lemma xor_key_Cons [simp]:
  "xor_key key i (x # xs) = (x XOR key ! (i mod 4)) # xor_key key (Suc i) xs"
  by (simp add: xor_key_def)

lemma xor_key_involutive [simp]: "xor_key key i (xor_key key i xs) = xs"
  by (induction xs arbitrary: i) (simp_all add: xor.assoc)

lemma xor_key_zero: "list_all (\<lambda>k. k = 0) key \<Longrightarrow> length key = 4 \<Longrightarrow> xor_key key i xs = xs"
  by (induction xs arbitrary: i) (simp_all add: list_all_length)

lemma xor_loop_eq:
  "off + i + length xs \<le> length buffer \<Longrightarrow> take (length xs) (drop (off + i) buffer) = xs \<Longrightarrow>
   xor_loop buffer off key i (length xs) =
     Some (take (off + i) buffer @ xor_key key i xs @ drop (off + i + length xs) buffer)"
proof (induction xs arbitrary: buffer i)
  case Nil
  then show ?case by simp
next
  case (Cons x xs)
  let ?p = "off + i"
  let ?b = "buffer[?p := x XOR key ! (i mod 4)]"
  have p: "?p < length buffer" using Cons.prems(1) by simp
  then have drop_p: "drop ?p buffer = buffer ! ?p # drop (Suc ?p) buffer"
    by (simp add: Cons_nth_drop_Suc)
  with Cons.prems(2) have x: "buffer ! ?p = x"
    and xs: "take (length xs) (drop (Suc ?p) buffer) = xs" by auto
  have "xor_loop ?b off key (Suc i) (length xs) =
      Some (take (off + Suc i) ?b @ xor_key key (Suc i) xs @ drop (off + Suc i + length xs) ?b)"
    using Cons.prems(1) xs by (intro Cons.IH) (simp_all add: drop_update_cancel)
  moreover have "take (Suc ?p) ?b = take ?p buffer @ [x XOR key ! (i mod 4)]"
    using p by (simp add: take_Suc_conv_app_nth)
  ultimately show ?case using p x by (simp add: drop_update_cancel)
qed

section \<open>Outgoing frames\<close>

text \<open>
  \<open>alloc n\<close> tells whether \<open>calloc\<close> of \<open>n\<close> bytes succeeds; the result is the error code or
  the frame. \<open>headlen + length\<close> is a \<open>size_t\<close> sum and wraps. The copy reads \<open>length\<close> bytes
  of the caller's buffer and writes them behind the header.
\<close>

definition masKingKey_const :: "byte list" where
  "masKingKey_const = [0x12, 0x34, 0x56, 0x78]"

definition frame_header :: "byte \<Rightarrow> u64 \<Rightarrow> byte list" where
  "frame_header codeType len =
    (let k = masKingKey_const;
         headlen = 2 + (if 126 \<le> len then 2 else 0) + (if 65536 \<le> len then 6 else 0) + 4;
         header = replicate headlen 0;
         header = header[0 := 0x80 OR codeType]
     in if len < 126 then
          header[1 := ucast (len AND 0xff) OR 0x80, 2 := k ! 0, 3 := k ! 1, 4 := k ! 2, 5 := k ! 3]
        else if len < 65536 then
          header[1 := 126 OR 0x80, 2 := ucast (drop_bit 8 len AND 0xff),
                 3 := ucast (drop_bit 0 len AND 0xff),
                 4 := k ! 0, 5 := k ! 1, 6 := k ! 2, 7 := k ! 3]
        else
          header[1 := 127 OR 0x80,
                 2 := ucast (drop_bit 56 len AND 0xff), 3 := ucast (drop_bit 48 len AND 0xff),
                 4 := ucast (drop_bit 40 len AND 0xff), 5 := ucast (drop_bit 32 len AND 0xff),
                 6 := ucast (drop_bit 24 len AND 0xff), 7 := ucast (drop_bit 16 len AND 0xff),
                 8 := ucast (drop_bit 8 len AND 0xff), 9 := ucast (drop_bit 0 len AND 0xff),
                 10 := k ! 0, 11 := k ! 1, 12 := k ! 2, 13 := k ! 3])"

definition framePackage ::
  "(nat \<Rightarrow> bool) \<Rightarrow> byte \<Rightarrow> byte list option \<Rightarrow> u64 \<Rightarrow> (int + byte list) option" where
  "framePackage alloc codeType buffer len =
    (let header = frame_header codeType len;
         headlen = length header;
         frameSize = of_nat headlen + len
     in if \<not> alloc headlen then Some (Inl (- MallocFailed))
        else if \<not> alloc (unat frameSize) then Some (Inl (- MallocFailed))
        else if unat frameSize < headlen then None
        else do {
          let frame = header @ replicate (unat frameSize - headlen) 0;
          frame \<leftarrow> (case buffer of
              None \<Rightarrow> Some frame
            | Some b \<Rightarrow>
                if length b < unat len \<or> unat frameSize < headlen + unat len then None
                else Some (header @ take (unat len) b));
          frame \<leftarrow> xor_loop frame headlen masKingKey_const 0 (unat len);
          Some (Inr frame) })"

definition binaryFrame :: "(nat \<Rightarrow> bool) \<Rightarrow> byte list option \<Rightarrow> u64 \<Rightarrow> (int + byte list) option" where
  "binaryFrame alloc buffer len = framePackage alloc BINARY_FRAME buffer len"

definition textFrame :: "(nat \<Rightarrow> bool) \<Rightarrow> byte list option \<Rightarrow> u64 \<Rightarrow> (int + byte list) option" where
  "textFrame alloc buffer len = framePackage alloc TEXT_FRAME buffer len"

definition pingFrame :: "(nat \<Rightarrow> bool) \<Rightarrow> (int + byte list) option" where
  "pingFrame alloc = framePackage alloc PING None 0"

section \<open>The frame format of RFC 6455\<close>

text \<open>Reference definitions, over numbers: big-endian integers, an encoder for the frames a
server sends (not masked) and a decoder for one frame, masked or not, at the head of a
stream.\<close>

fun be_bytes :: "nat \<Rightarrow> nat \<Rightarrow> byte list" where
  "be_bytes 0 n = []"
| "be_bytes (Suc k) n = of_nat (n div 256 ^ k) # be_bytes k n"

fun be_value :: "byte list \<Rightarrow> nat" where
  "be_value [] = 0"
| "be_value (b # bs) = unat b * 256 ^ length bs + be_value bs"

lemma be_bytes_numeral [simp]:
  "be_bytes (numeral v) n = of_nat (n div 256 ^ pred_numeral v) # be_bytes (pred_numeral v) n"
  by (simp add: numeral_eq_Suc)

lemma length_be_bytes [simp]: "length (be_bytes k n) = k"
  by (induction k) simp_all

lemma be_value_be_bytes: "be_value (be_bytes k n) = n mod 256 ^ k"
proof (induction k)
  case (Suc k)
  have "n mod (256 ^ k * 256) = 256 ^ k * (n div 256 ^ k mod 256) + n mod 256 ^ k"
    by (rule mod_mult2_eq)
  with Suc show ?case
    by (simp add: unat_of_nat take_bit_eq_mod mult.commute)
qed simp

definition rfc_length :: "nat \<Rightarrow> byte list" where
  "rfc_length n =
    (if n < 126 then [of_nat n] else if n < 65536 then 126 # be_bytes 2 n else 127 # be_bytes 8 n)"

definition rfc_encode :: "byte \<Rightarrow> byte list \<Rightarrow> byte list" where
  "rfc_encode op payload = (0x80 OR op) # rfc_length (length payload) @ payload"

definition rfc_decode :: "byte list \<Rightarrow> (bool \<times> byte \<times> byte list \<times> byte list) option" where
  "rfc_decode stream =
    (case stream of
       b0 # b1 # s \<Rightarrow>
         let n7 = unat (b1 AND 0x7f);
             k = (if n7 = 126 then 2 else if n7 = 127 then 8 else 0);
             n = (if k = 0 then n7 else be_value (take k s));
             m = (if bit b1 7 then 4 else 0);
             key = (if bit b1 7 then take 4 (drop k s) else [0, 0, 0, 0]);
             payload = take n (drop (k + m) s)
         in if length s < k + m + n then None
            else Some (bit b0 7, b0 AND 0xf, xor_key key 0 payload, drop (k + m + n) s)
     | _ \<Rightarrow> None)"

lemma bit_0xff: "n < 8 \<Longrightarrow> bit (0xff :: u64) n"
proof -
  assume "n < 8"
  then have "bit (mask 8 :: u64) n" by (simp add: bit_mask_iff)
  then show ?thesis by (simp add: mask_eq_exp_minus_1)
qed

lemma byte_of_u64: "ucast (drop_bit k (len :: u64) AND 0xff) = (of_nat (unat len div 2 ^ k) :: byte)"
proof (rule bit_word_eqI)
  fix n assume n: "n < LENGTH(8)"
  have "bit (of_nat (unat len div 2 ^ k) :: byte) n = bit len (k + n)"
    using n by (simp add: bit_simps flip: drop_bit_eq_div)
  moreover have "bit (ucast (drop_bit k len AND 0xff) :: byte) n = bit (drop_bit k len AND 0xff) n"
    using n by (simp only: bit_unsigned_iff) simp
  moreover have "bit (drop_bit k len AND 0xff) n = bit len (k + n)"
    using n bit_0xff [of n] by (simp only: bit_and_iff bit_drop_bit_eq comp_apply) simp
  ultimately show "bit (ucast (drop_bit k len AND 0xff) :: byte) n
      = bit (of_nat (unat len div 2 ^ k) :: byte) n" by simp
qed

lemma unat_word_less: "unat (w :: 'a::len word) < 2 ^ LENGTH('a)"
  by (rule unsigned_less)

lemma xor_loop_segment:
  "length pre = off \<Longrightarrow> length xs = n \<Longrightarrow>
   xor_loop (pre @ xs @ post) off key 0 n = Some (pre @ xor_key key 0 xs @ post)"
  using xor_loop_eq [of off 0 xs "pre @ xs @ post" key] by auto

lemma frame_header_eq:
  "frame_header codeType len =
    (if len < 126 then [0x80 OR codeType, of_nat (unat len) OR 0x80] @ masKingKey_const
     else if len < 65536 then [0x80 OR codeType, 126 OR 0x80] @ be_bytes 2 (unat len) @ masKingKey_const
     else [0x80 OR codeType, 127 OR 0x80] @ be_bytes 8 (unat len) @ masKingKey_const)"
proof -
  have r: "replicate 6 (0 :: byte) = [0,0,0,0,0,0]" "replicate 8 (0 :: byte) = [0,0,0,0,0,0,0,0]"
    "replicate 14 (0 :: byte) = [0,0,0,0,0,0,0,0,0,0,0,0,0,0]"
    by (simp_all add: eval_nat_numeral)
  have lt: "126 \<le> len \<longleftrightarrow> \<not> len < 126" "65536 \<le> len \<longleftrightarrow> \<not> len < 65536" by auto
  have lt': "\<not> len < 65536" if "\<not> len < 126" "65536 \<le> len" using that by auto
  have lt'': "len < 65536" if "len < 126" using that by (simp add: word_less_nat_alt)
  show ?thesis
    using byte_of_u64 [of 0 len]
    by (simp add: frame_header_def Let_def r byte_of_u64 masKingKey_const_def lt lt'')
qed

lemma first_byte_table:
  "list_all (\<lambda>n. bit (0x80 OR of_nat n :: byte) 7 \<and> (0x80 OR of_nat n :: byte) AND 0xf = of_nat n) [0..<16]"
  by code_simp

lemma second_byte_table:
  "list_all (\<lambda>n. bit (of_nat n OR 0x80 :: byte) 7 \<and> unat ((of_nat n OR 0x80 :: byte) AND 0x7f) = n
     \<and> \<not> bit (of_nat n :: byte) 7 \<and> unat ((of_nat n :: byte) AND 0x7f) = n) [0..<128]"
  by code_simp

lemma first_byte:
  "op < (16 :: byte) \<Longrightarrow> bit (0x80 OR op) 7 \<and> (0x80 OR op) AND 0xf = op"
proof -
  assume "op < (16 :: byte)"
  then have "unat op < 16" by (simp add: word_less_nat_alt)
  then show ?thesis using first_byte_table by (auto simp: list_all_iff dest!: bspec [of _ _ "unat op"])
qed

lemma second_byte:
  "n < 128 \<Longrightarrow> bit (of_nat n OR 0x80 :: byte) 7 \<and> unat ((of_nat n OR 0x80 :: byte) AND 0x7f) = n
     \<and> \<not> bit (of_nat n :: byte) 7 \<and> unat ((of_nat n :: byte) AND 0x7f) = n"
  using second_byte_table by (simp add: list_all_iff)

lemma second_byte_uint: "n < 128 \<Longrightarrow> uint ((of_nat n :: byte) AND 0x7f) = int n"
proof -
  assume "n < 128"
  then have "int (unat ((of_nat n :: byte) AND 0x7f)) = int n"
    using second_byte [of n] by (simp only:)
  then show ?thesis by simp
qed

lemma rfc_decode_masked:
  assumes "op < 16" "length key = 4" "length payload < 2 ^ 63"
  shows "rfc_decode ((0x80 OR op) #
    (if length payload < 126 then [of_nat (length payload) OR 0x80]
     else if length payload < 65536 then (126 OR 0x80) # be_bytes 2 (length payload)
     else (127 OR 0x80) # be_bytes 8 (length payload)) @ key @ xor_key key 0 payload @ rest)
    = Some (True, op, payload, rest)"
proof -
  note b0 = first_byte [OF assms(1)]
  consider "length payload < 126" | "126 \<le> length payload" "length payload < 65536"
    | "65536 \<le> length payload" by linarith
  then show ?thesis
  proof cases
    case 1
    then show ?thesis
      using b0 second_byte [of "length payload"] assms(2) by (simp add: rfc_decode_def Let_def)
  next
    case 2
    have "be_value (be_bytes 2 (length payload)) = length payload"
      using 2 by (simp only: be_value_be_bytes) simp
    then show ?thesis
      using 2 b0 second_byte [of 126] assms(2) by (simp add: rfc_decode_def Let_def del: be_bytes_numeral)
  next
    case 3
    have "be_value (be_bytes 8 (length payload)) = length payload"
      using assms(3) by (simp only: be_value_be_bytes) simp
    then show ?thesis
      using 3 b0 second_byte [of 127] assms(2) by (simp add: rfc_decode_def Let_def del: be_bytes_numeral)
  qed
qed

lemma framePackage_eq:
  assumes "unat len = length payload" "length payload < 2 ^ 63" "\<forall>n. alloc n"
  shows "framePackage alloc op (Some (payload @ tail)) len =
    Some (Inr (frame_header op len @ xor_key masKingKey_const 0 payload))"
proof -
  let ?h = "frame_header op len"
  have h: "length ?h \<le> 14" by (simp add: frame_header_eq masKingKey_const_def)
  have "unat (of_nat (length ?h) + len) = length ?h + length payload"
    using h assms(1,2) by (subst unat_plus_if_size) (simp add: unat_of_nat take_bit_eq_mod word_size)
  then show ?thesis
    using assms(1,3) xor_loop_segment [of ?h "length ?h" payload "length payload" "[]" masKingKey_const]
    by (simp add: framePackage_def Let_def)
qed

text \<open>C26: the frames the SDK sends are RFC 6455 frames. For every opcode and every payload
shorter than \<open>2 ^ 63\<close>, in all three length encodings, a conforming receiver decodes the frame
from the head of the byte stream: final, with the opcode and the payload given, leaving what
follows the frame untouched.\<close>

theorem framePackage_rfc6455:
  assumes "op < 16" "unat len = length payload" "length payload < 2 ^ 63" "\<forall>n. alloc n"
  shows "\<exists>frame. framePackage alloc op (Some (payload @ tail)) len = Some (Inr frame) \<and>
    rfc_decode (frame @ rest) = Some (True, op, payload, rest)"
proof (intro exI conjI)
  let ?frame = "frame_header op len @ xor_key masKingKey_const 0 payload"
  show "framePackage alloc op (Some (payload @ tail)) len = Some (Inr ?frame)"
    by (rule framePackage_eq [OF assms(2-4)])
  have "len < 126 \<longleftrightarrow> length payload < 126" "len < 65536 \<longleftrightarrow> length payload < 65536"
    using assms(2) by (simp_all add: word_less_nat_alt)
  then show "rfc_decode (?frame @ rest) = Some (True, op, payload, rest)"
    using rfc_decode_masked [of op masKingKey_const payload rest] assms(1-3)
    by (simp add: frame_header_eq masKingKey_const_def split: if_splits)
qed

theorem framePackage_rfc6455_witness:
  "\<exists>frame. textFrame (\<lambda>n. True) (Some [0x68, 0x69]) 2 = Some (Inr frame) \<and>
    rfc_decode (frame @ [0x8a]) = Some (True, TEXT_FRAME, [0x68, 0x69], [0x8a])"
  using framePackage_rfc6455 [of TEXT_FRAME 2 "[0x68, 0x69]" "\<lambda>n. True" "[]" "[0x8a]"]
  by (simp add: textFrame_def)

section \<open>Incoming frames\<close>

abbreviation byte_at :: "byte list \<Rightarrow> nat \<Rightarrow> byte option" where
  "byte_at buffer i \<equiv> (if i < length buffer then Some (buffer ! i) else None)"

definition decodeHeaderSizeWebSocketFrame ::
  "byte list \<Rightarrow> u64 \<Rightarrow> WebSocketHeaderType \<Rightarrow> (int \<times> WebSocketHeaderType) option" where
  "decodeHeaderSizeWebSocketFrame buffer len wsType =
    (if len < 2 then Some (- InvalidWsFrameHeaderSize, wsType)
     else do {
       d0 \<leftarrow> byte_at buffer 0;
       d1 \<leftarrow> byte_at buffer 1;
       let n0 = int (unat (d1 AND 0x7f));
       let m = (d1 AND 0x80 = 0x80);
       Some (Success,
         wsType\<lparr>fin := (d0 AND 0x80 = 0x80), opCode := d0 AND 0x0f, maskBit := m, N0 := n0,
           headerSize := 2 + (if n0 = 126 then 2 else 0) + (if n0 = 127 then 8 else 0) +
             (if m then 4 else 0)\<rparr>) })"

definition read_u16 :: "byte list \<Rightarrow> u64 option" where
  "read_u16 buffer =
    do { b2 \<leftarrow> byte_at buffer 2; b3 \<leftarrow> byte_at buffer 3;
         Some ((0 OR push_bit 8 (ucast b2)) OR push_bit 0 (ucast b3)) }"

definition read_u64 :: "byte list \<Rightarrow> u64 option" where
  "read_u64 buffer =
    do { b2 \<leftarrow> byte_at buffer 2; b3 \<leftarrow> byte_at buffer 3; b4 \<leftarrow> byte_at buffer 4;
         b5 \<leftarrow> byte_at buffer 5; b6 \<leftarrow> byte_at buffer 6; b7 \<leftarrow> byte_at buffer 7;
         b8 \<leftarrow> byte_at buffer 8; b9 \<leftarrow> byte_at buffer 9;
         Some (((((((push_bit 56 (ucast b2) OR push_bit 48 (ucast b3)) OR push_bit 40 (ucast b4))
           OR push_bit 32 (ucast b5)) OR push_bit 24 (ucast b6)) OR push_bit 16 (ucast b7))
           OR push_bit 8 (ucast b8)) OR push_bit 0 (ucast b9)) }"

definition decodeHeaderBodyWebSocketFrame ::
  "byte list \<Rightarrow> u64 \<Rightarrow> WebSocketHeaderType \<Rightarrow> (int \<times> WebSocketHeaderType) option" where
  "decodeHeaderBodyWebSocketFrame buffer len wsType =
    (if len \<le> ucast (headerSize wsType) then Some (- InvalidWsFrameHeaderBody, wsType)
     else do {
       n \<leftarrow> (if N0 wsType < 126 then Some (of_int (N0 wsType))
            else if N0 wsType = 126 then read_u16 buffer
            else if N0 wsType = 127 then read_u64 buffer
            else Some (N wsType));
       key \<leftarrow> (if maskBit wsType then do {
                b0 \<leftarrow> byte_at buffer 0; b1 \<leftarrow> byte_at buffer 1;
                b2 \<leftarrow> byte_at buffer 2; b3 \<leftarrow> byte_at buffer 3;
                Some [b0, b1, b2, b3] }
              else Some [0, 0, 0, 0]);
       Some (Success, wsType\<lparr>N := n, masKingKey := key\<rparr>) })"

text \<open>
  \<open>closeCode\<close> is \<open>ntohs\<close> of the two bytes: the first is the high one. Two results are
  changed in place: the buffer (unmasking) and the frame description.
\<close>

definition decodeFrameBodyWebSocketFrame ::
  "byte list \<Rightarrow> u64 \<Rightarrow> WebSocketHeaderType \<Rightarrow> WebSocketFrame \<Rightarrow>
    (int \<times> byte list \<times> WebSocketFrame) option" where
  "decodeFrameBodyWebSocketFrame buffer len wsType receivedData =
    (let hs = unat (headerSize wsType);
         op = opCode wsType
     in if op = PONG then Some (Success, buffer, receivedData)
        else if len < N wsType + ucast (headerSize wsType) then
          Some (- InvalidWsFrameBody, buffer, receivedData)
        else if op = TEXT_FRAME \<or> op = BINARY_FRAME \<or> op = CONTINUATION then do {
          buffer \<leftarrow> (if maskBit wsType
                    then xor_loop buffer hs (masKingKey wsType) 0 (unat (N wsType))
                    else Some buffer);
          let fr = (if data receivedData = None then receivedData\<lparr>frame_type := op\<rparr> else receivedData);
          Some (Success, buffer, fr\<lparr>data := Some hs, data_length := N wsType\<rparr>) }
        else if op = PING then Some (- InvalidWsFrameBody, buffer, receivedData)
        else if op = CLOSE then do {
          b2 \<leftarrow> byte_at buffer 2;
          b3 \<leftarrow> byte_at buffer 3;
          let recode = int (unat b2) * 256 + int (unat b3);
          let fr = (if data receivedData = None
                    then receivedData\<lparr>frame_type := op, closeCode := recode\<rparr> else receivedData);
          Some (Success, buffer, fr\<lparr>data := Some (hs + 2), data_length := N wsType\<rparr>) }
        else Some (Success, buffer, receivedData))"

text \<open>The cases of \<open>switch (_rStatus)\<close> fall through: each ends by entering the next.\<close>

type_synonym receive_result =
  "int \<times> WebSocketTcp \<times> byte list \<times> WebSocketHeaderType \<times> WebSocketFrame"

definition receive_WsContentBody ::
  "WebSocketTcp \<Rightarrow> byte list \<Rightarrow> u64 \<Rightarrow> WebSocketHeaderType \<Rightarrow> WebSocketFrame \<Rightarrow>
    receive_result option" where
  "receive_WsContentBody ws frame frameSize wsType resultDate = do {
     (retCode, frame, resultDate) \<leftarrow>
       decodeFrameBodyWebSocketFrame frame frameSize wsType resultDate;
     if retCode < 0 then Some (retCode, ws, frame, wsType, resultDate)
     else Some (Success, ws\<lparr>rStatus := WsHeadSize\<rparr>, frame, wsType, resultDate) }"

definition receive_WsHeadBody ::
  "WebSocketTcp \<Rightarrow> byte list \<Rightarrow> u64 \<Rightarrow> WebSocketHeaderType \<Rightarrow> WebSocketFrame \<Rightarrow>
    receive_result option" where
  "receive_WsHeadBody ws frame frameSize wsType resultDate = do {
     (retCode, wsType) \<leftarrow> decodeHeaderBodyWebSocketFrame frame frameSize wsType;
     if retCode < 0 \<and> opCode wsType \<noteq> PONG then Some (retCode, ws, frame, wsType, resultDate)
     else receive_WsContentBody (ws\<lparr>rStatus := WsContentBody\<rparr>) frame frameSize wsType resultDate }"

definition receive_WsHeadSize ::
  "WebSocketTcp \<Rightarrow> byte list \<Rightarrow> u64 \<Rightarrow> WebSocketHeaderType \<Rightarrow> WebSocketFrame \<Rightarrow>
    receive_result option" where
  "receive_WsHeadSize ws frame frameSize wsType resultDate = do {
     (retCode, wsType) \<leftarrow> decodeHeaderSizeWebSocketFrame frame frameSize wsType;
     if retCode < 0 then Some (retCode, ws, frame, wsType, resultDate)
     else receive_WsHeadBody (ws\<lparr>rStatus := WsHeadBody\<rparr>) frame frameSize wsType resultDate }"

definition receiveFullWebSocketFrame ::
  "WebSocketTcp \<Rightarrow> byte list \<Rightarrow> u64 \<Rightarrow> WebSocketHeaderType \<Rightarrow> WebSocketFrame \<Rightarrow>
    receive_result option" where
  "receiveFullWebSocketFrame ws frame frameSize wsType resultDate =
    (case rStatus ws of
       WsHeadSize \<Rightarrow> receive_WsHeadSize ws frame frameSize wsType resultDate
     | WsHeadBody \<Rightarrow> receive_WsHeadBody ws frame frameSize wsType resultDate
     | WsContentBody \<Rightarrow> receive_WsContentBody ws frame frameSize wsType resultDate
     | WsWsFailed \<Rightarrow> Some (Success, ws, frame, wsType, resultDate))"

lemmas receive_defs = receiveFullWebSocketFrame_def receive_WsHeadSize_def
  receive_WsHeadBody_def receive_WsContentBody_def

subsection \<open>The decoders depend on the received bytes only\<close>

lemma byte_at_cong:
  "take n b' = take n b \<Longrightarrow> n \<le> length b \<Longrightarrow> n \<le> length b' \<Longrightarrow> i < n \<Longrightarrow>
    byte_at b' i = byte_at b i"
  by (metis nth_take order_less_le_trans)

text \<open>A header description that \<open>decodeHeaderSizeWebSocketFrame\<close> has filled.\<close>

definition header_ok :: "WebSocketHeaderType \<Rightarrow> bool" where
  "header_ok h \<longleftrightarrow> 0 \<le> N0 h \<and> N0 h \<le> 127 \<and>
    headerSize h = 2 + (if N0 h = 126 then 2 else 0) + (if N0 h = 127 then 8 else 0) +
      (if maskBit h then 4 else 0)"

lemma unat_ucast_u32: "unat (ucast (x :: u32) :: u64) = unat x"
  using unat_word_less [of x] by (simp add: unsigned_ucast_eq take_bit_nat_eq_self_iff)

lemma unat_headerSize:
  "header_ok h \<Longrightarrow> unat (headerSize h) =
    2 + (if N0 h = 126 then 2 else 0) + (if N0 h = 127 then 8 else 0) + (if maskBit h then 4 else 0)"
  by (auto simp: header_ok_def)

lemma header_ok_upd [simp]: "header_ok (h\<lparr>N := n, masKingKey := k\<rparr>) = header_ok h"
  by (simp add: header_ok_def)

lemma unat_and_7f: "unat (b AND 0x7f :: byte) \<le> 127"
proof -
  have "b AND 0x7f \<le> 0x7f" by (rule word_and_le1)
  then show ?thesis by (simp add: word_le_nat_alt)
qed

lemma decodeHeaderSize_ok:
  assumes "decodeHeaderSizeWebSocketFrame buf len h = Some (ret, h')" "\<not> len < 2"
  shows "ret = Success \<and> header_ok h'"
proof -
  have "int (unat (b AND 0x7f)) \<le> 127" for b :: byte using unat_and_7f [of b] by linarith
  with assms show ?thesis
    by (auto simp: decodeHeaderSizeWebSocketFrame_def header_ok_def Let_def split: if_splits)
qed

lemma decodeHeaderSize_cong:
  assumes "take (unat len) b' = take (unat len) b" "unat len \<le> length b" "unat len \<le> length b'"
    "\<not> len < 2" "len \<le> len'"
  shows "decodeHeaderSizeWebSocketFrame b' len' h = decodeHeaderSizeWebSocketFrame b len h"
proof -
  have "2 \<le> unat len" using assms(4) by (simp add: word_less_nat_alt)
  then have "byte_at b' i = byte_at b i" if "i < 2" for i
    using byte_at_cong [OF assms(1-3)] that by simp
  from this [of 0] this [of 1] show ?thesis
    using assms(4,5) by (auto simp: decodeHeaderSizeWebSocketFrame_def)
qed

lemma decodeHeaderBody_cong:
  assumes "take (unat len) b' = take (unat len) b" "unat len \<le> length b" "unat len \<le> length b'"
    "ucast (headerSize h) < len" "len \<le> len'" "header_ok h"
  shows "decodeHeaderBodyWebSocketFrame b' len' h = decodeHeaderBodyWebSocketFrame b len h"
proof -
  have lt: "unat (headerSize h) < unat len"
    using assms(4) by (simp add: word_less_nat_alt unat_ucast_u32)
  then have eq: "byte_at b' i = byte_at b i" if "i < unat (headerSize h)" for i
    using byte_at_cong [OF assms(1-3)] that by simp
  have "read_u16 b' = read_u16 b" if "N0 h = 126"
    using eq [of 2] eq [of 3] that unat_headerSize [OF assms(6)] by (simp add: read_u16_def)
  moreover have "read_u64 b' = read_u64 b" if "N0 h = 127"
    using eq [of 2] eq [of 3] eq [of 4] eq [of 5] eq [of 6] eq [of 7] eq [of 8] eq [of 9] that
      unat_headerSize [OF assms(6)] by (simp only: read_u64_def) simp
  moreover have "byte_at b' 0 = byte_at b 0 \<and> byte_at b' 1 = byte_at b 1 \<and>
      byte_at b' 2 = byte_at b 2 \<and> byte_at b' 3 = byte_at b 3" if "maskBit h"
    using eq [of 0] eq [of 1] eq [of 2] eq [of 3] that unat_headerSize [OF assms(6)] by simp
  moreover have "\<not> len \<le> ucast (headerSize h)" "\<not> len' \<le> ucast (headerSize h)"
    using assms(4,5) by auto
  ultimately show ?thesis
    by (simp only: decodeHeaderBodyWebSocketFrame_def if_False cong: if_cong)
qed

lemma decodeFrameBody_negative:
  assumes "decodeFrameBodyWebSocketFrame buf len h fr = Some (ret, buf1, fr1)" "ret < 0"
  shows "buf1 = buf \<and> fr1 = fr"
  using assms
  by (auto simp: decodeFrameBodyWebSocketFrame_def Let_def split: if_splits bind_splits)

text \<open>C27: the receiver can be resumed. If a call on the bytes received so far reports that data
is missing, it has touched neither the buffer nor the frame description, and calling it again
from the state it left, once more bytes have arrived, gives the same result as one call on all
of them from the state before: nothing is lost and nothing is decoded twice, whatever the bytes
are and wherever the first call stopped.\<close>

theorem receive_resume:
  assumes first: "receiveFullWebSocketFrame ws b len h fr = Some (ret, ws1, b1, h1, fr1)"
    and ret: "ret < 0" and start: "rStatus ws = WsHeadSize"
    and more: "len \<le> len'" "take (unat len) b' = take (unat len) b"
    and sizes: "unat len \<le> length b" "unat len \<le> length b'"
  shows "b1 = b \<and> fr1 = fr \<and>
    receiveFullWebSocketFrame ws1 b' len' h1 fr = receiveFullWebSocketFrame ws b' len' h fr"
proof (cases "len < 2")
  case True
  with first start show ?thesis
    by (simp add: receive_defs decodeHeaderSizeWebSocketFrame_def split: if_splits)
next
  case False
  from first start obtain r hA where
    A: "decodeHeaderSizeWebSocketFrame b len h = Some (r, hA)"
    by (auto simp: receive_defs split: bind_splits)
  from decodeHeaderSize_ok [OF A False] have r: "r = Success" and ok: "header_ok hA" by auto
  have A': "decodeHeaderSizeWebSocketFrame b' len' h = Some (Success, hA)"
    using A r decodeHeaderSize_cong [OF more(2) sizes False more(1)] by simp
  from first start A r have B:
    "receive_WsHeadBody (ws\<lparr>rStatus := WsHeadBody\<rparr>) b len hA fr = Some (ret, ws1, b1, h1, fr1)"
    by (simp add: receiveFullWebSocketFrame_def receive_WsHeadSize_def)
  have direct: "receiveFullWebSocketFrame ws b' len' h fr =
      receive_WsHeadBody (ws\<lparr>rStatus := WsHeadBody\<rparr>) b' len' hA fr"
    using start A' by (simp add: receiveFullWebSocketFrame_def receive_WsHeadSize_def)
  show ?thesis
  proof (cases "ucast (headerSize hA) < len")
    case short: False
    then have H: "decodeHeaderBodyWebSocketFrame b len hA = Some (- InvalidWsFrameHeaderBody, hA)"
      unfolding decodeHeaderBodyWebSocketFrame_def by (simp only: not_less if_True)
    show ?thesis
    proof (cases "opCode hA = PONG")
      case True
      with B H have False using ret
        by (simp add: receive_WsHeadBody_def receive_WsContentBody_def decodeFrameBodyWebSocketFrame_def)
      then show ?thesis ..
    next
      case False
      with B H show ?thesis unfolding direct
        by (auto simp: receive_WsHeadBody_def receiveFullWebSocketFrame_def)
    qed
  next
    case long: True
    with B obtain hB where
      H: "decodeHeaderBodyWebSocketFrame b len hA = Some (Success, hB)"
      by (auto simp: receive_WsHeadBody_def decodeHeaderBodyWebSocketFrame_def Let_def
        split: bind_splits if_splits)
    then have H': "decodeHeaderBodyWebSocketFrame b' len' hA = Some (Success, hB)"
      using decodeHeaderBody_cong [OF more(2) sizes long more(1) ok] by simp
    from B H have C: "receive_WsContentBody (ws\<lparr>rStatus := WsContentBody\<rparr>) b len hB fr =
        Some (ret, ws1, b1, h1, fr1)"
      by (simp add: receive_WsHeadBody_def)
    then have "b1 = b \<and> fr1 = fr \<and> h1 = hB \<and> ws1 = ws\<lparr>rStatus := WsContentBody\<rparr>"
      using ret decodeFrameBody_negative [of b len hB fr ret]
      by (auto simp: receive_WsContentBody_def split: bind_splits if_splits)
    then show ?thesis unfolding direct
      using H' by (simp add: receive_WsHeadBody_def receiveFullWebSocketFrame_def)
  qed
qed

theorem receive_resume_witness:
  "receiveFullWebSocketFrame (WebSocketTcp_init\<lparr>rStatus := WsContentBody\<rparr>) [0x81, 2, 0x68, 0x69] 4
     (header_init\<lparr>headerSize := 2, fin := True, opCode := 1, N0 := 2, N := 2\<rparr>) empty_frame =
   receiveFullWebSocketFrame WebSocketTcp_init [0x81, 2, 0x68, 0x69] 4 header_init empty_frame"
proof -
  have "receiveFullWebSocketFrame WebSocketTcp_init [0x81, 2, 0x68] 3 header_init empty_frame =
      Some (- InvalidWsFrameBody, WebSocketTcp_init\<lparr>rStatus := WsContentBody\<rparr>, [0x81, 2, 0x68],
        header_init\<lparr>headerSize := 2, fin := True, opCode := 1, N0 := 2, N := 2\<rparr>, empty_frame)"
    by code_simp
  from receive_resume [OF this, of 4 "[0x81, 2, 0x68, 0x69]"] show ?thesis
    by (simp add: WebSocketTcp_init_def)
qed

subsection \<open>Frames from the server\<close>

text \<open>Reading a big-endian length by shifts and ORs computes its value.\<close>

lemma push_or_byte:
  "push_bit 8 a OR ucast (b :: byte) = push_bit 8 a + (ucast b :: u64)"
  by (rule disjunctive_add_eq_or [symmetric]) (auto simp: bit_eq_iff bit_simps dest: bit_imp_le_length)

lemma foldl_push_or:
  "foldl (\<lambda>a b. push_bit 8 a OR ucast b) (a :: u64) (bs :: byte list) =
    a * 256 ^ length bs + of_nat (be_value bs)"
proof (induction bs arbitrary: a)
  case (Cons b bs)
  have "(ucast b :: u64) = of_nat (unat b)" by simp
  moreover have "foldl (\<lambda>a b. push_bit 8 a OR ucast b) a (b # bs) =
      (push_bit 8 a + ucast b) * 256 ^ length bs + of_nat (be_value bs)"
    by (simp only: foldl_Cons Cons.IH push_or_byte [symmetric])
  ultimately show ?case by (simp add: push_bit_eq_mult algebra_simps)
qed simp

lemma read_u16_Cons:
  "read_u16 (x0 # x1 # b2 # b3 # rest) = Some (of_nat (be_value [b2, b3]))"
  using foldl_push_or [of 0 "[b2, b3]"] by (simp add: read_u16_def del: be_value.simps)

lemma read_u64_Cons:
  "read_u64 (x0 # x1 # b2 # b3 # b4 # b5 # b6 # b7 # b8 # b9 # rest) =
    Some (of_nat (be_value [b2, b3, b4, b5, b6, b7, b8, b9]))"
  using foldl_push_or [of 0 "[b2, b3, b4, b5, b6, b7, b8, b9]"]
  by (simp add: read_u64_def push_bit_or push_bit_push_bit ac_simps del: be_value.simps)

text \<open>The description of an unmasked, final frame.\<close>

definition server_header :: "byte \<Rightarrow> nat \<Rightarrow> WebSocketHeaderType" where
  "server_header op n =
    \<lparr>headerSize = (if n < 126 then 2 else if n < 65536 then 4 else 10), fin = True,
     maskBit = False, opCode = op,
     N0 = (if n < 126 then int n else if n < 65536 then 126 else 127),
     N = of_nat n, masKingKey = [0, 0, 0, 0]\<rparr>"

lemma and_80_bit: "(b AND 0x80 = (0x80 :: byte)) = bit b 7"
proof -
  have "list_all (\<lambda>n. (of_nat n AND 0x80 = (0x80 :: byte)) = bit (of_nat n :: byte) 7) [0..<256]"
    by code_simp
  then show ?thesis by (rule byte_nat_cases)
qed

lemma length_rfc_length:
  "length (rfc_length n) = (if n < 126 then 1 else if n < 65536 then 3 else 9)"
  by (simp add: rfc_length_def)

lemma server_header_size:
  assumes "op < 16"
  shows "\<not> len < 2 \<Longrightarrow> decodeHeaderSizeWebSocketFrame (rfc_encode op payload @ rest) len h =
    Some (Success, h\<lparr>fin := True, opCode := op, maskBit := False,
      N0 := N0 (server_header op (length payload)),
      headerSize := headerSize (server_header op (length payload))\<rparr>)"
  using first_byte [OF assms] second_byte [of "length payload"] second_byte [of 126]
    second_byte [of 127] second_byte_uint [of "length payload"]
  by (simp add: decodeHeaderSizeWebSocketFrame_def rfc_encode_def rfc_length_def
      server_header_def and_80_bit Let_def)

lemma server_header_body:
  assumes "length payload < 2 ^ 63" "ucast (headerSize (server_header op (length payload))) < len"
  shows "decodeHeaderBodyWebSocketFrame (rfc_encode op payload @ rest) len
      (h\<lparr>fin := True, opCode := op, maskBit := False,
         N0 := N0 (server_header op (length payload)),
         headerSize := headerSize (server_header op (length payload))\<rparr>) =
    Some (Success, server_header op (length payload))"
proof -
  let ?n = "length payload"
  have le: "\<not> len \<le> ucast (headerSize (server_header op ?n))" using assms(2) by simp
  have b2: "of_nat (be_value (be_bytes 2 ?n)) = (of_nat ?n :: u64)" if "?n < 65536"
    using that by (simp only: be_value_be_bytes) simp
  have b8: "of_nat (be_value (be_bytes 8 ?n)) = (of_nat ?n :: u64)"
    using assms(1) by (simp only: be_value_be_bytes) simp
  consider "?n < 126" | "126 \<le> ?n" "?n < 65536" | "65536 \<le> ?n" by linarith
  then show ?thesis
  proof cases
    case 1
    with le show ?thesis
      by (simp add: decodeHeaderBodyWebSocketFrame_def server_header_def)
  next
    case 2
    then have "read_u16 (rfc_encode op payload @ rest) = Some (of_nat ?n)"
      using b2 by (simp add: rfc_encode_def rfc_length_def read_u16_Cons del: be_value.simps)
    with 2 le show ?thesis
      by (simp add: decodeHeaderBodyWebSocketFrame_def server_header_def)
  next
    case 3
    then have "read_u64 (rfc_encode op payload @ rest) = Some (of_nat ?n)"
      using b8 by (simp add: rfc_encode_def rfc_length_def read_u64_Cons del: be_value.simps)
    with 3 le show ?thesis
      by (simp add: decodeHeaderBodyWebSocketFrame_def server_header_def)
  qed
qed

definition server_frame :: "byte \<Rightarrow> byte list \<Rightarrow> WebSocketFrame" where
  "server_frame op payload =
    \<lparr>frame_type = op, data = Some (unat (headerSize (server_header op (length payload)))),
     data_length = of_nat (length payload), closeCode = 0\<rparr>"

lemma unat_server_headerSize:
  "unat (headerSize (server_header op n)) = (if n < 126 then 2 else if n < 65536 then 4 else 10)"
  by (simp add: server_header_def)

lemma length_rfc_encode:
  "length (rfc_encode op payload) =
    unat (headerSize (server_header op (length payload))) + length payload"
  by (simp add: rfc_encode_def length_rfc_length unat_server_headerSize)

lemma unat_frame_total:
  assumes "n < 2 ^ 63"
  shows "unat (N (server_header op n) + ucast (headerSize (server_header op n)) :: u64) =
    n + unat (headerSize (server_header op n))"
  using assms
  by (subst unat_plus_if_size)
    (simp add: unat_ucast_u32 unat_server_headerSize server_header_def unat_of_nat
      take_bit_eq_mod word_size)

lemma server_receive:
  assumes op: "op \<in> {CONTINUATION, TEXT_FRAME, BINARY_FRAME}" and n: "length payload < 2 ^ 63"
    and ws: "rStatus ws = WsHeadSize"
    and stream: "stream = rfc_encode op payload @ rest"
    and hs: "hs = unat (headerSize (server_header op (length payload)))"
  shows "unat len \<le> hs \<or> unat len < hs + length payload \<Longrightarrow>
      \<exists>ret ws1 h1. ret < 0 \<and>
        receiveFullWebSocketFrame ws stream len h empty_frame = Some (ret, ws1, stream, h1, empty_frame)"
    and "hs < unat len \<Longrightarrow> hs + length payload \<le> unat len \<Longrightarrow>
      receiveFullWebSocketFrame ws stream len h empty_frame =
        Some (Success, ws, stream, server_header op (length payload), server_frame op payload)"
proof -
  let ?sh = "server_header op (length payload)"
  have op16: "op < 16" and nPONG: "op \<noteq> PONG" using op by auto
  note size = server_header_size [OF op16, of len payload rest h]
  have lt: "ucast (headerSize ?sh) < len \<longleftrightarrow> hs < unat len"
    using hs by (simp add: word_less_nat_alt unat_ucast_u32)
  have "len < N ?sh + ucast (headerSize ?sh) \<longleftrightarrow> unat len < hs + length payload"
    using unat_frame_total [OF n, of op] hs by (simp add: word_less_nat_alt add.commute)
  then have content: "receive_WsContentBody (ws\<lparr>rStatus := WsContentBody\<rparr>) stream len ?sh empty_frame =
      (if unat len < hs + length payload
       then Some (- InvalidWsFrameBody, ws\<lparr>rStatus := WsContentBody\<rparr>, stream, ?sh, empty_frame)
       else Some (Success, ws, stream, ?sh, server_frame op payload))"
    using op ws hs
    by (auto simp: receive_WsContentBody_def decodeFrameBodyWebSocketFrame_def server_frame_def
        empty_frame_def server_header_def Let_def)
  have short: "len < 2 \<Longrightarrow> receiveFullWebSocketFrame ws stream len h empty_frame =
      Some (- InvalidWsFrameHeaderSize, ws, stream, h, empty_frame)"
    using ws by (simp add: receiveFullWebSocketFrame_def receive_WsHeadSize_def
        decodeHeaderSizeWebSocketFrame_def)
  have middle: "\<not> len < 2 \<Longrightarrow> \<not> hs < unat len \<Longrightarrow>
      \<exists>ws1 h1. receiveFullWebSocketFrame ws stream len h empty_frame =
        Some (- InvalidWsFrameHeaderBody, ws1, stream, h1, empty_frame)"
    using ws size nPONG lt
    by (simp add: receiveFullWebSocketFrame_def receive_WsHeadSize_def receive_WsHeadBody_def
        decodeHeaderBodyWebSocketFrame_def stream not_less)
  have long: "\<not> len < 2 \<Longrightarrow> hs < unat len \<Longrightarrow>
      receiveFullWebSocketFrame ws stream len h empty_frame =
      receive_WsContentBody (ws\<lparr>rStatus := WsContentBody\<rparr>) stream len ?sh empty_frame"
    using ws size lt server_header_body [OF n, of op len rest h]
    by (simp add: receiveFullWebSocketFrame_def receive_WsHeadSize_def receive_WsHeadBody_def stream)
  have two: "hs < unat len \<Longrightarrow> \<not> len < 2"
    using hs by (auto simp: unat_server_headerSize word_less_nat_alt split: if_splits)
  show "\<exists>ret ws1 h1. ret < 0 \<and>
        receiveFullWebSocketFrame ws stream len h empty_frame = Some (ret, ws1, stream, h1, empty_frame)"
    if "unat len \<le> hs \<or> unat len < hs + length payload"
  proof (cases "len < 2")
    case True
    then show ?thesis using short by auto
  next
    case False
    then show ?thesis using middle long content that by (cases "hs < unat len") fastforce+
  qed
  show "receiveFullWebSocketFrame ws stream len h empty_frame =
        Some (Success, ws, stream, ?sh, server_frame op payload)"
    if "hs < unat len" "hs + length payload \<le> unat len"
    using that two long content by simp
qed

text \<open>
  \<open>feed\<close> is what the connection does while a frame arrives: after each arrival it calls the
  receiver on a copy of all the bytes buffered so far, with a cleared frame description.
\<close>

fun feed :: "WebSocketTcp \<Rightarrow> byte list \<Rightarrow> nat list \<Rightarrow> WebSocketHeaderType \<Rightarrow> receive_result option" where
  "feed ws stream [] h = None"
| "feed ws stream [l] h = receiveFullWebSocketFrame ws (take l stream) (of_nat l) h empty_frame"
| "feed ws stream (l # k # ls) h = do {
     (ret, ws, b, h, fr) \<leftarrow> receiveFullWebSocketFrame ws (take l stream) (of_nat l) h empty_frame;
     if ret < 0 then feed ws stream (k # ls) h else Some (ret, ws, b, h, fr) }"

lemma receive_prefix:
  assumes "l \<le> length stream" "length stream < 2 ^ 64" "rStatus ws = WsHeadSize"
    "receiveFullWebSocketFrame ws (take l stream) (of_nat l) h fr = Some (ret, ws1, b1, h1, fr1)"
    "ret < 0" "l \<le> m" "m \<le> length stream"
  shows "receiveFullWebSocketFrame ws1 (take m stream) (of_nat m) h1 fr =
    receiveFullWebSocketFrame ws (take m stream) (of_nat m) h fr"
proof -
  have u: "unat (of_nat l :: u64) = l" "unat (of_nat m :: u64) = m"
    using assms(1,2,7) by (simp_all add: unat_of_nat take_bit_eq_mod)
  then show ?thesis
    using receive_resume [OF assms(4,5,3), of "of_nat m" "take m stream"] assms(1,6,7)
    by (simp add: word_le_nat_alt min_def)
qed

lemma feed_eq:
  assumes "length stream < 2 ^ 64" "rStatus ws = WsHeadSize"
    "\<And>m. lo \<le> m \<Longrightarrow> m \<le> length stream \<Longrightarrow>
       receiveFullWebSocketFrame ws1 (take m stream) (of_nat m) h1 empty_frame =
       receiveFullWebSocketFrame ws (take m stream) (of_nat m) h empty_frame"
    "sorted (lo # ls @ [n])" "n \<le> length stream"
    "\<forall>l\<in>set ls. \<exists>ret ws' b' h'. ret < 0 \<and>
       receiveFullWebSocketFrame ws (take l stream) (of_nat l) h empty_frame =
         Some (ret, ws', b', h', empty_frame)"
  shows "feed ws1 stream (ls @ [n]) h1 =
    receiveFullWebSocketFrame ws (take n stream) (of_nat n) h empty_frame"
  using assms(3,4,6)
proof (induction ls arbitrary: lo ws1 h1)
  case Nil
  then show ?case using assms(5) by simp
next
  case (Cons l ls)
  have le: "lo \<le> l" "l \<le> length stream" using Cons.prems(2) assms(5) by auto
  from Cons.prems(3) obtain ret ws' b' h' where r: "ret < 0"
    "receiveFullWebSocketFrame ws (take l stream) (of_nat l) h empty_frame =
       Some (ret, ws', b', h', empty_frame)" by auto
  have "feed ws' stream (ls @ [n]) h' =
      receiveFullWebSocketFrame ws (take n stream) (of_nat n) h empty_frame"
  proof (rule Cons.IH)
    show "sorted (l # ls @ [n])" using Cons.prems(2) by simp
    show "receiveFullWebSocketFrame ws' (take m stream) (of_nat m) h' empty_frame =
        receiveFullWebSocketFrame ws (take m stream) (of_nat m) h empty_frame"
      if "l \<le> m" "m \<le> length stream" for m
      by (rule receive_prefix [OF le(2) assms(1,2) r(2,1) that])
  qed (use Cons.prems(3) in simp)
  moreover have "feed ws1 stream ((l # ls) @ [n]) h1 = feed ws' stream (ls @ [n]) h'"
    using Cons.prems(1) [OF le] r by (cases "ls @ [n]") auto
  ultimately show ?case by simp
qed

lemma decodeFrameBody_negative_cong:
  assumes "decodeFrameBodyWebSocketFrame b len h fr = Some (ret, b1, fr1)" "ret < 0"
  shows "decodeFrameBodyWebSocketFrame b' len h fr = Some (ret, b', fr)"
  using assms
  by (auto simp: decodeFrameBodyWebSocketFrame_def Let_def split: if_splits bind_splits)

lemma receive_content_negative_cong:
  assumes "receive_WsContentBody ws b len h fr = Some (ret, ws1, b1, h1, fr1)" "ret < 0"
  shows "receive_WsContentBody ws b' len h fr = Some (ret, ws1, b', h1, fr)"
proof -
  from assms obtain b2 fr2 where "decodeFrameBodyWebSocketFrame b len h fr = Some (ret, b2, fr2)"
    and eq: "ws1 = ws" "h1 = h"
    by (auto simp: receive_WsContentBody_def split: bind_splits if_splits)
  then have "decodeFrameBodyWebSocketFrame b' len h fr = Some (ret, b', fr)"
    using decodeFrameBody_negative_cong assms(2) by blast
  then show ?thesis using assms(2) eq by (simp add: receive_WsContentBody_def)
qed

lemma receive_negative_cong:
  assumes "receiveFullWebSocketFrame ws b len h fr = Some (ret, ws1, b1, h1, fr1)"
    "ret < 0" "rStatus ws = WsHeadSize"
    "take (unat len) b' = take (unat len) b" "unat len \<le> length b" "unat len \<le> length b'"
  shows "receiveFullWebSocketFrame ws b' len h fr = Some (ret, ws1, b', h1, fr)"
proof (cases "len < 2")
  case True
  with assms(1-3) show ?thesis
    by (auto simp: receive_defs decodeHeaderSizeWebSocketFrame_def split: if_splits)
next
  case False
  from assms(1,3) obtain r hA where
    A: "decodeHeaderSizeWebSocketFrame b len h = Some (r, hA)"
    by (auto simp: receive_defs split: bind_splits)
  from decodeHeaderSize_ok [OF A False] have r: "r = Success" and ok: "header_ok hA" by auto
  have A': "decodeHeaderSizeWebSocketFrame b' len h = Some (Success, hA)"
    using A r decodeHeaderSize_cong [OF assms(4-6) False order_refl] by simp
  have body: "decodeHeaderBodyWebSocketFrame b' len hA = decodeHeaderBodyWebSocketFrame b len hA"
  proof (cases "ucast (headerSize hA) < len")
    case True
    then show ?thesis by (rule decodeHeaderBody_cong [OF assms(4-6) _ order_refl ok])
  next
    case False
    then show ?thesis unfolding decodeHeaderBodyWebSocketFrame_def by (simp only: not_less if_True)
  qed
  from assms(1,3) A r have
    "receive_WsHeadBody (ws\<lparr>rStatus := WsHeadBody\<rparr>) b len hA fr = Some (ret, ws1, b1, h1, fr1)"
    by (simp add: receiveFullWebSocketFrame_def receive_WsHeadSize_def)
  then have "receive_WsHeadBody (ws\<lparr>rStatus := WsHeadBody\<rparr>) b' len hA fr = Some (ret, ws1, b', h1, fr)"
    using assms(2) receive_content_negative_cong [where b = b and b' = b' and len = len and fr = fr]
    by (auto simp: receive_WsHeadBody_def body split: bind_splits if_splits)
  with assms(3) A' show ?thesis
    by (simp add: receiveFullWebSocketFrame_def receive_WsHeadSize_def)
qed

lemma server_feed:
  assumes op: "op \<in> {CONTINUATION, TEXT_FRAME, BINARY_FRAME}"
    and n: "payload \<noteq> []" "length payload < 2 ^ 63"
    and ws: "rStatus ws = WsHeadSize"
    and stream: "stream = rfc_encode op payload @ rest" "length stream < 2 ^ 64"
    and partial: "\<forall>l\<in>set ls. l < length (rfc_encode op payload)"
    and arrival: "sorted (ls @ [m])" "length (rfc_encode op payload) \<le> m" "m \<le> length stream"
  shows "feed ws stream (ls @ [m]) h = Some (Success, ws, take m stream,
    server_header op (length payload), server_frame op payload)"
proof -
  let ?hs = "unat (headerSize (server_header op (length payload)))"
  let ?t = "length (rfc_encode op payload)"
  have u: "unat (of_nat l :: u64) = l" if "l \<le> length stream" for l
    using that stream(2) by (simp add: unat_of_nat take_bit_eq_mod)
  have t: "?t = ?hs + length payload" by (rule length_rfc_encode)
  have neg: "\<exists>ret ws' b' h'. ret < 0 \<and>
      receiveFullWebSocketFrame ws (take l stream) (of_nat l) h empty_frame =
        Some (ret, ws', b', h', empty_frame)" if "l < ?t" for l
  proof -
    have l: "l \<le> length stream" using that stream(1) by simp
    from server_receive(1) [OF op n(2) ws stream(1) refl, of "of_nat l" h] that t u [OF l]
    obtain ret ws1 h1 where "ret < 0"
      "receiveFullWebSocketFrame ws stream (of_nat l) h empty_frame =
        Some (ret, ws1, stream, h1, empty_frame)" by auto
    then show ?thesis
      using receive_negative_cong [OF _ _ ws, of stream "of_nat l" h empty_frame ret ws1 stream h1
          empty_frame "take l stream"] u [OF l] l by auto
  qed
  have mt: "take m stream = rfc_encode op payload @ take (m - ?t) rest"
    using arrival(2) stream(1) by simp
  have "feed ws stream (ls @ [m]) h =
      receiveFullWebSocketFrame ws (take m stream) (of_nat m) h empty_frame"
    by (rule feed_eq [OF stream(2) ws, where lo = 0]) (use arrival partial neg in auto)
  also have "\<dots> = Some (Success, ws, take m stream, server_header op (length payload),
      server_frame op payload)"
  proof (rule server_receive(2) [OF op n(2) ws mt refl])
    have "0 < length payload" using n(1) by simp
    then show "?hs < unat (of_nat m :: u64)" using u [OF arrival(3)] t arrival(2) by linarith
    show "?hs + length payload \<le> unat (of_nat m :: u64)"
      using u [OF arrival(3)] t arrival(2) by linarith
  qed
  finally show ?thesis .
qed

text \<open>C25: incremental reception. However a server's data frame (text, binary or continuation,
with a payload that is not empty) arrives in pieces, the calls on the incomplete frame all
report missing data, and the call at which the frame is complete delivers it: the receiver is
back in its initial state, the frame description points at exactly the payload, and header size
plus payload length is exactly the length of the frame, so that draining that many bytes leaves
what follows it.\<close>

theorem receive_incremental:
  assumes "op \<in> {CONTINUATION, TEXT_FRAME, BINARY_FRAME}" "payload \<noteq> []" "length payload < 2 ^ 63"
    and "rStatus ws = WsHeadSize"
    and "stream = rfc_encode op payload @ rest" "length stream < 2 ^ 64"
    and "\<forall>l\<in>set ls. l < length (rfc_encode op payload)"
    and "sorted (ls @ [m])" "length (rfc_encode op payload) \<le> m" "m \<le> length stream"
  shows "\<exists>h' fr off. feed ws stream (ls @ [m]) h = Some (Success, ws, take m stream, h', fr) \<and>
    frame_type fr = op \<and> data fr = Some off \<and>
    take (unat (data_length fr)) (drop off (take m stream)) = payload \<and>
    drop (unat (data_length fr) + unat (headerSize h')) stream = rest"
proof -
  let ?sh = "server_header op (length payload)" and ?fr = "server_frame op payload"
  let ?off = "unat (headerSize ?sh)"
  have len: "unat (data_length ?fr) = length payload"
    using assms(3) by (simp add: server_frame_def unat_of_nat take_bit_eq_mod)
  have t: "length (rfc_encode op payload) = ?off + length payload" by (rule length_rfc_encode)
  have "drop ?off (rfc_encode op payload) = payload"
    by (simp add: rfc_encode_def rfc_length_def unat_server_headerSize)
  then have "take (length payload) (drop ?off (take m stream)) = payload"
    using assms(5,9) t by (simp add: drop_take)
  moreover have "drop (length payload + ?off) stream = rest"
    using assms(5) t by (simp add: add.commute)
  moreover have "frame_type ?fr = op" "data ?fr = Some ?off" by (simp_all add: server_frame_def)
  ultimately show ?thesis
    using server_feed [OF assms] len by fastforce
qed

theorem receive_incremental_witness:
  "\<exists>h' fr off. feed WebSocketTcp_init [0x82, 2, 0x61, 0x62, 0x8a] [1, 3, 5] header_init =
      Some (Success, WebSocketTcp_init, [0x82, 2, 0x61, 0x62, 0x8a], h', fr) \<and>
    frame_type fr = BINARY_FRAME \<and> data fr = Some off \<and>
    take (unat (data_length fr)) (drop off [0x82 :: byte, 2, 0x61, 0x62, 0x8a]) = [0x61, 0x62] \<and>
    drop (unat (data_length fr) + unat (headerSize h')) [0x82 :: byte, 2, 0x61, 0x62, 0x8a] = [0x8a]"
  using receive_incremental [of BINARY_FRAME "[0x61, 0x62]" WebSocketTcp_init
      "[0x82, 2, 0x61, 0x62, 0x8a]" "[0x8a]" "[1, 3]" 5 header_init]
  by (simp add: rfc_encode_def rfc_length_def WebSocketTcp_init_def)

subsection \<open>Bounds of the delivered data\<close>

lemma xor_loop_length: "xor_loop b off key i n = Some b' \<Longrightarrow> length b' = length b"
  by (induction b off key i n rule: xor_loop.induct) (auto split: if_splits)

lemma content_in_bounds:
  assumes "receive_WsContentBody ws b len h fr = Some (Success, ws', b', h', fr')"
    "opCode h' \<in> {CONTINUATION, TEXT_FRAME, BINARY_FRAME}"
    "unat (N h') + unat (headerSize h') < 2 ^ 64"
  shows "\<exists>off. data fr' = Some off \<and> off + unat (data_length fr') \<le> unat len \<and> length b' = length b"
proof -
  from assms(1) obtain r where h: "h' = h" and r: "\<not> r < 0" and
    body: "decodeFrameBodyWebSocketFrame b len h fr = Some (r, b', fr')"
    by (auto simp: receive_WsContentBody_def split: bind_splits if_splits)
  have "unat (N h + ucast (headerSize h) :: u64) = unat (N h) + unat (headerSize h)"
    using assms(3) h by (subst unat_plus_if_size) (simp add: unat_ucast_u32 word_size)
  then have le: "len < N h + ucast (headerSize h) \<longleftrightarrow>
      unat len < unat (N h) + unat (headerSize h)"
    by (simp only: word_less_nat_alt)
  have op: "opCode h \<noteq> PONG" "opCode h = TEXT_FRAME \<or> opCode h = BINARY_FRAME \<or> opCode h = CONTINUATION"
    using assms(2) h by auto
  from body r obtain b2 where
    "b2 = Some b' \<and> (b2 = Some b \<or> b2 = xor_loop b (unat (headerSize h)) (masKingKey h) 0 (unat (N h)))"
    "data fr' = Some (unat (headerSize h))" "data_length fr' = N h"
    "unat (N h) + unat (headerSize h) \<le> unat len"
    unfolding decodeFrameBodyWebSocketFrame_def Let_def le
    using op by (simp split: bind_splits if_splits) auto
  then show ?thesis by (auto dest: xor_loop_length xor_loop_length [OF sym])
qed



text \<open>A length near \<open>2 ^ 64\<close> is accepted. The sum of announced length and header size wraps
to 0, the check against the number of received bytes passes, and a frame of which one payload
byte has arrived is delivered with a length of \<open>2 ^ 64 - 10\<close>.\<close>

theorem receive_length_wraps:
  assumes "10 < unat len"
  shows "\<exists>h'. receiveFullWebSocketFrame WebSocketTcp_init
      ([0x82, 0x7f, 0xff, 0xff, 0xff, 0xff, 0xff, 0xff, 0xff, 0xf6] @ rest) len header_init empty_frame =
    Some (Success, WebSocketTcp_init,
      [0x82, 0x7f, 0xff, 0xff, 0xff, 0xff, 0xff, 0xff, 0xff, 0xf6] @ rest, h',
      \<lparr>frame_type = BINARY_FRAME, data = Some 10, data_length = 0xfffffffffffffff6, closeCode = 0\<rparr>)"
proof -
  have wrap: "(18446744073709551616 :: u64) = 0" by code_simp
  have "\<not> len < 2" "\<not> len \<le> 10" using assms by (simp_all add: word_less_nat_alt word_le_nat_alt)
  then show ?thesis
    by (simp add: receive_defs WebSocketTcp_init_def decodeHeaderSizeWebSocketFrame_def
        decodeHeaderBodyWebSocketFrame_def decodeFrameBodyWebSocketFrame_def header_init_def
        empty_frame_def read_u64_Cons Let_def wrap)
qed

theorem receive_length_wraps_witness:
  "\<exists>h'. receiveFullWebSocketFrame WebSocketTcp_init
      [0x82, 0x7f, 0xff, 0xff, 0xff, 0xff, 0xff, 0xff, 0xff, 0xf6, 0] 11 header_init empty_frame =
    Some (Success, WebSocketTcp_init,
      [0x82, 0x7f, 0xff, 0xff, 0xff, 0xff, 0xff, 0xff, 0xff, 0xf6, 0], h',
      \<lparr>frame_type = BINARY_FRAME, data = Some 10, data_length = 0xfffffffffffffff6, closeCode = 0\<rparr>)"
  using receive_length_wraps [of 11 "[0]"] by simp

subsection \<open>Control frames\<close>

lemma server_control_content:
  assumes "op < 16" "op \<noteq> PONG" "length payload < 126" "rStatus ws = WsHeadSize" "2 < unat len"
  shows "receiveFullWebSocketFrame ws (rfc_encode op payload @ rest) len h fr =
    receive_WsContentBody (ws\<lparr>rStatus := WsContentBody\<rparr>) (rfc_encode op payload @ rest) len
      (server_header op (length payload)) fr"
proof -
  have "\<not> len < 2" using assms(5) by (simp add: word_less_nat_alt)
  moreover have "ucast (headerSize (server_header op (length payload))) < len"
    using assms(3,5) by (simp add: word_less_nat_alt server_header_def)
  ultimately show ?thesis
    using assms(2,3,4) server_header_size [OF assms(1), of len payload rest h]
      server_header_body [of payload op len rest h]
    by (simp add: receiveFullWebSocketFrame_def receive_WsHeadSize_def receive_WsHeadBody_def)
qed

text \<open>A PING from the server blocks the connection. Its frame, complete or not, is reported
as incomplete and the receiver is left in the content state with the PING's header: from then on
every call, on whatever bytes, reports missing data and changes nothing, so that no later frame
is ever delivered.\<close>

theorem ping_blocks_receiver:
  assumes "rStatus ws = WsHeadSize" "length payload < 126" "2 < unat len"
  shows "\<exists>ws1 h1. receiveFullWebSocketFrame ws (rfc_encode PING payload @ rest) len h fr =
      Some (- InvalidWsFrameBody, ws1, rfc_encode PING payload @ rest, h1, fr) \<and>
    (\<forall>b len' fr'. receiveFullWebSocketFrame ws1 b len' h1 fr' =
      Some (- InvalidWsFrameBody, ws1, b, h1, fr'))"
proof -
  let ?ws1 = "ws\<lparr>rStatus := WsContentBody\<rparr>" and ?h1 = "server_header PING (length payload)"
  have stuck: "receive_WsContentBody ?ws1 b len' ?h1 fr' = Some (- InvalidWsFrameBody, ?ws1, b, ?h1, fr')"
    for b len' fr'
    by (simp add: receive_WsContentBody_def decodeFrameBodyWebSocketFrame_def server_header_def)
  then have "\<forall>b len' fr'. receiveFullWebSocketFrame ?ws1 b len' ?h1 fr' =
      Some (- InvalidWsFrameBody, ?ws1, b, ?h1, fr')"
    by (simp add: receiveFullWebSocketFrame_def)
  moreover have "receiveFullWebSocketFrame ws (rfc_encode PING payload @ rest) len h fr =
      Some (- InvalidWsFrameBody, ?ws1, rfc_encode PING payload @ rest, ?h1, fr)"
    using server_control_content [of PING payload ws len rest h fr] assms stuck by simp
  ultimately show ?thesis by blast
qed

theorem ping_blocks_receiver_witness:
  "\<exists>ws1 h1. receiveFullWebSocketFrame WebSocketTcp_init [0x89, 1, 0x61] 3 header_init empty_frame =
      Some (- InvalidWsFrameBody, ws1, [0x89, 1, 0x61], h1, empty_frame) \<and>
    (\<forall>b len' fr'. receiveFullWebSocketFrame ws1 b len' h1 fr' =
      Some (- InvalidWsFrameBody, ws1, b, h1, fr'))"
  using ping_blocks_receiver [of WebSocketTcp_init "[0x61]" 3 "[]" header_init empty_frame]
  by (simp add: WebSocketTcp_init_def rfc_encode_def rfc_length_def)

text \<open>A CLOSE frame yields its status code, the big-endian number in its first two payload
bytes; but the reason text is delivered from behind those two bytes with the length of the whole
payload, so that its end lies two bytes behind the frame.\<close>

theorem close_frame:
  assumes "rStatus ws = WsHeadSize" "payload = c1 # c0 # reason" "length payload < 126"
    "length payload + 2 \<le> unat len" "data fr = None"
  shows "\<exists>ws1 h1 fr1. receiveFullWebSocketFrame ws (rfc_encode CLOSE payload @ rest) len h fr =
      Some (Success, ws1, rfc_encode CLOSE payload @ rest, h1, fr1) \<and>
    closeCode fr1 = int (be_value [c1, c0]) \<and> data fr1 = Some 4 \<and>
    4 + unat (data_length fr1) = length (rfc_encode CLOSE payload) + 2"
proof -
  have "2 < unat len" using assms(2,4) by simp
  then have recv: "receiveFullWebSocketFrame ws (rfc_encode CLOSE payload @ rest) len h fr =
      receive_WsContentBody (ws\<lparr>rStatus := WsContentBody\<rparr>) (rfc_encode CLOSE payload @ rest) len
        (server_header CLOSE (length payload)) fr"
    using server_control_content [of CLOSE payload ws len rest h fr] assms(1,3) by simp
  have "\<not> len < N (server_header CLOSE (length payload)) + ucast (headerSize (server_header CLOSE (length payload)))"
    using unat_frame_total [of "length payload" CLOSE] assms(3,4)
    by (simp add: word_less_nat_alt unat_server_headerSize)
  moreover have "unat (of_nat (length payload) :: u64) = length payload"
    using assms(3) by (simp add: unat_of_nat take_bit_eq_mod)
  ultimately show ?thesis
    unfolding recv using assms(2,3,5)
    by (simp add: receive_WsContentBody_def decodeFrameBodyWebSocketFrame_def server_header_def
        rfc_encode_def rfc_length_def Let_def)
qed

theorem close_frame_witness:
  "\<exists>ws1 h1 fr1. receiveFullWebSocketFrame WebSocketTcp_init [0x88, 3, 0x03, 0xe8, 0x78] 5 header_init
      empty_frame = Some (Success, ws1, [0x88, 3, 0x03, 0xe8, 0x78], h1, fr1) \<and>
    closeCode fr1 = 1000 \<and> data fr1 = Some 4 \<and> 4 + unat (data_length fr1) = 7"
  using close_frame [of WebSocketTcp_init "[0x03, 0xe8, 0x78]" "0x03" "0xe8" "[0x78]" 5 empty_frame "[]"
      header_init]
  by (simp add: WebSocketTcp_init_def rfc_encode_def rfc_length_def empty_frame_def)

end
