(* ===== verification/WebSocketHttp.thy ===== *)
theory WebSocketHttp
  imports WebSocketTcp
begin

text \<open>
  The textual half of \<open>transport/webSocketTcp.cpp\<close>: parsing of the service URL, the HTTP
  upgrade request and the evaluation of the HTTP response. Texts are HOL strings; a C string
  carries no NUL. The pieces of the C library the code calls (\<open>sscanf\<close> with the five
  directives it uses, \<open>snprintf\<close>, \<open>atoi\<close>, \<open>std::string::find/substr\<close>) are written out;
  a conversion out of the range of \<open>int\<close> and a write behind a character array are undefined.
\<close>

section \<open>Decimal numbers\<close>

definition is_space :: "char \<Rightarrow> bool" where
  "is_space c \<longleftrightarrow> c = CHR '' '' \<or> c = CHR 0x09 \<or> c = CHR 0x0A \<or> c = CHR 0x0B \<or> c = CHR 0x0C \<or> c = CHR 0x0D"

definition digits :: string where "digits = ''0123456789''"

fun digit_value :: "char \<Rightarrow> nat option" where
  "digit_value c = first_index (\<lambda>d. d = c) digits"

fun digits_value :: "nat \<Rightarrow> string \<Rightarrow> nat" where
  "digits_value acc [] = acc"
| "digits_value acc (c # cs) =
     (case digit_value c of None \<Rightarrow> acc | Some d \<Rightarrow> digits_value (10 * acc + d) cs)"

text \<open>\<open>%d\<close> on output.\<close>

function dec :: "nat \<Rightarrow> string" where
  "dec n = (if n < 10 then [digits ! n] else dec (n div 10) @ [digits ! (n mod 10)])"
  by pat_completeness auto
termination by (relation "measure id") auto

declare dec.simps [simp del]

definition print_int :: "int \<Rightarrow> string" where
  "print_int i = (if i < 0 then CHR ''-'' # dec (nat (- i)) else dec (nat i))"

definition is_digit :: "char \<Rightarrow> bool" where
  "is_digit c \<longleftrightarrow> c \<in> set digits"

lemma digit_value_nth: "n < 10 \<Longrightarrow> digit_value (digits ! n) = Some n"
proof -
  assume "n < 10"
  then have "n \<in> {0,1,2,3,4,5,6,7,8,9}" by (simp; presburger)
  then show ?thesis by (elim insertE emptyE) (simp_all add: digits_def)
qed

lemma is_digit_nth: "n < 10 \<Longrightarrow> is_digit (digits ! n)"
proof -
  assume "n < 10"
  moreover have "length digits = 10" by (simp add: digits_def)
  ultimately have "digits ! n \<in> set digits" by (intro nth_mem) simp
  then show ?thesis unfolding is_digit_def .
qed

lemma dec_nonempty [simp]: "dec n \<noteq> []"
  by (subst dec.simps) simp

lemma dec_digits: "list_all is_digit (dec n)"
proof (induction n rule: dec.induct)
  case (1 n)
  then show ?case by (subst dec.simps) (simp add: is_digit_nth)
qed

lemma digits_value_append:
  "list_all is_digit xs \<Longrightarrow> digits_value acc (xs @ ys) = digits_value (digits_value acc xs) ys"
  by (induction xs arbitrary: acc)
    (auto simp: is_digit_def first_index_None_iff split: option.splits)

lemma digits_value_dec: "digits_value 0 (dec n) = n"
proof (induction n rule: dec.induct)
  case (1 n)
  then show ?case
    by (subst dec.simps)
      (simp add: digits_value_append dec_digits digit_value_nth del: digit_value.simps)
qed

section \<open>URLs\<close>

text \<open>The \<open>sscanf\<close> directives of the four formats.\<close>

datatype conv = Lit char | NotIn nat string | Dec | Str nat
datatype arg = AStr string | AInt int

abbreviation INT_MAX :: int where "INT_MAX \<equiv> 2147483647"

text \<open>\<open>%d\<close> and \<open>atoi\<close>: white space, an optional sign, digits; \<open>None\<close> for no digits. The rest
of the text follows.\<close>

definition scan_int :: "string \<Rightarrow> (int \<times> string) option" where
  "scan_int s =
    (let s = dropWhile is_space s;
         neg = (s \<noteq> [] \<and> s ! 0 = CHR ''-'');
         s = (if s \<noteq> [] \<and> (s ! 0 = CHR ''-'' \<or> s ! 0 = CHR ''+'') then tl s else s);
         ds = takeWhile is_digit s;
         v = int (digits_value 0 ds)
     in if ds = [] then None else Some ((if neg then - v else v), drop (length ds) s))"

fun sscanf :: "conv list \<Rightarrow> string \<Rightarrow> arg list option" where
  "sscanf [] s = Some []"
| "sscanf (Lit c # fs) s =
     (case s of [] \<Rightarrow> Some [] | x # xs \<Rightarrow> if x = c then sscanf fs xs else Some [])"
| "sscanf (NotIn n cs # fs) s =
     (let m = take n (takeWhile (\<lambda>c. c \<notin> set cs) s)
      in if m = [] then Some [] else map_option ((#) (AStr m)) (sscanf fs (drop (length m) s)))"
| "sscanf (Dec # fs) s =
     (case scan_int s of
        None \<Rightarrow> Some []
      | Some (v, r) \<Rightarrow>
          if v < - INT_MAX - 1 \<or> INT_MAX < v then None
          else map_option ((#) (AInt v)) (sscanf fs r))"
| "sscanf (Str n # fs) s =
     (let s = dropWhile is_space s; m = take n (takeWhile (\<lambda>c. \<not> is_space c) s)
      in if m = [] then Some [] else map_option ((#) (AStr m)) (sscanf fs (drop (length m) s)))"

datatype NlsServiceProtocol = WsServiceProtocolNls | WsServiceProtocolDashScope

record urlAddress =
  url_host :: string
  url_port :: int
  url_type :: string
  url_path :: string
  url_token :: string
  url_apikey :: string
  url_isSsl :: bool
  url_address :: string
  url_directIp :: bool
  url_enableSysGetAddr :: bool
  url_serviceProtocol :: NlsServiceProtocol

datatype url_field = FType | FHost | FPort | FPath

text \<open>A string of \<open>n\<close> characters needs an array of \<open>n + 1\<close>.\<close>

fun store_arg :: "url_field \<Rightarrow> arg \<Rightarrow> urlAddress \<Rightarrow> urlAddress option" where
  "store_arg FType (AStr s) u = (if length s < TypeSize then Some (u\<lparr>url_type := s\<rparr>) else None)"
| "store_arg FHost (AStr s) u = (if length s < HostSize then Some (u\<lparr>url_host := s\<rparr>) else None)"
| "store_arg FPath (AStr s) u = (if length s < PathSize then Some (u\<lparr>url_path := s\<rparr>) else None)"
| "store_arg FPort (AInt v) u = Some (u\<lparr>url_port := v\<rparr>)"
| "store_arg _ _ u = None"

fun store_args :: "url_field list \<Rightarrow> arg list \<Rightarrow> urlAddress \<Rightarrow> urlAddress option" where
  "store_args (f # fs) (a # as) u = do { u \<leftarrow> store_arg f a u; store_args fs as u }"
| "store_args _ _ u = Some u"

text \<open>One call: the number of conversions that succeeded, and the fields they have written,
also when a later directive fails.\<close>

definition scan_url :: "conv list \<Rightarrow> url_field list \<Rightarrow> string \<Rightarrow> urlAddress \<Rightarrow> (nat \<times> urlAddress) option" where
  "scan_url fmt flds address u = do {
     as \<leftarrow> sscanf fmt address;
     u \<leftarrow> store_args flds as u;
     Some (length as, u) }"

definition fmt_host :: "conv list" where
  "fmt_host = [NotIn 10 '':/'', Lit CHR '':'', Lit CHR ''/'', Lit CHR ''/'', NotIn 256 '':/'']"

definition is_secure :: "string \<Rightarrow> bool" where
  "is_secure t \<longleftrightarrow> t = ''wss'' \<or> t = ''https''"

definition default_port :: "urlAddress \<Rightarrow> urlAddress" where
  "default_port u = (if is_secure (url_type u) then u\<lparr>url_port := 443, url_isSsl := True\<rparr>
     else u\<lparr>url_port := 80\<rparr>)"

definition parseUrlAddress :: "urlAddress \<Rightarrow> string \<Rightarrow> (int \<times> urlAddress) option" where
  "parseUrlAddress url address = do {
     let url = url\<lparr>url_serviceProtocol :=
       (if str_find ''dashscope'' address \<noteq> None then WsServiceProtocolDashScope
        else WsServiceProtocolNls)\<rparr>;
     (n, url) \<leftarrow> scan_url (fmt_host @ [Lit CHR '':'', Dec, Lit CHR ''/'', Str 255])
       [FType, FHost, FPort, FPath] address url;
     if n = 4 then
       Some (Success, if is_secure (url_type url) then url\<lparr>url_isSsl := True\<rparr> else url)
     else do {
       (n, url) \<leftarrow> scan_url (fmt_host @ [Lit CHR ''/'', Str 255]) [FType, FHost, FPath] address url;
       if n = 3 then Some (Success, default_port url)
       else do {
         (n, url) \<leftarrow> scan_url (fmt_host @ [Lit CHR '':'', Dec]) [FType, FHost, FPort] address url;
         if n = 3 then Some (Success, url\<lparr>url_path := []\<rparr>)
         else do {
           (n, url) \<leftarrow> scan_url fmt_host [FType, FHost] address url;
           if n = 2 then Some (Success, (default_port url)\<lparr>url_path := []\<rparr>)
           else Some (- ParseUrlFailed, url) } } } }"

text \<open>The local \<open>url\<close> of \<open>urlWithAccess\<close> is not initialised: it is a parameter.\<close>

definition urlWithAccess :: "urlAddress \<Rightarrow> string \<Rightarrow> bool option" where
  "urlWithAccess url address = do {
     (ret, url) \<leftarrow> parseUrlAddress url address;
     Some (ret = Success \<and> CHR ''?'' \<in> set (url_path url)) }"

text \<open>An address for the examples.\<close>

definition url_example :: urlAddress where
  "url_example = \<lparr>url_host = ''a.cn'', url_port = 80, url_type = ''ws'', url_path = ''ws/v1'',
     url_token = ''tk'', url_apikey = ''sk'', url_isSsl = False, url_address = [],
     url_directIp = False, url_enableSysGetAddr = False,
     url_serviceProtocol = WsServiceProtocolNls\<rparr>"

subsection \<open>Parsing well-formed URLs\<close>

definition url_name :: "nat \<Rightarrow> string \<Rightarrow> bool" where
  "url_name n s \<longleftrightarrow> s \<noteq> [] \<and> length s < n \<and> list_all (\<lambda>c. c \<noteq> CHR '':'' \<and> c \<noteq> CHR ''/'') s"

definition url_path_ok :: "string \<Rightarrow> bool" where
  "url_path_ok s \<longleftrightarrow> s \<noteq> [] \<and> length s < 256 \<and> list_all (\<lambda>c. \<not> is_space c) s"

definition stops :: "(char \<Rightarrow> bool) \<Rightarrow> string \<Rightarrow> bool" where
  "stops P s \<longleftrightarrow> s = [] \<or> \<not> P (hd s)"

lemma takeWhile_stops: "list_all P xs \<Longrightarrow> stops P ys \<Longrightarrow> takeWhile P (xs @ ys) = xs"
proof (induction xs)
  case Nil
  then show ?case by (cases ys) (auto simp: stops_def)
qed simp

lemma dropWhile_stops: "stops P ys \<Longrightarrow> dropWhile P ys = ys"
  by (cases ys) (auto simp: stops_def)

lemma sscanf_NotIn:
  assumes "list_all (\<lambda>c. c \<notin> set cs) m" "m \<noteq> []" "length m \<le> n" "stops (\<lambda>c. c \<notin> set cs) r"
  shows "sscanf (NotIn n cs # fs) (m @ r) = map_option ((#) (AStr m)) (sscanf fs r)"
  using assms by (simp add: takeWhile_stops Let_def)

lemma sscanf_host:
  assumes "url_name 10 scheme" "url_name 256 host" "stops (\<lambda>c. c \<notin> set '':/'') r"
  shows "sscanf (fmt_host @ fs) (scheme @ ''://'' @ host @ r) =
    map_option (\<lambda>as. AStr scheme # AStr host # as) (sscanf fs r)"
proof -
  have "stops (\<lambda>c. c \<notin> set '':/'') (''://'' @ host @ r)" by (simp add: stops_def)
  then show ?thesis
    using assms sscanf_NotIn [of "'':/''" scheme 10] sscanf_NotIn [of "'':/''" host 256 r fs]
    by (simp add: fmt_host_def url_name_def option.map_comp comp_def list_all_iff del: sscanf.simps(3))
qed

lemma is_digit_not_space: "is_digit c \<Longrightarrow> \<not> is_space c \<and> c \<noteq> CHR ''-'' \<and> c \<noteq> CHR ''+''"
  by (auto simp: is_digit_def digits_def is_space_def)

lemma scan_int_dec:
  assumes "stops is_digit r"
  shows "scan_int (dec n @ r) = Some (int n, r)"
proof -
  obtain c ds where c: "dec n = c # ds" by (cases "dec n") simp_all
  then have "is_digit c" using dec_digits [of n] by simp
  from is_digit_not_space [OF this] c have
    "dropWhile is_space (dec n @ r) = dec n @ r" "dec n @ r \<noteq> []" "(dec n @ r) ! 0 \<noteq> CHR ''-''"
    "(dec n @ r) ! 0 \<noteq> CHR ''+''" by simp_all
  then show ?thesis
    using assms dec_digits [of n] digits_value_dec [of n]
    by (simp add: scan_int_def Let_def takeWhile_stops)
qed

lemma sscanf_Str:
  assumes "url_path_ok path"
  shows "sscanf [Str 255] path = Some [AStr path]"
proof -
  have "stops is_space path" "takeWhile (\<lambda>c. \<not> is_space c) path = path"
    using assms by (auto simp: url_path_ok_def stops_def list_all_iff takeWhile_eq_all_conv)
  then show ?thesis using assms
    by (simp add: dropWhile_stops url_path_ok_def Let_def del: takeWhile_eq_all_conv)
qed

text \<open>C29: a complete URL is parsed into its parts. For every scheme of at most 9 characters, host
of at most 255, port in the range of \<open>int\<close> and path of at most 255 characters without white
space, \<open>scheme://host:port/path\<close> gives exactly these four parts, and the connection is marked
as encrypted for \<open>wss\<close> and \<open>https\<close> (and keeps an earlier mark otherwise).\<close>

theorem parseUrlAddress_full:
  assumes "url_name 10 scheme" "url_name 256 host" "url_path_ok path" "int port \<le> INT_MAX"
  shows "\<exists>u. parseUrlAddress url (scheme @ ''://'' @ host @ '':'' @ dec port @ ''/'' @ path) =
      Some (Success, u) \<and> url_type u = scheme \<and> url_host u = host \<and> url_port u = int port \<and>
    url_path u = path \<and> url_isSsl u = (is_secure scheme \<or> url_isSsl url)"
proof -
  let ?r = "'':'' @ dec port @ ''/'' @ path"
  have "sscanf (Dec # Lit CHR ''/'' # Str 255 # []) (dec port @ ''/'' @ path) =
      Some [AInt (int port), AStr path]"
    using scan_int_dec [of "''/'' @ path" port] sscanf_Str [OF assms(3)] assms(4)
    by (simp add: stops_def is_digit_def digits_def del: sscanf.simps(5))
  then have "sscanf (fmt_host @ [Lit CHR '':'', Dec, Lit CHR ''/'', Str 255])
      (scheme @ ''://'' @ host @ ?r) = Some [AStr scheme, AStr host, AInt (int port), AStr path]"
    using sscanf_host [OF assms(1,2), of ?r "[Lit CHR '':'', Dec, Lit CHR ''/'', Str 255]"]
    by (simp add: stops_def del: sscanf.simps(4,5))
  then show ?thesis
    using assms by (simp add: parseUrlAddress_def scan_url_def url_name_def url_path_ok_def Let_def)
qed

theorem parseUrlAddress_full_witness:
  "\<exists>u. parseUrlAddress url_example (''wss'' @ ''://'' @ ''a.cn'' @ '':'' @ dec 443 @ ''/'' @ ''ws/v1'') =
      Some (Success, u) \<and> url_type u = ''wss'' \<and> url_host u = ''a.cn'' \<and> url_port u = int 443 \<and>
    url_path u = ''ws/v1'' \<and> url_isSsl u = (is_secure ''wss'' \<or> url_isSsl url_example)"
  by (rule parseUrlAddress_full) (simp_all add: url_name_def url_path_ok_def is_space_def)

text \<open>Without a port the default of the scheme is used: \<open>scheme://host/path\<close> gives port 443
and encryption for \<open>wss\<close> and \<open>https\<close>, and port 80 otherwise.\<close>

theorem parseUrlAddress_default_port:
  assumes "url_name 10 scheme" "url_name 256 host" "url_path_ok path"
  shows "\<exists>u. parseUrlAddress url (scheme @ ''://'' @ host @ ''/'' @ path) = Some (Success, u) \<and>
    url_type u = scheme \<and> url_host u = host \<and> url_path u = path \<and>
    url_port u = (if is_secure scheme then 443 else 80) \<and>
    url_isSsl u = (is_secure scheme \<or> url_isSsl url)"
proof -
  let ?r = "''/'' @ path"
  have "sscanf (fmt_host @ [Lit CHR '':'', Dec, Lit CHR ''/'', Str 255])
      (scheme @ ''://'' @ host @ ?r) = Some [AStr scheme, AStr host]"
    using sscanf_host [OF assms(1,2), of ?r "[Lit CHR '':'', Dec, Lit CHR ''/'', Str 255]"]
    by (simp add: stops_def del: sscanf.simps(4,5))
  moreover have "sscanf (fmt_host @ [Lit CHR ''/'', Str 255])
      (scheme @ ''://'' @ host @ ?r) = Some [AStr scheme, AStr host, AStr path]"
    using sscanf_host [OF assms(1,2), of ?r "[Lit CHR ''/'', Str 255]"] sscanf_Str [OF assms(3)]
    by (simp add: stops_def del: sscanf.simps(4,5))
  ultimately show ?thesis
    using assms by (simp add: parseUrlAddress_def scan_url_def url_name_def url_path_ok_def
        default_port_def Let_def)
qed

theorem parseUrlAddress_default_port_witness:
  "\<exists>u. parseUrlAddress url_example (''ws'' @ ''://'' @ ''a.cn'' @ ''/'' @ ''ws/v1'') = Some (Success, u) \<and>
    url_type u = ''ws'' \<and> url_host u = ''a.cn'' \<and> url_path u = ''ws/v1'' \<and>
    url_port u = (if is_secure ''ws'' then 443 else 80) \<and>
    url_isSsl u = (is_secure ''ws'' \<or> url_isSsl url_example)"
  by (rule parseUrlAddress_default_port) (simp_all add: url_name_def url_path_ok_def is_space_def)

text \<open>The scheme is ignored when a URL has a port and no path. For \<open>scheme://host:port\<close> the
mark for encryption is whatever it was before, so that \<open>wss://host:443\<close> on a fresh address
gives an unencrypted connection.\<close>

theorem parseUrlAddress_no_path:
  assumes "url_name 10 scheme" "url_name 256 host" "int port \<le> INT_MAX"
  shows "\<exists>u. parseUrlAddress url (scheme @ ''://'' @ host @ '':'' @ dec port) = Some (Success, u) \<and>
    url_type u = scheme \<and> url_host u = host \<and> url_port u = int port \<and> url_path u = [] \<and>
    url_isSsl u = url_isSsl url"
proof -
  let ?r = "'':'' @ dec port"
  have int: "scan_int (dec port) = Some (int port, [])"
    using scan_int_dec [of "[]" port] by (simp add: stops_def)
  have "sscanf (fmt_host @ [Lit CHR '':'', Dec, Lit CHR ''/'', Str 255])
      (scheme @ ''://'' @ host @ ?r) = Some [AStr scheme, AStr host, AInt (int port)]"
    using sscanf_host [OF assms(1,2), of ?r "[Lit CHR '':'', Dec, Lit CHR ''/'', Str 255]"] int assms(3)
    by (simp add: stops_def)
  moreover have "sscanf (fmt_host @ [Lit CHR ''/'', Str 255])
      (scheme @ ''://'' @ host @ ?r) = Some [AStr scheme, AStr host]"
    using sscanf_host [OF assms(1,2), of ?r "[Lit CHR ''/'', Str 255]"] by (simp add: stops_def)
  moreover have "sscanf (fmt_host @ [Lit CHR '':'', Dec])
      (scheme @ ''://'' @ host @ ?r) = Some [AStr scheme, AStr host, AInt (int port)]"
    using sscanf_host [OF assms(1,2), of ?r "[Lit CHR '':'', Dec]"] int assms(3)
    by (simp add: stops_def)
  ultimately show ?thesis
    using assms by (simp add: parseUrlAddress_def scan_url_def url_name_def Let_def)
qed

theorem parseUrlAddress_no_path_witness:
  "\<exists>u. parseUrlAddress url_example (''wss'' @ ''://'' @ ''a.cn'' @ '':'' @ dec 443) = Some (Success, u) \<and>
    url_type u = ''wss'' \<and> url_host u = ''a.cn'' \<and> url_port u = int 443 \<and> url_path u = [] \<and>
    url_isSsl u = url_isSsl url_example"
  by (rule parseUrlAddress_no_path) (simp_all add: url_name_def)

text \<open>A scheme of ten characters or more does not fit: \<open>%10[...]\<close> stores ten characters and
the terminating NUL in an array of ten. The behaviour is undefined for every such URL.\<close>

theorem parseUrlAddress_type_overflow:
  assumes "10 \<le> length scheme" "list_all (\<lambda>c. c \<noteq> CHR '':'' \<and> c \<noteq> CHR ''/'') scheme"
  shows "parseUrlAddress url (scheme @ rest) = None"
proof -
  let ?P = "\<lambda>c. c \<notin> set '':/''"
  have "takeWhile ?P (scheme @ rest) = scheme @ takeWhile ?P rest"
    using assms(2) by (intro takeWhile_append2) (auto simp: list_all_iff)
  then have ten: "length (take 10 (takeWhile ?P (scheme @ rest))) = 10"
    using assms(1) by simp
  then have "take 10 (takeWhile ?P (scheme @ rest)) \<noteq> []" by auto
  with ten show ?thesis
    by (auto simp: parseUrlAddress_def scan_url_def fmt_host_def Let_def map_option_case
        simp del: takeWhile_append2 take_append set_simps split: option.splits)
qed

theorem parseUrlAddress_type_overflow_witness:
  "parseUrlAddress url_example (''dashscope1'' @ ''://a.cn'') = None"
  by (rule parseUrlAddress_type_overflow) simp_all

section \<open>The upgrade request\<close>

definition CRLF :: string where "CRLF = [CHR 0x0D, CHR 0x0A]"
lemma CRLF_neq [simp]: "CRLF \<noteq> []"
  by (simp add: CRLF_def)

definition SEC_WS_VER :: string where "SEC_WS_VER = ''13''"

text \<open>\<open>snprintf\<close> stores at most \<open>n - 1\<close> characters and returns the length of the whole text.\<close>

definition snprintf :: "nat \<Rightarrow> string \<Rightarrow> int \<times> string" where
  "snprintf n txt = (int (length txt), take (n - 1) txt)"

definition getSecWsKey :: string where
  "getSecWsKey =
    (let key_array = ''xDH3LMJ1bJ'';
         tmp = map (\<lambda>i. key_array ! (i * 7 mod 10)) [0..<10]
     in snd (snprintf 128 (''Sec'' @ ''-'' @ ''WebSocket'' @ ''-'' @ ''Key'' @ '': '' @ tmp @
          ''EzLkh9G'' @ ''BhXDw==''))) "

definition hostBuff :: "urlAddress \<Rightarrow> string" where
  "hostBuff url =
    (if url_port url = HttpPort then snd (snprintf 256 (''Host: '' @ url_host url @ CRLF))
     else snd (snprintf 256 (''Host: '' @ url_host url @ '':'' @ print_int (url_port url) @ CRLF)))"

text \<open>The result: the return value and the text in \<open>buffer\<close>.\<close>

definition requestPackage :: "urlAddress \<Rightarrow> string \<Rightarrow> int \<times> string" where
  "requestPackage url httpHeader =
    (let common = ''GET /'' @ url_path url @ '' HTTP/1.1'' @ CRLF @ hostBuff url @
           ''Upgrade: websocket'' @ CRLF @ ''Connection: Upgrade'' @ CRLF @ getSecWsKey @ CRLF @
           ''Sec-WebSocket-Version: '' @ SEC_WS_VER @ CRLF @ ''X-NLS-Token'' @ '': '' @ url_token url @
           CRLF;
         (contentSize, buffer) =
           (if httpHeader = [] then snprintf BufferSize (common @ CRLF)
            else snprintf BufferSize (common @ httpHeader @ CRLF))
     in if contentSize \<le> 0 then (- WsRequestPackageEmpty, buffer) else (contentSize, buffer))"

text \<open>The platform strings come from the build (\<open>GetVersion\<close> reads the compile date).\<close>

definition requestDashScopePackage ::
  "string \<Rightarrow> string \<Rightarrow> string \<Rightarrow> string \<Rightarrow> urlAddress \<Rightarrow> string \<Rightarrow> int \<times> string" where
  "requestDashScopePackage sdkInfo version osName archName url httpHeader =
    (let common = ''GET /'' @ url_path url @ '' HTTP/1.1'' @ CRLF @ hostBuff url @
           ''Upgrade: websocket'' @ CRLF @ ''Connection: Upgrade'' @ CRLF @ getSecWsKey @ CRLF @
           ''Sec-WebSocket-Version: '' @ SEC_WS_VER @ CRLF @ ''user-agent: dashscope/'' @ sdkInfo @
           '';version/'' @ version @ '';platform/'' @ osName @ '';arch/'' @ archName @ CRLF @
           ''X-DashScope-DataInspection: enable'' @ CRLF @ ''Authorization: bearer '' @ url_apikey url;
         (contentSize, buffer) =
           (if httpHeader = [] then snprintf BufferSize (common @ CRLF @ CRLF)
            else snprintf BufferSize (common @ CRLF @ httpHeader @ CRLF @ CRLF))
     in if contentSize \<le> 0 then (- WsRequestPackageEmpty, buffer) else (contentSize, buffer))"



text \<open>The DashScope request sends two bytes after its end. With custom headers, which the
parameter object always ends by CRLF, the text ends with three line ends: the empty line closes
the request after the second, and the last CRLF is read by the server as the start of a
WebSocket frame.\<close>

theorem requestDashScopePackage_stray:
  assumes "requestDashScopePackage sdk ver os arch url (h @ CRLF) = (n, out)" "n < int BufferSize"
  shows "\<exists>front. out = front @ h @ CRLF @ CRLF @ CRLF \<and> n = int (length out)"
proof -
  define front where "front = ''GET /'' @ url_path url @ '' HTTP/1.1'' @ CRLF @ hostBuff url @
    ''Upgrade: websocket'' @ CRLF @ ''Connection: Upgrade'' @ CRLF @ getSecWsKey @ CRLF @
    ''Sec-WebSocket-Version: '' @ SEC_WS_VER @ CRLF @ ''user-agent: dashscope/'' @ sdk @
    '';version/'' @ ver @ '';platform/'' @ os @ '';arch/'' @ arch @ CRLF @
    ''X-DashScope-DataInspection: enable'' @ CRLF @ ''Authorization: bearer '' @ url_apikey url @ CRLF"
  have ne: "(h @ CRLF = []) = False" by simp
  have pos: "(int (length (front @ h @ CRLF @ CRLF @ CRLF)) \<le> 0) = False"
    by (simp only: of_nat_le_0_iff length_0_conv append_is_Nil_conv CRLF_neq simp_thms)
  have "requestDashScopePackage sdk ver os arch url (h @ CRLF) =
      snprintf BufferSize (front @ h @ CRLF @ CRLF @ CRLF)"
    using pos unfolding requestDashScopePackage_def snprintf_def Let_def front_def
    by (simp only: ne if_False prod.case append_assoc)
  then have "out = front @ h @ CRLF @ CRLF @ CRLF" "n = int (length out)"
    using assms by (auto simp: snprintf_def)
  then show ?thesis by blast
qed

theorem requestDashScopePackage_stray_witness:
  "\<exists>n out front. requestDashScopePackage ''s'' ''1'' ''Linux'' ''arm64'' url_example (''A: b'' @ CRLF) =
    (n, out) \<and> out = front @ ''A: b'' @ CRLF @ CRLF @ CRLF"
proof -
  obtain n out where r:
    "requestDashScopePackage ''s'' ''1'' ''Linux'' ''arm64'' url_example (''A: b'' @ CRLF) = (n, out)"
    by fastforce
  have "fst (requestDashScopePackage ''s'' ''1'' ''Linux'' ''arm64'' url_example (''A: b'' @ CRLF))
      < int BufferSize" by code_simp
  then have "n < int BufferSize" using r by simp
  from requestDashScopePackage_stray [OF r this] r show ?thesis by blast
qed

section \<open>The upgrade response\<close>

abbreviation npos :: nat where "npos \<equiv> 2 ^ 64 - 1"

definition find_npos :: "string \<Rightarrow> nat \<Rightarrow> string \<Rightarrow> nat" where
  "find_npos key pos s = (case str_find_from key pos s of None \<Rightarrow> npos | Some i \<Rightarrow> i)"

text \<open>\<open>substr\<close> throws when it starts behind the end (here \<open>None\<close>: nothing catches it).\<close>

definition substr :: "string \<Rightarrow> nat \<Rightarrow> nat \<Rightarrow> string option" where
  "substr s pos n = (if length s < pos then None else Some (take n (drop pos s)))"

definition atoi :: "string \<Rightarrow> int option" where
  "atoi s =
    (case scan_int s of
       None \<Rightarrow> Some 0
     | Some (v, r) \<Rightarrow> if v < - INT_MAX - 1 \<or> INT_MAX < v then None else Some v)"

definition getTargetLen :: "string \<Rightarrow> string \<Rightarrow> string \<Rightarrow> int option" where
  "getTargetLen line begin_key end_key =
    (let seek = find_npos begin_key 0 line;
         start = (seek + length begin_key) mod 2 ^ 64;
         position = find_npos end_key start line
     in if position = npos then Some 0
        else do {
          tmpCode \<leftarrow> substr line start ((position + (2 ^ 64 - length begin_key)) mod 2 ^ 64);
          atoi tmpCode })"

definition HTTP_STATUS_CODE :: string where "HTTP_STATUS_CODE = ''HTTP/1.1 ''"
definition HTTP_STATUS_CODE_END :: string where "HTTP_STATUS_CODE_END = '' ''"
definition HTTP_HEADER_END_STRING :: string where "HTTP_HEADER_END_STRING = CRLF @ CRLF"
definition HTTP_CONTENT_LENGTH :: string where "HTTP_CONTENT_LENGTH = ''Content-Length: ''"
definition HTTP_CONTENT_LENGTH_END :: string where "HTTP_CONTENT_LENGTH_END = CRLF"

text \<open>
  The two HTTP counters of \<open>WebSocketTcp\<close> are \<open>size_t\<close>, into which a
  negative \<open>int\<close> is sign-extended; \<open>len\<close> is returned as an \<open>int\<close>.
\<close>

definition responsePackage :: "WebSocketTcp \<Rightarrow> string \<Rightarrow> u64 \<Rightarrow> (int \<times> WebSocketTcp) option" where
  "responsePackage st content len =
    (if str_find HTTP_HEADER_END_STRING content = None then Some (sint (ucast len :: 32 word), st)
     else do {
       st \<leftarrow> (if httpCode st = 0 then do {
                c \<leftarrow> getTargetLen content HTTP_STATUS_CODE HTTP_STATUS_CODE_END;
                Some (st\<lparr>httpCode := of_int c\<rparr>) }
              else Some st);
       if httpCode st = 0 then Some (- HttpGotBadStatus, st)
       else if httpCode st = 101 then Some (0, st)
       else do {
         st \<leftarrow> (if httpLength st = 0 then do {
                  c \<leftarrow> getTargetLen content HTTP_CONTENT_LENGTH HTTP_CONTENT_LENGTH_END;
                  Some (st\<lparr>httpLength := of_int c\<rparr>) }
                else Some st);
         let endLen = length HTTP_HEADER_END_STRING;
         let position = find_npos HTTP_HEADER_END_STRING 0 content;
         if position \<noteq> npos then
           (if httpLength st = 0 then Some (- WsResponsePackageFailed, st\<lparr>errorMsg := content\<rparr>)
            else if httpLength st = len - of_nat (position + endLen) then
              Some (- WsResponsePackageFailed, st\<lparr>errorMsg := drop (position + endLen) content\<rparr>)
            else Some (- WsResponsePackageFailed, st))
         else Some (- WsResponsePackageFailed, st) } })"

lemma str_find_digits: "str_find '' '' (dec n @ '' '' @ rest) = Some (length (dec n))"
proof (rule str_find_append)
  fix i assume i: "i < length (dec n)"
  then have "is_digit (dec n ! i)" using dec_digits [of n] by (simp add: list_all_length)
  then have "dec n ! i \<noteq> CHR '' ''" by (auto simp: is_digit_def digits_def)
  moreover have "take (length '' '') (drop i (dec n @ '' '' @ rest)) = [dec n ! i]"
    using i by (simp add: take_Suc_conv_app_nth flip: Cons_nth_drop_Suc)
  ultimately show "take (length '' '') (drop i (dec n @ '' '' @ rest)) \<noteq> '' ''" by simp
qed

lemma getTargetLen_status:
  assumes "int code \<le> INT_MAX" "content = HTTP_STATUS_CODE @ dec code @ '' '' @ rest"
    "length content < 2 ^ 63"
  shows "getTargetLen content HTTP_STATUS_CODE HTTP_STATUS_CODE_END = Some (int code)"
proof -
  have start: "find_npos HTTP_STATUS_CODE 0 content = 0"
    using str_find_append [of "[]" HTTP_STATUS_CODE "dec code @ '' '' @ rest"] assms(2)
    by (simp add: find_npos_def str_find_from_def)
  have nine: "length HTTP_STATUS_CODE = 9" by (simp add: HTTP_STATUS_CODE_def)
  have pos: "find_npos HTTP_STATUS_CODE_END 9 content = 9 + length (dec code)"
    using str_find_digits [of code rest] nine assms(2)
    by (simp add: find_npos_def str_find_from_def HTTP_STATUS_CODE_END_def)
  have small: "9 + length (dec code) < 2 ^ 63" using assms(2,3) nine by simp
  have mod: "(9 + length (dec code) + (2 ^ 64 - 9)) mod 2 ^ 64 = length (dec code)"
    using small by simp
  have "atoi (dec code) = Some (int code)"
    using scan_int_dec [of "[]" code] assms(1) by (simp add: atoi_def stops_def)
  then show ?thesis
    using start pos small mod nine assms(2)
    by (simp add: getTargetLen_def Let_def substr_def)
qed

text \<open>The connection is upgraded for status 101 and for no other. On a response whose
header has arrived completely, the status code of the first line decides: 101 gives 0, and any
other code, whenever a result is defined at all, gives \<open>WsResponsePackageFailed\<close>.\<close>

theorem responsePackage_status:
  assumes "httpCode st = 0" "0 < code" "int code \<le> INT_MAX"
    and "content = HTTP_STATUS_CODE @ dec code @ '' '' @ rest" "length content < 2 ^ 63"
    and "str_find HTTP_HEADER_END_STRING content \<noteq> None"
  shows "responsePackage st content len = Some (0, st\<lparr>httpCode := 101\<rparr>) \<and> code = 101 \<or>
    code \<noteq> 101 \<and> (responsePackage st content len = None \<or>
      (\<exists>st'. responsePackage st content len = Some (- WsResponsePackageFailed, st')))"
proof -
  have code: "(of_int (int code) :: u64) = of_nat code" by simp
  have n0: "(of_nat code :: u64) \<noteq> 0" "(of_nat code :: u64) = 101 \<longleftrightarrow> code = 101"
  proof -
    have u: "unat (of_nat code :: u64) = code"
      using assms(3) by (simp add: unat_of_nat take_bit_eq_mod)
    then show "(of_nat code :: u64) \<noteq> 0" using assms(2) by auto
    have "(of_nat code :: u64) = 101 \<Longrightarrow> code = 101" using u by simp
    then show "(of_nat code :: u64) = 101 \<longleftrightarrow> code = 101" by auto
  qed
  from getTargetLen_status [OF assms(3-5)] show ?thesis
    using assms(1,6) n0
    by (cases "getTargetLen content HTTP_CONTENT_LENGTH HTTP_CONTENT_LENGTH_END")
      (auto simp: responsePackage_def code Let_def)
qed

theorem responsePackage_status_witness:
  "responsePackage WebSocketTcp_init
     (HTTP_STATUS_CODE @ dec 101 @ '' '' @ (''OK'' @ CRLF @ CRLF)) 19 =
   Some (0, WebSocketTcp_init\<lparr>httpCode := 101\<rparr>)"
proof -
  have dec: "dec 101 = ''101''" by code_simp
  have find: "str_find HTTP_HEADER_END_STRING (HTTP_STATUS_CODE @ dec 101 @ '' '' @ (''OK'' @ CRLF @ CRLF)) \<noteq> None"
    unfolding dec by code_simp
  show ?thesis
    using responsePackage_status [OF _ _ _ refl _ find, of
        "WebSocketTcp_init" 19] dec
    by (simp add: HTTP_STATUS_CODE_def CRLF_def WebSocketTcp_init_def)
qed

end
