(* ===== verification/JsonValue.thy ===== *)
theory JsonValue
  imports NlsPrelude "HOL-Library.Char_ord" "HOL-Library.List_Lexorder"
begin

text \<open>
  JSON values as the SDK uses them through jsoncpp (\<open>thirdparty/jsoncpp-1.9.4.zip\<close>,
  \<open>lib_json/json_value.cpp\<close>). Members of an object are kept in the order of their keys, as in the
  \<open>std::map\<close> behind \<open>Json::Value\<close>. An accessor that is applied to a value of the wrong type
  throws: that is \<open>None\<close>. The two integer types of the library are one here; a double is a mantissa
  and an exponent of two, to which an integer is converted without rounding. The parser and the
  writer are not modelled; they are parameters of the operations that use them (\<open>reader\<close>,
  \<open>writer\<close>).
\<close>

datatype double = Double (mantissa: int) (exponent: int)

definition truncated :: "double \<Rightarrow> int" where
  "truncated d =
    (let m = mantissa d; e = exponent d; k = 2 ^ nat (- e)
     in if 0 \<le> e then m * 2 ^ nat e else if 0 \<le> m then m div k else - ((- m) div k))"

definition integral :: "double \<Rightarrow> bool" where
  "integral d \<longleftrightarrow> 0 \<le> exponent d \<or> mantissa d mod 2 ^ nat (- exponent d) = 0"

definition at_least_half :: "double \<Rightarrow> bool" where
  "at_least_half d \<longleftrightarrow>
    (if - 1 \<le> exponent d then 1 \<le> mantissa d else 2 ^ nat (- exponent d - 1) \<le> mantissa d)"

datatype json = JNull | JBool bool | JInt int | JReal double | JString string
  | JArray "json list" | JObject "(string \<times> json) list"

type_synonym members = "(string \<times> json) list"
type_synonym reader = "string \<Rightarrow> json option"
type_synonym writer = "json \<Rightarrow> string"

section \<open>Members\<close>

fun set_member :: "string \<Rightarrow> json \<Rightarrow> members \<Rightarrow> members" where
  "set_member k v [] = [(k, v)]"
| "set_member k v ((k', v') # ms) =
    (if k = k' then (k, v) # ms
     else if k < k' then (k, v) # (k', v') # ms
     else (k', v') # set_member k v ms)"

definition remove_member :: "string \<Rightarrow> members \<Rightarrow> members" where
  "remove_member k ms = filter (\<lambda>(k', _). k' \<noteq> k) ms"

definition members_ok :: "members \<Rightarrow> bool" where
  "members_ok ms \<longleftrightarrow> sorted_wrt (<) (map fst ms)"

lemma map_of_set_member [simp]: "map_of (set_member k v ms) = (map_of ms)(k \<mapsto> v)"
  by (induction k v ms rule: set_member.induct) auto

lemma map_of_remove_member [simp]: "map_of (remove_member k ms) = (map_of ms)(k := None)"
  by (induction ms) (auto simp: remove_member_def)

lemma fst_set_member: "fst ` set (set_member k v ms) = insert k (fst ` set ms)"
  by (induction k v ms rule: set_member.induct) auto

lemma members_ok_set [intro]: "members_ok ms \<Longrightarrow> members_ok (set_member k v ms)"
proof (induction k v ms rule: set_member.induct)
  case (2 k v k' v' ms)
  then show ?case using fst_set_member [of k v ms] by (auto simp: members_ok_def)
qed (simp add: members_ok_def)

lemma members_ok_remove [intro]: "members_ok ms \<Longrightarrow> members_ok (remove_member k ms)"
  by (simp add: members_ok_def remove_member_def sorted_wrt_map sorted_wrt_filter)

lemma members_ok_Nil [simp]: "members_ok []"
  by (simp add: members_ok_def)

text \<open>A value as the library holds it: the keys of every object are distinct and in order.\<close>

fun json_ok :: "json \<Rightarrow> bool" where
  "json_ok (JArray vs) = (\<forall>v\<in>set vs. json_ok v)"
| "json_ok (JObject ms) = (members_ok ms \<and> (\<forall>kv\<in>set ms. json_ok (snd kv)))"
| "json_ok _ = True"

lemma set_set_member: "set (set_member k v ms) \<subseteq> insert (k, v) (set ms)"
  by (induction k v ms rule: set_member.induct) auto

lemma json_ok_set [intro]: "json_ok (JObject ms) \<Longrightarrow> json_ok v \<Longrightarrow> json_ok (JObject (set_member k v ms))"
  using set_set_member [of k v ms] by auto

lemma json_ok_remove [intro]: "json_ok (JObject ms) \<Longrightarrow> json_ok (JObject (remove_member k ms))"
  by (auto simp: remove_member_def) (use members_ok_remove [of ms k] in \<open>simp add: remove_member_def\<close>)

lemma json_ok_member: "json_ok (JObject ms) \<Longrightarrow> map_of ms k = Some v \<Longrightarrow> json_ok v"
  by (drule map_of_SomeD) force

declare json_ok.simps(2) [simp del]

text \<open>An object made of a list of members, which are set one after the other.\<close>

definition object :: "(string \<times> json) list \<Rightarrow> json" where
  "object kvs = JObject (fold (\<lambda>(k, v). set_member k v) kvs [])"

lemma map_of_fold_set:
  "map_of (fold (\<lambda>(k, v). set_member k v) kvs ms) k = (case map_of (rev kvs) k of Some v \<Rightarrow> Some v | None \<Rightarrow> map_of ms k)"
  by (induction kvs arbitrary: ms) (auto simp: map_add_def split: option.splits)

lemma json_ok_object: "(\<forall>kv\<in>set kvs. json_ok (snd kv)) \<Longrightarrow> json_ok (object kvs)"
proof -
  have "json_ok (JObject ms) \<Longrightarrow> (\<forall>kv\<in>set kvs. json_ok (snd kv)) \<Longrightarrow>
      json_ok (JObject (fold (\<lambda>(k, v). set_member k v) kvs ms))" for ms
  proof (induction kvs arbitrary: ms)
    case (Cons kv kvs)
    then show ?case using json_ok_set [of ms "snd kv" "fst kv"] by (auto simp: split_beta)
  qed (simp add: json_ok.simps(2))
  from this [of "[]"] show "(\<forall>kv\<in>set kvs. json_ok (snd kv)) \<Longrightarrow> json_ok (object kvs)" by (simp add: object_def json_ok.simps(2))
qed

section \<open>Accessors\<close>

definition c_string :: "string \<Rightarrow> string" where
  "c_string = takeWhile (\<lambda>c. c \<noteq> CHR 0x00)"

definition int_range :: "int \<Rightarrow> bool" where
  "int_range n \<longleftrightarrow> - (2 ^ 31) \<le> n \<and> n < 2 ^ 31"

fun isInt :: "json \<Rightarrow> bool" where
  "isInt (JInt n) = int_range n"
| "isInt (JReal r) = (integral r \<and> int_range (truncated r))"
| "isInt _ = False"

fun isDouble :: "json \<Rightarrow> bool" where
  "isDouble (JInt _) = True"
| "isDouble (JReal _) = True"
| "isDouble _ = False"

fun isString :: "json \<Rightarrow> bool" where
  "isString (JString _) = True"
| "isString _ = False"

fun isBool :: "json \<Rightarrow> bool" where
  "isBool (JBool _) = True"
| "isBool _ = False"

fun isArray :: "json \<Rightarrow> bool" where
  "isArray (JArray _) = True"
| "isArray _ = False"

fun isObject :: "json \<Rightarrow> bool" where
  "isObject (JObject _) = True"
| "isObject _ = False"

abbreviation (input) isNull :: "json \<Rightarrow> bool" where "isNull v \<equiv> v = JNull"

text \<open>The conversion of a double truncates; its value, not the truncated one, must lie in the range.\<close>

fun asInt :: "json \<Rightarrow> int option" where
  "asInt (JInt n) = (if int_range n then Some n else None)"
| "asInt (JReal r) =
    (let n = truncated r
     in if int_range n \<and> (integral r \<or> n \<noteq> - (2 ^ 31) \<and> n \<noteq> 2 ^ 31 - 1) then Some n else None)"
| "asInt JNull = Some 0"
| "asInt (JBool b) = Some (if b then 1 else 0)"
| "asInt _ = None"

fun asDouble :: "json \<Rightarrow> double option" where
  "asDouble (JInt n) = Some (Double n 0)"
| "asDouble (JReal r) = Some r"
| "asDouble JNull = Some (Double 0 0)"
| "asDouble (JBool b) = Some (Double (if b then 1 else 0) 0)"
| "asDouble _ = None"

fun asBool :: "json \<Rightarrow> bool option" where
  "asBool (JBool b) = Some b"
| "asBool JNull = Some False"
| "asBool (JInt n) = Some (n \<noteq> 0)"
| "asBool (JReal r) = Some (mantissa r \<noteq> 0)"
| "asBool _ = None"

text \<open>A string assigned from \<open>asCString\<close> ends at its first zero character.\<close>

fun asCString :: "json \<Rightarrow> string option" where
  "asCString (JString t) = Some (c_string t)"
| "asCString _ = None"

text \<open>\<open>v[key]\<close> and \<open>v.isMember(key)\<close>.\<close>

fun json_get :: "json \<Rightarrow> string \<Rightarrow> json option" where
  "json_get (JObject ms) k = Some (case map_of ms k of None \<Rightarrow> JNull | Some v \<Rightarrow> v)"
| "json_get JNull k = Some JNull"
| "json_get _ k = None"

lemma json_get_object [simp]: "json_get (object kvs) k = Some (case map_of (rev kvs) k of None \<Rightarrow> JNull | Some v \<Rightarrow> v)"
  by (simp add: object_def map_of_fold_set split: option.split)

fun isMember :: "json \<Rightarrow> string \<Rightarrow> bool option" where
  "isMember (JObject ms) k = Some (map_of ms k \<noteq> None)"
| "isMember JNull k = Some False"
| "isMember _ k = None"

section \<open>Reading a field\<close>

text \<open>\<open>if (!v[key].isNull() && v[key].isT()) x = v[key].asT();\<close>\<close>

definition read_field :: "(json \<Rightarrow> bool) \<Rightarrow> (json \<Rightarrow> 'a option) \<Rightarrow> json \<Rightarrow> string \<Rightarrow> 'a \<Rightarrow> 'a option" where
  "read_field isT asT v k old = do {
     f \<leftarrow> json_get v k;
     if \<not> isNull f \<and> isT f then asT f else Some old }"

definition int_field :: "json \<Rightarrow> string \<Rightarrow> int \<Rightarrow> int option" where
  "int_field = read_field isInt asInt"

definition string_field :: "json \<Rightarrow> string \<Rightarrow> string \<Rightarrow> string option" where
  "string_field = read_field isString asCString"

definition bool_field :: "json \<Rightarrow> string \<Rightarrow> bool \<Rightarrow> bool option" where
  "bool_field = read_field isBool asBool"

definition double_field :: "json \<Rightarrow> string \<Rightarrow> double \<Rightarrow> double option" where
  "double_field = read_field isDouble asDouble"

text \<open>Reading a field that is checked first never throws on an object.\<close>

lemma isInt_asInt: "isInt v \<Longrightarrow> \<exists>n. asInt v = Some n \<and> int_range n"
  by (cases v) (auto simp: Let_def)

lemma field_object:
  "\<exists>n. int_field (JObject ms) k d = Some n" "\<exists>t. string_field (JObject ms) k u = Some t"
  "\<exists>b. bool_field (JObject ms) k c = Some b" "\<exists>r. double_field (JObject ms) k q = Some r"
proof -
  let ?f = "case map_of ms k of None \<Rightarrow> JNull | Some v \<Rightarrow> v"
  show "\<exists>n. int_field (JObject ms) k d = Some n"
    using isInt_asInt [of ?f] by (auto simp: int_field_def read_field_def)
  show "\<exists>t. string_field (JObject ms) k u = Some t"
    by (cases ?f) (simp_all add: string_field_def read_field_def)
  show "\<exists>b. bool_field (JObject ms) k c = Some b"
    by (cases ?f) (simp_all add: bool_field_def read_field_def)
  show "\<exists>r. double_field (JObject ms) k q = Some r"
    by (cases ?f) (simp_all add: double_field_def read_field_def)
qed

text \<open>The fields of an object, by what the object holds.\<close>

lemma field_simps [simp]:
  "int_field (JObject ms) k d = (case map_of ms k of Some v \<Rightarrow> if isInt v then asInt v else Some d | None \<Rightarrow> Some d)"
  "string_field (JObject ms) k u =
    (case map_of ms k of Some v \<Rightarrow> if isString v then asCString v else Some u | None \<Rightarrow> Some u)"
  "bool_field (JObject ms) k c = (case map_of ms k of Some v \<Rightarrow> if isBool v then asBool v else Some c | None \<Rightarrow> Some c)"
  "double_field (JObject ms) k q =
    (case map_of ms k of Some v \<Rightarrow> if isDouble v then asDouble v else Some q | None \<Rightarrow> Some q)"
  by (auto simp: int_field_def string_field_def bool_field_def double_field_def read_field_def split: option.splits)

end
