(* ===== verification/NlsObjects.thy ===== *)
theory NlsObjects
  imports NlsGlobal JsonValue
begin

text \<open>
  The objects the connection pool and the node manager share: request parameters
  (\<open>item/iNlsRequestParam.cpp\<close>), requests, their connect nodes and SSL handles, and the heap
  they live in. A request owns its node and a node the SSL handle it was created with
  (\<open>_nativeSslHandle\<close>); everything else is a pointer that may dangle. Following a pointer to
  an object that has been deleted, and deleting it twice, is undefined behaviour (\<open>None\<close>).
\<close>

section \<open>Request parameters\<close>

datatype NlsRequestType = SpeechNormal | SpeechExecuteDialog | SpeechWakeWordDialog
  | SpeechTextDialog | SpeechSynthesizer | FlowingSynthesizer

text \<open>
  The members the comparison reads, and the others. \<open>_header\<close>, \<open>_payload\<close>, \<open>_context\<close> and
  \<open>_httpHeader\<close> are JSON objects from the constructor on.
\<close>

record connection_param =
  enableWakeWord :: bool
  enableRecvTimeout :: bool
  enableOnMessage :: bool
  enableReconnect :: bool
  p_timeout :: int
  recvTimeout :: int
  sendTimeout :: int
  sampleRate :: int
  requestType :: NlsRequestType
  p_url :: string
  outputFormat :: string
  appKey :: string
  p_format :: string
  p_mode :: NlsType
  p_sdkName :: string

record text_param =
  p_model :: string
  p_token :: string
  p_apikey :: string
  p_taskId :: string
  p_oldTaskId :: string
  startCommand :: string
  controlCommand :: string
  stopCommand :: string
  continueCommand :: string
  p_header :: members
  p_payload :: members
  p_context :: members
  p_httpHeader :: members
  p_httpHeaderString :: string

record speech_param =
  p_streaming :: string
  p_taskGroup :: string
  p_task :: string
  p_function :: string
  punctuationPredictionEnabled :: bool
  inverseTextNormalizationEnabled :: bool
  semanticPunctuationEnabled :: bool
  multiThresholdModeEnabled :: bool
  maxSentenceSilence :: int
  heartbeat :: bool
  vocabularyId :: string
  voice :: string
  enableSsml :: bool
  wordTimestampEnabled :: bool
  bitRate :: int
  enableAigcTag :: bool

text \<open>The members of the derived classes (\<open>framework/feature\<close>), for all of them together.\<close>

record derived_param =
  controlHeaderName :: string
  singeRoundText :: string
  disfluencyRemovalEnabled :: bool
  languageHintsJsonArray :: string
  resourcesJsonArray :: string
  inputJsonObj :: string
  p_volume :: int
  p_rate :: double
  p_pitch :: double
  p_seed :: int
  p_instruction :: string

record INlsRequestParam =
  p_conn :: connection_param
  p_text :: text_param
  p_speech :: speech_param
  p_derived :: derived_param
  p_tokenExpirationTime :: u64
  p_version :: int

definition NLS_SDK_VERSION_STR :: string where
  "NLS_SDK_VERSION_STR = ''3.4.0a''"

definition getSdkInfo :: "string \<Rightarrow> json" where
  "getSdkInfo sdkName = JObject
    [(''language'', JString (if sdkName = ''csharp'' then ''Csharp'' else ''C++'')),
     (''name'', JString ''nls-cpp-sdk3.x-linux''), (''version'', JString NLS_SDK_VERSION_STR)]"

text \<open>
  The constructor. It has no initializer for the token's expiration time: the member keeps
  what the memory held, the argument \<open>garbage\<close>.
\<close>

definition new_INlsRequestParam :: "u64 \<Rightarrow> NlsType \<Rightarrow> string \<Rightarrow> int \<Rightarrow> INlsRequestParam" where
  "new_INlsRequestParam garbage mode sdkName version =
    \<lparr>p_conn = \<lparr>enableWakeWord = False, enableRecvTimeout = False, enableOnMessage = False,
       enableReconnect = False, p_timeout = 500, recvTimeout = 15000, sendTimeout = 5000,
       sampleRate = 16000, requestType = SpeechNormal,
       p_url = ''wss://nls-gateway.cn-shanghai.aliyuncs.com/ws/v1'', outputFormat = ''UTF-8'',
       appKey = [], p_format = ''pcm'', p_mode = mode, p_sdkName = sdkName\<rparr>,
     p_text = \<lparr>p_model = [], p_token = [], p_apikey = [], p_taskId = [], p_oldTaskId = [],
       startCommand = [], controlCommand = [], stopCommand = [],
       continueCommand = ''continue-task'', p_header = [],
       p_payload = [(''format'', JString ''pcm''), (''sample_rate'', JInt 16000)],
       p_context = [(''sdk'', getSdkInfo sdkName)], p_httpHeader = [], p_httpHeaderString = []\<rparr>,
     p_speech = \<lparr>p_streaming = ''duplex'', p_taskGroup = ''audio'', p_task = [], p_function = [],
       punctuationPredictionEnabled = False, inverseTextNormalizationEnabled = False,
       semanticPunctuationEnabled = False, multiThresholdModeEnabled = False,
       maxSentenceSilence = 0, heartbeat = False, vocabularyId = [], voice = [],
       enableSsml = False, wordTimestampEnabled = False, bitRate = 0, enableAigcTag = False\<rparr>,
     p_derived = \<lparr>controlHeaderName = [], singeRoundText = [], disfluencyRemovalEnabled = False,
       languageHintsJsonArray = [], resourcesJsonArray = [], inputJsonObj = ''{}'', p_volume = 50,
       p_rate = Double 1 0, p_pitch = Double 1 0, p_seed = 0, p_instruction = []\<rparr>,
     p_tokenExpirationTime = garbage, p_version = version\<rparr>"

definition param_eq :: "INlsRequestParam \<Rightarrow> INlsRequestParam \<Rightarrow> bool" where
  "param_eq a b \<longleftrightarrow>
    (let x = p_conn a; y = p_conn b
     in enableWakeWord x = enableWakeWord y \<and> enableRecvTimeout x = enableRecvTimeout y \<and>
        enableOnMessage x = enableOnMessage y \<and> enableReconnect x = enableReconnect y \<and>
        p_timeout x = p_timeout y \<and> recvTimeout x = recvTimeout y \<and>
        sendTimeout x = sendTimeout y \<and> sampleRate x = sampleRate y \<and>
        requestType x = requestType y \<and> p_url x = p_url y \<and> outputFormat x = outputFormat y \<and>
        appKey x = appKey y \<and> p_format x = p_format y \<and> p_mode x = p_mode y \<and>
        p_sdkName x = p_sdkName y)"

text \<open>\<open>dst = src\<close>, of the base class: every member of it but the token's expiration time and the version.\<close>

definition param_assign :: "INlsRequestParam \<Rightarrow> INlsRequestParam \<Rightarrow> INlsRequestParam" where
  "param_assign dst src =
    dst\<lparr>p_conn := p_conn src, p_text := p_text src, p_speech := p_speech src\<rparr>"

lemma param_eq_iff: "param_eq a b \<longleftrightarrow> p_conn a = p_conn b"
  by (auto simp: param_eq_def Let_def intro: connection_param.equality)

text \<open>Assignment of parameters gives equal parameters. The comparison the pool uses cannot tell
a copy from its original (so that a connection prepared with copied parameters is found again),
it is an equivalence, but it ignores the token's expiration time and the voice version, which
the copy does not take over either.\<close>

theorem param_assign_eq:
  "param_eq (param_assign dst src) src \<and> param_eq a a \<and>
   (param_eq a b = param_eq b a) \<and>
   p_tokenExpirationTime (param_assign dst src) = p_tokenExpirationTime dst \<and>
   p_version (param_assign dst src) = p_version dst"
  by (auto simp: param_eq_iff param_assign_def)

lemma param_eq_trans: "param_eq a b \<Longrightarrow> param_eq b c \<Longrightarrow> param_eq a c"
  by (simp add: param_eq_iff)

section \<open>The heap\<close>

abbreviation (input) INVALID_SOCKET :: int where "INVALID_SOCKET \<equiv> -1"

record ConnectNode =
  n_request :: ptr
  n_sslHandle :: ptr
  n_nativeSslHandle :: ptr
  n_socketFd :: int
  n_url :: string
  n_poolIndex :: int
  n_last_op :: u64
  n_isLongConnection :: bool
  n_uuid :: string
  n_usePreconnection :: bool

record INlsRequest =
  r_node :: ptr
  r_param :: INlsRequestParam

text \<open>\<open>closed\<close> logs the sockets closed, newest first.\<close>

record heap =
  reqs :: "ptr \<Rightarrow> INlsRequest option"
  nodes :: "ptr \<Rightarrow> ConnectNode option"
  ssls :: "ptr \<Rightarrow> bool"
  closed :: "int list"

definition getConnectNode :: "heap \<Rightarrow> ptr \<Rightarrow> ptr option" where
  "getConnectNode h r = map_option r_node (reqs h r)"

definition getRequestParam :: "heap \<Rightarrow> ptr \<Rightarrow> INlsRequestParam option" where
  "getRequestParam h r = map_option r_param (reqs h r)"

text \<open>\<open>request->getConnectNode()->...\<close>\<close>

definition node_of :: "heap \<Rightarrow> ptr \<Rightarrow> ConnectNode option" where
  "node_of h r = do { req \<leftarrow> reqs h r; nodes h (r_node req) }"

definition update_node :: "heap \<Rightarrow> ptr \<Rightarrow> (ConnectNode \<Rightarrow> ConnectNode) \<Rightarrow> heap option" where
  "update_node h r f = do {
     req \<leftarrow> reqs h r;
     n \<leftarrow> nodes h (r_node req);
     Some (h\<lparr>nodes := (nodes h)(r_node req \<mapsto> f n)\<rparr>) }"

text \<open>\<open>delete\<close> of an SSL handle (null is ignored) and of a socket.\<close>

definition delete_ssl :: "heap \<Rightarrow> ptr \<Rightarrow> heap option" where
  "delete_ssl h s =
    (if s = NULL then Some h
     else if ssls h s then Some (h\<lparr>ssls := (ssls h)(s := False)\<rparr>) else None)"

definition closesocket :: "heap \<Rightarrow> int \<Rightarrow> heap" where
  "closesocket h fd = h\<lparr>closed := fd # closed h\<rparr>"

text \<open>
  \<open>~ConnectNode\<close>: the socket is closed and the SSL handle deleted exactly when the node still
  has the handle it was created with. A request's destructor deletes its node.
\<close>

definition closeConnectNode :: "heap \<Rightarrow> ConnectNode \<Rightarrow> heap" where
  "closeConnectNode h n =
    (if n_socketFd n \<noteq> INVALID_SOCKET \<and> n_sslHandle n = n_nativeSslHandle n
     then closesocket h (n_socketFd n) else h)"

definition destroy_ConnectNode :: "heap \<Rightarrow> ptr \<Rightarrow> heap option" where
  "destroy_ConnectNode h p = do {
     n \<leftarrow> nodes h p;
     let h = closeConnectNode h n;
     h \<leftarrow> (if n_sslHandle n \<noteq> NULL \<and> n_sslHandle n = n_nativeSslHandle n
           then delete_ssl h (n_sslHandle n) else Some h);
     Some (h\<lparr>nodes := (nodes h)(p := None)\<rparr>) }"

definition delete_request :: "heap \<Rightarrow> ptr \<Rightarrow> heap option" where
  "delete_request h r = do {
     req \<leftarrow> reqs h r;
     h \<leftarrow> destroy_ConnectNode h (r_node req);
     Some (h\<lparr>reqs := (reqs h)(r := None)\<rparr>) }"

end
