(* ===== verification/ConnectedPool.thy ===== *)
theory ConnectedPool
  imports NlsObjects
begin

text \<open>
  \<open>transport/connectedPool.h\<close> and \<open>connectedPool.cpp\<close>: the pool of prepared connections. For
  each of four request types the pool has two vectors of slots, one for connections on which a
  task has been started (\<open>prestarted\<close>) and one for connections that are only established
  (\<open>preconnected\<close>), and for each vector a sorted list of the indexes that can be picked. Every
  operation takes the heap and the pool and returns them updated; undefined behaviour is
  \<open>None\<close>. Operations that hold the pool's lock are single steps.
\<close>

section \<open>Data\<close>

datatype ConnectedStatus = PreNodeInvalid | PreNodeToBeCreated | PreNodeCreated
  | PreNodeConnected | PreNodeStarted

record ConnectedNodeProcess =
  cn_type :: NlsType
  status :: ConnectedStatus
  startTimestamp :: u64
  workableTimestamp :: u64
  tokenExpirationTimestamp :: u64
  socketFd :: int
  sslHandle :: ptr
  canPick :: bool
  ttsVersion :: int
  request :: ptr
  isAbnormal :: bool
  shouldRelease :: bool
  shouldPreconnect :: bool
  curRequest :: ptr
  curRequestInvalid :: bool
  sdkName :: string
  startedResponse :: string

record ConnectedPoolProcess =
  work :: bool
  prestartedIndexList :: "int list"
  preconnectedIndexList :: "int list"
  prestartedRequests :: "ConnectedNodeProcess list"
  preconnectedRequests :: "ConnectedNodeProcess list"

record ConnectedPool =
  maxPreconnectedNumber :: nat
  preconnectedTimeoutMs :: u32
  prerequestedTimeoutMs :: u32
  fssRequests :: ConnectedPoolProcess
  srRequests :: ConnectedPoolProcess
  stRequests :: ConnectedPoolProcess
  syRequests :: ConnectedPoolProcess

text \<open>The slot that \<open>initThisNodesPool\<close> pushes; \<open>ShortTts\<close> is 0.\<close>

definition new_slot :: "NlsType \<Rightarrow> ConnectedNodeProcess" where
  "new_slot type =
    \<lparr>cn_type = type, status = PreNodeToBeCreated, startTimestamp = 0, workableTimestamp = 0,
     tokenExpirationTimestamp = 0, socketFd = INVALID_SOCKET, sslHandle = NULL, canPick = False,
     ttsVersion = 0, request = NULL, isAbnormal = False, shouldRelease = False,
     shouldPreconnect = False, curRequest = NULL, curRequestInvalid = False, sdkName = [],
     startedResponse = []\<rparr>"

definition clearNode :: "ConnectedNodeProcess \<Rightarrow> ConnectedNodeProcess" where
  "clearNode s = s\<lparr>status := PreNodeToBeCreated, startTimestamp := 0, workableTimestamp := 0,
     tokenExpirationTimestamp := 0, socketFd := INVALID_SOCKET, sslHandle := NULL,
     canPick := False, ttsVersion := 0, request := NULL, isAbnormal := False,
     shouldRelease := False, shouldPreconnect := False, curRequest := NULL,
     curRequestInvalid := False, sdkName := [], startedResponse := []\<rparr>"

definition empty_process :: ConnectedPoolProcess where
  "empty_process = \<lparr>work = False, prestartedIndexList = [], preconnectedIndexList = [],
     prestartedRequests = [], preconnectedRequests = []\<rparr>"

definition new_ConnectedPool :: "nat \<Rightarrow> u32 \<Rightarrow> u32 \<Rightarrow> ConnectedPool" where
  "new_ConnectedPool maxNumber timeoutMs requestedTimeoutMs =
    \<lparr>maxPreconnectedNumber = maxNumber, preconnectedTimeoutMs = timeoutMs,
     prerequestedTimeoutMs = requestedTimeoutMs, fssRequests = empty_process,
     srRequests = empty_process, stRequests = empty_process, syRequests = empty_process\<rparr>"

text \<open>The \<open>switch (type)\<close> that selects a process; other types have none.\<close>

fun poolProcess :: "NlsType \<Rightarrow> ConnectedPool \<Rightarrow> ConnectedPoolProcess option" where
  "poolProcess TypeAsr p = Some (srRequests p)"
| "poolProcess TypeRealTime p = Some (stRequests p)"
| "poolProcess TypeTts p = Some (syRequests p)"
| "poolProcess TypeStreamInputTts p = Some (fssRequests p)"
| "poolProcess _ p = None"

fun set_poolProcess :: "NlsType \<Rightarrow> ConnectedPoolProcess \<Rightarrow> ConnectedPool \<Rightarrow> ConnectedPool" where
  "set_poolProcess TypeAsr pp p = p\<lparr>srRequests := pp\<rparr>"
| "set_poolProcess TypeRealTime pp p = p\<lparr>stRequests := pp\<rparr>"
| "set_poolProcess TypeTts pp p = p\<lparr>syRequests := pp\<rparr>"
| "set_poolProcess TypeStreamInputTts pp p = p\<lparr>fssRequests := pp\<rparr>"
| "set_poolProcess _ pp p = p"

text \<open>The two vectors of a process, the status of their live slots, and their index lists.\<close>

datatype kind = Prestarted | Preconnected

fun slots :: "kind \<Rightarrow> ConnectedPoolProcess \<Rightarrow> ConnectedNodeProcess list" where
  "slots Prestarted pp = prestartedRequests pp"
| "slots Preconnected pp = preconnectedRequests pp"

fun set_slots :: "kind \<Rightarrow> ConnectedNodeProcess list \<Rightarrow> ConnectedPoolProcess \<Rightarrow> ConnectedPoolProcess" where
  "set_slots Prestarted ss pp = pp\<lparr>prestartedRequests := ss\<rparr>"
| "set_slots Preconnected ss pp = pp\<lparr>preconnectedRequests := ss\<rparr>"

fun index_list :: "kind \<Rightarrow> ConnectedPoolProcess \<Rightarrow> int list" where
  "index_list Prestarted pp = prestartedIndexList pp"
| "index_list Preconnected pp = preconnectedIndexList pp"

fun set_index_list :: "kind \<Rightarrow> int list \<Rightarrow> ConnectedPoolProcess \<Rightarrow> ConnectedPoolProcess" where
  "set_index_list Prestarted l pp = pp\<lparr>prestartedIndexList := l\<rparr>"
| "set_index_list Preconnected l pp = pp\<lparr>preconnectedIndexList := l\<rparr>"

fun live :: "kind \<Rightarrow> ConnectedStatus" where
  "live Prestarted = PreNodeStarted"
| "live Preconnected = PreNodeConnected"

definition upd_slot :: "kind \<Rightarrow> nat \<Rightarrow> (ConnectedNodeProcess \<Rightarrow> ConnectedNodeProcess) \<Rightarrow>
    ConnectedPoolProcess \<Rightarrow> ConnectedPoolProcess" where
  "upd_slot k i f pp = set_slots k ((slots k pp)[i := f (slots k pp ! i)]) pp"

section \<open>Index lists\<close>

definition insertListInOrder :: "int list \<Rightarrow> int \<Rightarrow> int list" where
  "insertListInOrder lst a = lower_bound_insert lst a"

definition removeElement :: "int list \<Rightarrow> int \<Rightarrow> int list" where
  "removeElement lst a = removeAll a lst"

fun popListFront :: "int list \<Rightarrow> int \<times> int list" where
  "popListFront [] = (0, [])"
| "popListFront (i # lst) = (i, lst)"

section \<open>Counting and initializing\<close>

definition getNumberOfThisTypeNodes :: "NlsType \<Rightarrow> ConnectedPool \<Rightarrow> nat \<times> nat" where
  "getNumberOfThisTypeNodes type p =
    (case poolProcess type p of
       None \<Rightarrow> (0, 0)
     | Some pp \<Rightarrow> (length (prestartedRequests pp), length (preconnectedRequests pp)))"

definition count_live :: "kind \<Rightarrow> NlsType \<Rightarrow> ConnectedPool \<Rightarrow> nat" where
  "count_live k type p =
    (case poolProcess type p of
       None \<Rightarrow> 0
     | Some pp \<Rightarrow> length (filter (\<lambda>s. status s = live k) (slots k pp)))"

definition getNumberOfPreconnectedNodes :: "NlsType \<Rightarrow> ConnectedPool \<Rightarrow> nat" where
  "getNumberOfPreconnectedNodes type p = count_live Preconnected type p"

definition getNumberOfPrestartedNodes :: "NlsType \<Rightarrow> ConnectedPool \<Rightarrow> nat" where
  "getNumberOfPrestartedNodes type p = count_live Prestarted type p"

definition grow :: "NlsType \<Rightarrow> nat \<Rightarrow> ConnectedNodeProcess list \<Rightarrow> ConnectedNodeProcess list" where
  "grow type n ss = ss @ replicate (n - length ss) (new_slot type)"

definition initThisNodesPool :: "NlsType \<Rightarrow> ConnectedPool \<Rightarrow> ConnectedPool" where
  "initThisNodesPool type p =
    (case poolProcess type p of
       None \<Rightarrow> p
     | Some pp \<Rightarrow>
         let n = maxPreconnectedNumber p
         in set_poolProcess type
              (pp\<lparr>prestartedRequests := grow type n (prestartedRequests pp),
                 preconnectedRequests := grow type n (preconnectedRequests pp)\<rparr>) p)"

definition ensure_pool :: "NlsType \<Rightarrow> ConnectedPool \<Rightarrow> ConnectedPool" where
  "ensure_pool type p =
    (let (prestarted, preconnected) = getNumberOfThisTypeNodes type p
     in if prestarted = 0 \<or> preconnected = 0 then initThisNodesPool type p else p)"

section \<open>Storing a connection\<close>

text \<open>
  \<open>curPool->size() >= index\<close> compares as \<open>size_t\<close>: a negative index becomes huge. The access
  behind the check is out of range when the index equals the size.
\<close>

definition index_guard :: "nat \<Rightarrow> int \<Rightarrow> bool" where
  "index_guard n index \<longleftrightarrow> (of_int index :: u64) \<le> of_nat n"

definition slot_at :: "ConnectedNodeProcess list \<Rightarrow> int \<Rightarrow> ConnectedNodeProcess option" where
  "slot_at ss index = (if 0 \<le> index \<and> nat index < length ss then Some (ss ! nat index) else None)"

definition same_connection :: "ConnectNode \<Rightarrow> int \<Rightarrow> ptr \<Rightarrow> bool" where
  "same_connection n fd ssl \<longleftrightarrow> n_socketFd n = fd \<and> n_sslHandle n = ssl"

text \<open>Whether the slot at the node's own index is live and its request has the same connection.\<close>

definition existing_slot :: "heap \<Rightarrow> kind \<Rightarrow> ConnectedPoolProcess \<Rightarrow> ConnectNode \<Rightarrow> bool option" where
  "existing_slot h k pp n =
    (if index_guard (length (slots k pp)) (n_poolIndex n) then do {
       s \<leftarrow> slot_at (slots k pp) (n_poolIndex n);
       if status s = live k then do {
         it \<leftarrow> node_of h (request s);
         Some (same_connection it (n_socketFd n) (n_sslHandle n)) }
       else Some False }
     else Some False)"

definition free_slot :: "ConnectedNodeProcess \<Rightarrow> bool" where
  "free_slot s \<longleftrightarrow> status s = PreNodeToBeCreated \<and> \<not> shouldRelease s \<and> request s = NULL"

text \<open>The token's limit, capped at 12 hours from now and one hour before it expires.\<close>

definition token_limit :: "u64 \<Rightarrow> u64 \<Rightarrow> u64 \<Rightarrow> u64" where
  "token_limit now token old =
    (if 3600000 < token then
       (if now + 43200000 \<le> token then now + 43200000
        else if now + 3600000 \<le> token then token - 3600000 else token)
     else old)"

definition refresh_slot :: "u64 \<Rightarrow> ConnectedNodeProcess \<Rightarrow> ConnectedNodeProcess" where
  "refresh_slot last_op s =
    s\<lparr>workableTimestamp := last_op, canPick := False, curRequestInvalid := True\<rparr>"

definition fill_slot :: "kind \<Rightarrow> u64 \<Rightarrow> ptr \<Rightarrow> ConnectNode \<Rightarrow> INlsRequestParam \<Rightarrow>
    ConnectedNodeProcess \<Rightarrow> ConnectedNodeProcess" where
  "fill_slot k now req n prm s =
    s\<lparr>cn_type := p_mode (p_conn prm), status := live k, workableTimestamp := n_last_op n,
      startTimestamp := n_last_op n,
      ttsVersion := (if p_mode (p_conn prm) = TypeTts then p_version prm else ttsVersion s),
      sdkName := p_sdkName (p_conn prm), startedResponse := [], request := req,
      socketFd := n_socketFd n, sslHandle := n_sslHandle n, canPick := False,
      curRequest := NULL, shouldRelease := False, shouldPreconnect := False,
      curRequestInvalid := False, isAbnormal := False,
      tokenExpirationTimestamp :=
        token_limit now (p_tokenExpirationTime prm) (tokenExpirationTimestamp s)\<rparr>"

definition store_new :: "kind \<Rightarrow> u64 \<Rightarrow> heap \<Rightarrow> ConnectedPool \<Rightarrow> ptr \<Rightarrow> NlsType \<Rightarrow>
    ConnectedPoolProcess \<Rightarrow> ConnectNode \<Rightarrow> (bool \<times> heap \<times> ConnectedPool) option" where
  "store_new k now h p req type pp n =
    (case first_index free_slot (slots k pp) of
       None \<Rightarrow> Some (False, h, p)
     | Some i \<Rightarrow> do {
         prm \<leftarrow> getRequestParam h req;
         h \<leftarrow> update_node h req (\<lambda>n. n\<lparr>n_poolIndex := int i\<rparr>);
         Some (True, h, set_poolProcess type
           ((upd_slot k i (fill_slot k now req n prm) pp)\<lparr>work := True\<rparr>) p) })"

definition push_node :: "kind \<Rightarrow> u64 \<Rightarrow> heap \<Rightarrow> ConnectedPool \<Rightarrow> ptr \<Rightarrow> NlsType \<Rightarrow> bool \<Rightarrow>
    (bool \<times> heap \<times> ConnectedPool) option" where
  "push_node k now h p req type newNode =
    (if req = NULL then Some (False, h, p)
     else do {
       n \<leftarrow> node_of h req;
       let p = ensure_pool type p;
       case poolProcess type p of
         None \<Rightarrow> Some (False, h, p)
       | Some pp \<Rightarrow> do {
           ex \<leftarrow> (if newNode then Some False else existing_slot h k pp n);
           if ex then
             Some (True, h, set_poolProcess type
               (upd_slot k (nat (n_poolIndex n)) (refresh_slot (n_last_op n)) pp) p)
           else store_new k now h p req type pp n } })"

definition pushPreconnectedNode :: "u64 \<Rightarrow> heap \<Rightarrow> ConnectedPool \<Rightarrow> ptr \<Rightarrow> NlsType \<Rightarrow> bool \<Rightarrow>
    (bool \<times> heap \<times> ConnectedPool) option" where
  "pushPreconnectedNode = push_node Preconnected"

definition pushPrestartedNode :: "u64 \<Rightarrow> heap \<Rightarrow> ConnectedPool \<Rightarrow> ptr \<Rightarrow> NlsType \<Rightarrow> bool \<Rightarrow>
    (bool \<times> heap \<times> ConnectedPool) option" where
  "pushPrestartedNode = push_node Prestarted"

text \<open>
  Moving a connection from its preconnected slot to a free prestarted one. The slot is filled
  from the request the old slot holds (its flags are left as they are), and the old slot is
  cleared in any case.
\<close>

definition move_slot :: "u64 \<Rightarrow> ConnectNode \<Rightarrow> INlsRequestParam \<Rightarrow> ptr \<Rightarrow> ConnectNode \<Rightarrow>
    INlsRequestParam \<Rightarrow> ConnectedNodeProcess \<Rightarrow> ConnectedNodeProcess" where
  "move_slot now n prm orig on oprm s =
    s\<lparr>cn_type := p_mode (p_conn oprm), status := PreNodeStarted, workableTimestamp := n_last_op on,
      startTimestamp := n_last_op on,
      ttsVersion := (if p_mode (p_conn oprm) = TypeTts then p_version oprm else ttsVersion s),
      sdkName := p_sdkName (p_conn prm), startedResponse := [], request := orig,
      socketFd := n_socketFd n, sslHandle := n_sslHandle n, canPick := False,
      curRequest := NULL,
      tokenExpirationTimestamp :=
        token_limit now (p_tokenExpirationTime oprm) (tokenExpirationTimestamp s)\<rparr>"

definition move_to_prestarted :: "u64 \<Rightarrow> heap \<Rightarrow> ConnectedPoolProcess \<Rightarrow> ptr \<Rightarrow> ConnectNode \<Rightarrow> ptr \<Rightarrow>
    ConnectNode \<Rightarrow> (bool \<times> heap \<times> ConnectedPoolProcess) option" where
  "move_to_prestarted now h pp req n orig on =
    (case first_index free_slot (prestartedRequests pp) of
       None \<Rightarrow> Some (False, h, pp)
     | Some j \<Rightarrow> do {
         oprm \<leftarrow> getRequestParam h orig;
         prm \<leftarrow> getRequestParam h req;
         h \<leftarrow> update_node h orig (\<lambda>n. n\<lparr>n_poolIndex := int j\<rparr>);
         Some (True, h, (upd_slot Prestarted j (move_slot now n prm orig on oprm) pp)\<lparr>work := True\<rparr>) })"

definition pushPrestartedNodeFromPreconnected :: "u64 \<Rightarrow> heap \<Rightarrow> ConnectedPool \<Rightarrow> ptr \<Rightarrow> NlsType \<Rightarrow>
    (bool \<times> heap \<times> ConnectedPool) option" where
  "pushPrestartedNodeFromPreconnected now h p req type =
    (if req = NULL then Some (False, h, p)
     else do {
       n \<leftarrow> node_of h req;
       if n_poolIndex n < 0 then Some (False, h, p)
       else case poolProcess type p of
         None \<Rightarrow> Some (False, h, p)
       | Some pp \<Rightarrow>
           if index_guard (length (preconnectedRequests pp)) (n_poolIndex n) then do {
             s \<leftarrow> slot_at (preconnectedRequests pp) (n_poolIndex n);
             if status s = PreNodeConnected then do {
               on \<leftarrow> node_of h (request s);
               if same_connection on (n_socketFd n) (n_sslHandle n) then do {
                 (result, h, pp) \<leftarrow> move_to_prestarted now h pp req n (request s) on;
                 Some (result, h, set_poolProcess type
                   (upd_slot Preconnected (nat (n_poolIndex n)) clearNode pp) p) }
               else Some (False, h, p) }
             else Some (False, h, p) }
           else Some (False, h, p) })"

section \<open>Queries and marks by connection\<close>

text \<open>The first live slot of a vector that satisfies \<open>P\<close>, if the type has a live slot at all.\<close>

definition find_live :: "kind \<Rightarrow> NlsType \<Rightarrow> (ConnectedNodeProcess \<Rightarrow> bool) \<Rightarrow> ConnectedPool \<Rightarrow>
    (ConnectedPoolProcess \<times> nat) option" where
  "find_live k type P p =
    (if count_live k type p = 0 then None
     else do {
       pp \<leftarrow> poolProcess type p;
       i \<leftarrow> first_index (\<lambda>s. status s = live k \<and> P s) (slots k pp);
       Some (pp, i) })"

definition same_slot :: "int \<Rightarrow> ptr \<Rightarrow> ConnectedNodeProcess \<Rightarrow> bool" where
  "same_slot fd ssl s \<longleftrightarrow> fd = socketFd s \<and> ssl = sslHandle s"

text \<open>The result and the two output arguments (left as they were when nothing is found).\<close>

definition sslBelongToPool :: "heap \<Rightarrow> ConnectedPool \<Rightarrow> ptr \<Rightarrow> NlsType \<Rightarrow> bool \<Rightarrow> bool \<Rightarrow>
    (bool \<times> bool \<times> bool) option" where
  "sslBelongToPool h p req type oriRequestIsAbnormal requestInPool = do {
     n \<leftarrow> node_of h req;
     let P = same_slot (n_socketFd n) (n_sslHandle n);
     Some (case find_live Prestarted type P p of
         Some (pp, i) \<Rightarrow>
           let s = slots Prestarted pp ! i
           in (True, isAbnormal s, requestInPool \<or> req = request s)
       | None \<Rightarrow>
           (case find_live Preconnected type P p of
              Some (pp, i) \<Rightarrow>
                let s = slots Preconnected pp ! i
                in (True, isAbnormal s, requestInPool \<or> req = request s)
            | None \<Rightarrow> (False, oriRequestIsAbnormal, requestInPool))) }"

definition mark_abnormal :: "kind \<Rightarrow> nat \<Rightarrow> ConnectedPoolProcess \<Rightarrow> ConnectedPoolProcess" where
  "mark_abnormal k i pp =
    set_index_list k (removeElement (index_list k pp) (int i))
      (upd_slot k i (\<lambda>s. s\<lparr>isAbnormal := True\<rparr>) pp)"

definition curRequestIsAbnormal :: "heap \<Rightarrow> ConnectedPool \<Rightarrow> ptr \<Rightarrow> NlsType \<Rightarrow> ConnectedPool option" where
  "curRequestIsAbnormal h p req type = do {
     n \<leftarrow> node_of h req;
     let P = same_slot (n_socketFd n) (n_sslHandle n);
     Some (case find_live Prestarted type P p of
         Some (pp, i) \<Rightarrow> set_poolProcess type (mark_abnormal Prestarted i pp) p
       | None \<Rightarrow>
           (case find_live Preconnected type P p of
              Some (pp, i) \<Rightarrow> set_poolProcess type (mark_abnormal Preconnected i pp) p
            | None \<Rightarrow> p)) }"

text \<open>
  \<open>finishPushPreNode\<close> searches from the index it is given (0 for a negative one); starting
  behind the end of the vector is undefined. The log line reads the slot's request.
\<close>

definition find_from :: "kind \<Rightarrow> NlsType \<Rightarrow> nat \<Rightarrow> int \<Rightarrow> ptr \<Rightarrow> ConnectedPool \<Rightarrow>
    (ConnectedPoolProcess \<times> nat) option option" where
  "find_from k type start fd ssl p =
    (if count_live k type p = 0 then Some None
     else case poolProcess type p of
       None \<Rightarrow> Some None
     | Some pp \<Rightarrow>
         if length (slots k pp) < start then None
         else Some (map_option (Pair pp)
           (first_index_from (\<lambda>s. status s = live k \<and> same_slot fd ssl s) start (slots k pp))))"

definition make_pickable :: "kind \<Rightarrow> nat \<Rightarrow> ConnectedPoolProcess \<Rightarrow> ConnectedPoolProcess" where
  "make_pickable k i pp =
    set_index_list k (insertListInOrder (index_list k pp) (int i))
      (upd_slot k i (\<lambda>s. s\<lparr>canPick := True, curRequest := NULL, curRequestInvalid := False\<rparr>) pp)"

definition finish_kind :: "kind \<Rightarrow> heap \<Rightarrow> ConnectedPool \<Rightarrow> NlsType \<Rightarrow> int \<Rightarrow> ptr \<Rightarrow> nat \<Rightarrow>
    ConnectedPool option option" where
  "finish_kind k h p type fd ssl start = do {
     found \<leftarrow> find_from k type start fd ssl p;
     case found of
       None \<Rightarrow> Some None
     | Some (pp, i) \<Rightarrow> do {
         _ \<leftarrow> getConnectNode h (request (slots k pp ! i));
         Some (Some (set_poolProcess type (make_pickable k i pp) p)) } }"

definition finishPushPreNode :: "heap \<Rightarrow> ConnectedPool \<Rightarrow> NlsType \<Rightarrow> int \<Rightarrow> ptr \<Rightarrow> int \<Rightarrow>
    ConnectedPool option" where
  "finishPushPreNode h p type curSocketFd curSslHandle index = do {
     let findIndex = (if 0 \<le> index then nat index else 0);
     r \<leftarrow> finish_kind Prestarted h p type curSocketFd curSslHandle findIndex;
     case r of
       Some p' \<Rightarrow> Some p'
     | None \<Rightarrow> do {
         r \<leftarrow> finish_kind Preconnected h p type curSocketFd curSslHandle findIndex;
         Some (case r of Some p' \<Rightarrow> p' | None \<Rightarrow> p) } }"

section \<open>Queries and deletion by request\<close>

text \<open>
  The comparison of the two node pointers is only reached when the two request pointers are
  equal; it follows them, so that the request must not have been deleted.
\<close>

definition match_request :: "kind \<Rightarrow> heap \<Rightarrow> ConnectedPool \<Rightarrow> ptr \<Rightarrow> NlsType \<Rightarrow>
    (ConnectedPoolProcess \<times> nat) option option" where
  "match_request k h p req type =
    (case find_live k type (\<lambda>s. req = request s) p of
       None \<Rightarrow> Some None
     | Some r \<Rightarrow> do { _ \<leftarrow> getConnectNode h req; Some (Some r) })"

definition requestInPool :: "heap \<Rightarrow> ConnectedPool \<Rightarrow> ptr \<Rightarrow> NlsType \<Rightarrow> bool option" where
  "requestInPool h p req type = do {
     r \<leftarrow> match_request Prestarted h p req type;
     if r \<noteq> None then Some True
     else do {
       r \<leftarrow> match_request Preconnected h p req type;
       Some (r \<noteq> None) } }"

definition deletePreNodeByRequest :: "heap \<Rightarrow> ConnectedPool \<Rightarrow> ptr \<Rightarrow> NlsType \<Rightarrow>
    (bool \<times> ConnectedPool) option" where
  "deletePreNodeByRequest h p req type = do {
     r \<leftarrow> match_request Prestarted h p req type;
     case r of
       Some (pp, i) \<Rightarrow> Some (True, set_poolProcess type (upd_slot Prestarted i clearNode pp) p)
     | None \<Rightarrow> do {
         r \<leftarrow> match_request Preconnected h p req type;
         case r of
           Some (pp, i) \<Rightarrow> Some (True, set_poolProcess type (upd_slot Preconnected i clearNode pp) p)
         | None \<Rightarrow> Some (False, p) } }"

definition delete_slot :: "kind \<Rightarrow> heap \<Rightarrow> ConnectedPool \<Rightarrow> NlsType \<Rightarrow> ConnectedPoolProcess \<Rightarrow> nat \<Rightarrow>
    (heap \<times> ConnectedPool) option" where
  "delete_slot k h p type pp i = do {
     let s = slots k pp ! i;
     h \<leftarrow> (if request s \<noteq> NULL then delete_request h (request s) else Some h);
     Some (h, set_poolProcess type (upd_slot k i clearNode pp) p) }"

definition deletePreNodeBySSL :: "heap \<Rightarrow> ConnectedPool \<Rightarrow> ptr \<Rightarrow> NlsType \<Rightarrow>
    (bool \<times> heap \<times> ConnectedPool) option" where
  "deletePreNodeBySSL h p curSslHandle type =
    (case find_live Prestarted type (\<lambda>s. sslHandle s = curSslHandle) p of
       Some (pp, i) \<Rightarrow> do { (h, p) \<leftarrow> delete_slot Prestarted h p type pp i; Some (True, h, p) }
     | None \<Rightarrow>
         (case find_live Preconnected type (\<lambda>s. sslHandle s = curSslHandle) p of
            Some (pp, i) \<Rightarrow> do { (h, p) \<leftarrow> delete_slot Preconnected h p type pp i; Some (True, h, p) }
          | None \<Rightarrow> Some (False, h, p)))"

section \<open>Taking a connection\<close>

text \<open>The parameter test of the two pops: the prestarted one compares with the parameters of
the slot's request, the preconnected one with the name and version stored in the slot.\<close>

definition equal_prestarted :: "NlsType \<Rightarrow> INlsRequestParam \<Rightarrow> ConnectedNodeProcess \<Rightarrow>
    INlsRequestParam \<Rightarrow> bool" where
  "equal_prestarted type prm s inPool \<longleftrightarrow>
    param_eq inPool prm \<and> p_sdkName (p_conn inPool) = p_sdkName (p_conn prm) \<and>
    (type = TypeTts \<longrightarrow> p_version inPool = p_version prm)"

definition equal_preconnected :: "NlsType \<Rightarrow> INlsRequestParam \<Rightarrow> ConnectedNodeProcess \<Rightarrow>
    INlsRequestParam \<Rightarrow> bool" where
  "equal_preconnected type prm s inPool \<longleftrightarrow>
    param_eq inPool prm \<and> sdkName s = p_sdkName (p_conn prm) \<and>
    (type = TypeTts \<longrightarrow> ttsVersion s = p_version prm)"

text \<open>The loop: the first slot that is live, can be picked and passes the test.\<close>

type_synonym param_test = "INlsRequestParam \<Rightarrow> ConnectedNodeProcess \<Rightarrow> INlsRequestParam \<Rightarrow> bool"

fun find_pick :: "heap \<Rightarrow> kind \<Rightarrow> param_test \<Rightarrow> ptr \<Rightarrow> nat \<Rightarrow> ConnectedNodeProcess list \<Rightarrow>
    nat option option" where
  "find_pick h k eq req i [] = Some None"
| "find_pick h k eq req i (s # ss) =
     (if status s = live k \<and> canPick s then do {
        prm \<leftarrow> getRequestParam h req;
        inPool \<leftarrow> getRequestParam h (request s);
        if eq prm s inPool then Some (Some i) else find_pick h k eq req (Suc i) ss }
      else find_pick h k eq req (Suc i) ss)"

text \<open>
  The request's own SSL handle and socket are given up, and the slot's are put in their place
  together with the address; the slot remembers who uses it.
\<close>

definition take_connection :: "heap \<Rightarrow> ptr \<Rightarrow> ConnectedNodeProcess \<Rightarrow> nat \<Rightarrow> heap option" where
  "take_connection h req s i = do {
     n \<leftarrow> node_of h req;
     h \<leftarrow> delete_ssl h (n_sslHandle n);
     let h = closesocket h (n_socketFd n);
     src \<leftarrow> node_of h (request s);
     update_node h req (\<lambda>n. n\<lparr>n_sslHandle := sslHandle s, n_socketFd := socketFd s,
       n_url := n_url src, n_poolIndex := int i\<rparr>) }"

definition occupy :: "ptr \<Rightarrow> ConnectedNodeProcess \<Rightarrow> ConnectedNodeProcess" where
  "occupy req s = s\<lparr>canPick := False, curRequest := req, curRequestInvalid := False\<rparr>"

text \<open>\<open>lk\<close> is the index list the operation uses.\<close>

definition pop_one :: "kind \<Rightarrow> kind \<Rightarrow> param_test \<Rightarrow> heap \<Rightarrow> ConnectedPool \<Rightarrow> ptr \<Rightarrow> NlsType \<Rightarrow> (bool \<times> heap \<times> ConnectedPool) option" where
  "pop_one k lk eq h p req type =
    (case poolProcess type p of
       None \<Rightarrow> Some (False, h, p)
     | Some pp \<Rightarrow> do {
         let (popIndex, lst) = popListFront (index_list lk pp);
         let pp = set_index_list lk lst pp;
         if popIndex < 0 \<or> int (length (slots k pp)) < popIndex then None
         else do {
           found \<leftarrow> find_pick h k eq req (nat popIndex) (drop (nat popIndex) (slots k pp));
           case found of
             None \<Rightarrow> Some (False, h, set_poolProcess type pp p)
           | Some i \<Rightarrow> do {
               h \<leftarrow> take_connection h req (slots k pp ! i) i;
               Some (True, h, set_poolProcess type
                 (set_index_list lk (removeElement lst (int i))
                   (upd_slot k i (occupy req) pp)) p) } } })"

definition popOnePreconnectedNode :: "heap \<Rightarrow> ConnectedPool \<Rightarrow> ptr \<Rightarrow> NlsType \<Rightarrow>
    (bool \<times> heap \<times> ConnectedPool) option" where
  "popOnePreconnectedNode h p req type =
    pop_one Preconnected (if type = TypeAsr then Prestarted else Preconnected)
      (equal_preconnected type) h p req type"

definition popOnePrestartedNode :: "heap \<Rightarrow> ConnectedPool \<Rightarrow> ptr \<Rightarrow> NlsType \<Rightarrow>
    (bool \<times> heap \<times> ConnectedPool) option" where
  "popOnePrestartedNode h p req type =
    pop_one Prestarted Prestarted (equal_prestarted type) h p req type"

definition popPrestartedNode :: "heap \<Rightarrow> ConnectedPool \<Rightarrow> ptr \<Rightarrow> NlsType \<Rightarrow>
    (bool \<times> heap \<times> ConnectedPool) option" where
  "popPrestartedNode h p req type =
    (if req = NULL then Some (False, h, p)
     else
       let (prestarted, preconnected) = getNumberOfThisTypeNodes type p
       in if prestarted = 0 \<or> preconnected = 0 then Some (False, h, initThisNodesPool type p)
          else if 0 < getNumberOfPrestartedNodes type p then popOnePrestartedNode h p req type
          else Some (False, h, p))"

definition popPreconnectedNode :: "heap \<Rightarrow> ConnectedPool \<Rightarrow> ptr \<Rightarrow> NlsType \<Rightarrow>
    (bool \<times> heap \<times> ConnectedPool) option" where
  "popPreconnectedNode h p req type =
    (if req = NULL then Some (False, h, p)
     else
       let (prestarted, preconnected) = getNumberOfThisTypeNodes type p
       in if prestarted = 0 \<or> preconnected = 0 then Some (False, h, initThisNodesPool type p)
          else if 0 < getNumberOfPreconnectedNodes type p then popOnePreconnectedNode h p req type
          else Some (False, h, p))"

text \<open>\<open>ConnectNode::tryToGetPreconnection\<close>: a started connection, else an established one.\<close>

definition tryToGetPreconnection :: "heap \<Rightarrow> ConnectedPool \<Rightarrow> ptr \<Rightarrow> NlsType \<Rightarrow>
    (ConnectedStatus \<times> heap \<times> ConnectedPool) option" where
  "tryToGetPreconnection h p req type = do {
     (popPreNode, h, p) \<leftarrow> popPrestartedNode h p req type;
     if popPreNode then Some (PreNodeStarted, h, p)
     else do {
       (popPreNode, h, p) \<leftarrow> popPreconnectedNode h p req type;
       Some (if popPreNode then PreNodeConnected else PreNodeInvalid, h, p) } }"

section \<open>The timer\<close>

text \<open>
  Each slot reads the clock (\<open>now\<close>) and, when it is not due, the result of a synchronous PING
  on the connection (\<open>ping\<close>). The result tells whether the slot is to be released; the slot's
  request is deleted later.
\<close>

definition refresh_from_user :: "heap \<Rightarrow> ConnectedNodeProcess \<Rightarrow> ConnectedNodeProcess option" where
  "refresh_from_user h s =
    (if \<not> curRequestInvalid s \<and> curRequest s \<noteq> NULL then do {
       n \<leftarrow> node_of h (curRequest s);
       Some (if 0 < n_last_op n then s\<lparr>workableTimestamp := n_last_op n\<rparr> else s) }
     else Some s)"

definition ping_result :: "heap \<Rightarrow> int \<Rightarrow> ConnectedNodeProcess \<Rightarrow> int option" where
  "ping_result h ping s =
    (if request s \<noteq> NULL then do { _ \<leftarrow> node_of h (request s); Some ping } else Some Success)"

definition timeout_prestarted_slot :: "heap \<Rightarrow> u32 \<Rightarrow> u64 \<Rightarrow> int \<Rightarrow> ConnectedNodeProcess \<Rightarrow>
    (ConnectedNodeProcess \<times> bool) option" where
  "timeout_prestarted_slot h limit now ping s =
    (if status s \<noteq> PreNodeStarted then Some (s, False)
     else do {
       s \<leftarrow> refresh_from_user h s;
       let timeout = (ucast limit \<le> now - workableTimestamp s);
       let tokenTimeout = (0 < tokenExpirationTimestamp s \<and> tokenExpirationTimestamp s \<le> now);
       if timeout \<or> tokenTimeout then
         (if curRequest s = NULL then
            Some (s\<lparr>status := PreNodeToBeCreated, startTimestamp := 0, workableTimestamp := 0,
              tokenExpirationTimestamp := 0, socketFd := INVALID_SOCKET, sslHandle := NULL,
              ttsVersion := 0, sdkName := [], startedResponse := [], canPick := False,
              curRequestInvalid := False, shouldRelease := True,
              shouldPreconnect := (if tokenTimeout then shouldPreconnect s else True)\<rparr>, True)
          else Some (s, False))
       else do {
         pingResult \<leftarrow> ping_result h ping s;
         if pingResult \<noteq> Success then
           Some (s\<lparr>status := PreNodeToBeCreated, startTimestamp := 0, workableTimestamp := 0,
             socketFd := INVALID_SOCKET, sslHandle := NULL, ttsVersion := 0, sdkName := [],
             startedResponse := [], canPick := False, shouldPreconnect := False,
             curRequestInvalid := False, shouldRelease := True\<rparr>, True)
         else Some (s, False) } })"

definition timeout_preconnected_slot :: "heap \<Rightarrow> u32 \<Rightarrow> u64 \<Rightarrow> int \<Rightarrow> ConnectedNodeProcess \<Rightarrow>
    (ConnectedNodeProcess \<times> bool) option" where
  "timeout_preconnected_slot h limit now ping s =
    (if status s \<noteq> PreNodeConnected then Some (s, False)
     else do {
       s \<leftarrow> refresh_from_user h s;
       let timeout = (ucast limit \<le> now - workableTimestamp s);
       let tokenTimeout = (0 < tokenExpirationTimestamp s \<and> tokenExpirationTimestamp s \<le> now);
       if timeout \<or> tokenTimeout then
         (if curRequest s = NULL then
            Some (s\<lparr>status := PreNodeToBeCreated, startTimestamp := 0, workableTimestamp := 0,
              socketFd := INVALID_SOCKET, sslHandle := NULL, ttsVersion := 0,
              startedResponse := [], canPick := False, shouldRelease := True,
              shouldPreconnect := (if tokenTimeout then shouldPreconnect s else True),
              curRequestInvalid := False\<rparr>, True)
          else Some (s, False))
       else do {
         pingResult \<leftarrow> ping_result h ping s;
         if pingResult \<noteq> Success then
           Some (s\<lparr>status := PreNodeToBeCreated, startTimestamp := 0, workableTimestamp := 0,
             tokenExpirationTimestamp := 0, socketFd := INVALID_SOCKET, sslHandle := NULL,
             ttsVersion := 0, sdkName := [], startedResponse := [], canPick := False,
             shouldPreconnect := False, curRequestInvalid := False, shouldRelease := True\<rparr>, True)
         else Some (s, False) } })"

text \<open>The loop over a vector; \<open>now i\<close> and \<open>ping i\<close> are what slot \<open>i\<close> reads.\<close>

fun timeout_loop :: "(u64 \<Rightarrow> int \<Rightarrow> ConnectedNodeProcess \<Rightarrow> (ConnectedNodeProcess \<times> bool) option) \<Rightarrow>
    (nat \<Rightarrow> u64) \<Rightarrow> (nat \<Rightarrow> int) \<Rightarrow> nat \<Rightarrow> ConnectedNodeProcess list \<Rightarrow>
    (nat \<times> ConnectedNodeProcess list) option" where
  "timeout_loop f now ping i [] = Some (0, [])"
| "timeout_loop f now ping i (s # ss) = do {
     (s', released) \<leftarrow> f (now i) (ping i) s;
     (n, ss') \<leftarrow> timeout_loop f now ping (Suc i) ss;
     Some ((if released then Suc n else n), s' # ss') }"

definition timeoutPrestartedNode :: "heap \<Rightarrow> u32 \<Rightarrow> (nat \<Rightarrow> u64) \<Rightarrow> (nat \<Rightarrow> int) \<Rightarrow>
    ConnectedNodeProcess list \<Rightarrow> (nat \<times> ConnectedNodeProcess list) option" where
  "timeoutPrestartedNode h limit now ping ss =
    timeout_loop (timeout_prestarted_slot h limit) now ping 0 ss"

definition timeoutPreconnectedNode :: "heap \<Rightarrow> u32 \<Rightarrow> (nat \<Rightarrow> u64) \<Rightarrow> (nat \<Rightarrow> int) \<Rightarrow>
    ConnectedNodeProcess list \<Rightarrow> (nat \<times> ConnectedNodeProcess list) option" where
  "timeoutPreconnectedNode h limit now ping ss =
    timeout_loop (timeout_preconnected_slot h limit) now ping 0 ss"

text \<open>
  \<open>connectPoolEventCallback\<close> checks the four types in a fixed order, skipping those whose pool
  has never been used. The clock and PING readings are per type, vector and slot. The result
  is the number of slots to release; a positive one activates the release event.
\<close>

type_synonym 'a readings = "NlsType \<Rightarrow> kind \<Rightarrow> nat \<Rightarrow> 'a"

definition timeout_type :: "heap \<Rightarrow> u64 readings \<Rightarrow> int readings \<Rightarrow> NlsType \<Rightarrow> ConnectedPool \<Rightarrow>
    (nat \<times> ConnectedPool) option" where
  "timeout_type h now ping type p =
    (case poolProcess type p of
       None \<Rightarrow> Some (0, p)
     | Some pp \<Rightarrow>
         if work pp then do {
           (a, ss) \<leftarrow> timeoutPrestartedNode h (prerequestedTimeoutMs p)
             (now type Prestarted) (ping type Prestarted) (prestartedRequests pp);
           (b, cs) \<leftarrow> timeoutPreconnectedNode h (preconnectedTimeoutMs p)
             (now type Preconnected) (ping type Preconnected) (preconnectedRequests pp);
           Some (a + b, set_poolProcess type
             (pp\<lparr>prestartedRequests := ss, preconnectedRequests := cs\<rparr>) p) }
         else Some (0, p))"

definition connectPoolEventCallback :: "heap \<Rightarrow> u64 readings \<Rightarrow> int readings \<Rightarrow> bool \<Rightarrow> ConnectedPool \<Rightarrow>
    (nat \<times> ConnectedPool) option" where
  "connectPoolEventCallback h now ping ev_closed p =
    (if ev_closed then Some (0, p)
     else do {
       (a, p) \<leftarrow> timeout_type h now ping TypeStreamInputTts p;
       (b, p) \<leftarrow> timeout_type h now ping TypeAsr p;
       (c, p) \<leftarrow> timeout_type h now ping TypeRealTime p;
       (d, p) \<leftarrow> timeout_type h now ping TypeTts p;
       Some (a + b + c + d, p) })"

section \<open>Releasing and preparing again\<close>

text \<open>
  What preparing a new connection takes from outside: the addresses of the new request, node
  and SSL handle (a null request when creation fails), the node's UUID, the clock at creation and at the push,
  the parameters the factory sets up, the result of starting, whether the link was established
  and on which socket; and the client's \<open>release...Request\<close> for a failed attempt.
\<close>

record pool_env =
  e_request :: ptr
  e_node :: ptr
  e_ssl :: ptr
  e_uuid :: string
  e_created :: u64
  e_now :: u64
  e_param :: "NlsType \<Rightarrow> string \<Rightarrow> int \<Rightarrow> INlsRequestParam"
  e_startInner :: int
  e_link :: bool
  e_socketFd :: int
  e_url :: string
  e_release :: "heap \<Rightarrow> ConnectedPool \<Rightarrow> ptr \<Rightarrow> (heap \<times> ConnectedPool) option"

definition create_request :: "pool_env \<Rightarrow> heap \<Rightarrow> NlsType \<Rightarrow> string \<Rightarrow> int \<Rightarrow> bool \<Rightarrow> heap" where
  "create_request e h type sdk version longConn =
    h\<lparr>reqs := (reqs h)(e_request e \<mapsto> \<lparr>r_node = e_node e, r_param = e_param e type sdk version\<rparr>),
      nodes := (nodes h)(e_node e \<mapsto>
        \<lparr>n_request = e_request e, n_sslHandle = e_ssl e, n_nativeSslHandle = e_ssl e,
         n_socketFd = INVALID_SOCKET, n_url = [], n_poolIndex = -1, n_last_op = e_created e,
         n_isLongConnection = longConn, n_uuid = e_uuid e, n_usePreconnection = False\<rparr>),
      ssls := (ssls h)(e_ssl e := True)\<rparr>"

definition poolable :: "NlsType \<Rightarrow> bool" where
  "poolable type \<longleftrightarrow> type \<in> {TypeAsr, TypeRealTime, TypeTts, TypeStreamInputTts}"

definition set_param :: "heap \<Rightarrow> ptr \<Rightarrow> INlsRequestParam \<Rightarrow> heap option" where
  "set_param h r prm = do { req \<leftarrow> reqs h r; Some (h\<lparr>reqs := (reqs h)(r \<mapsto> req\<lparr>r_param := prm\<rparr>)\<rparr>) }"

text \<open>The new connection goes to a preconnected slot and can be picked at once; when there is
no slot, the pool is searched for its SSL handle, which is in none.\<close>

definition push_linked :: "u64 \<Rightarrow> heap \<Rightarrow> ConnectedPool \<Rightarrow> ptr \<Rightarrow> NlsType \<Rightarrow>
    (heap \<times> ConnectedPool) option" where
  "push_linked now h p r type = do {
     (result, h, p) \<leftarrow> pushPreconnectedNode now h p r type True;
     n \<leftarrow> node_of h r;
     if result then do {
       p \<leftarrow> finishPushPreNode h p type (n_socketFd n) (n_sslHandle n) (n_poolIndex n);
       Some (h, p) }
     else do {
       (_, h, p) \<leftarrow> deletePreNodeBySSL h p (n_sslHandle n) type;
       Some (h, p) } }"

definition preconnectNodeByRequest :: "pool_env \<Rightarrow> heap \<Rightarrow> ConnectedPool \<Rightarrow> ptr \<Rightarrow>
    (heap \<times> ConnectedPool) option" where
  "preconnectNodeByRequest e h p req =
    (if req = NULL then Some (h, p)
     else do {
       prm \<leftarrow> getRequestParam h req;
       node \<leftarrow> node_of h req;
       let type = p_mode (p_conn prm);
       if \<not> poolable type \<or> e_request e = NULL then Some (h, p)
       else do {
         let r = e_request e;
         let h = create_request e h type (p_sdkName (p_conn prm)) (p_version prm)
                   (n_isLongConnection node);
         newPrm \<leftarrow> getRequestParam h r;
         oldPrm \<leftarrow> getRequestParam h req;
         h \<leftarrow> set_param h r (param_assign newPrm oldPrm);
         if e_startInner e = Success \<and> e_link e then do {
           h \<leftarrow> update_node h r (\<lambda>n. n\<lparr>n_socketFd := e_socketFd e, n_url := e_url e\<rparr>);
           push_linked (e_now e) h p r type }
         else e_release e h p r } })"

text \<open>
  The loop of the release event, over the indexes of a vector. It runs without the pool's lock;
  preparing a connection again may change the vector in place, so that each iteration reads the
  current slot. \<open>env i\<close> is what iteration \<open>i\<close> meets.
\<close>

definition release_slot :: "pool_env \<Rightarrow> kind \<Rightarrow> NlsType \<Rightarrow> nat \<Rightarrow> heap \<Rightarrow> ConnectedPool \<Rightarrow>
    (heap \<times> ConnectedPool) option" where
  "release_slot e k type i h p = do {
     pp \<leftarrow> poolProcess type p;
     let s = slots k pp ! i;
     if \<not> shouldRelease s then Some (h, p)
     else do {
       let old = request s;
       (h, p) \<leftarrow>
         (if shouldPreconnect s then
            preconnectNodeByRequest e h (set_poolProcess type
              (upd_slot k i (\<lambda>s. s\<lparr>shouldRelease := False, shouldPreconnect := False\<rparr>) pp) p) old
          else Some (h, set_poolProcess type (upd_slot k i (\<lambda>s. s\<lparr>shouldRelease := False\<rparr>) pp) p));
       pp \<leftarrow> poolProcess type p;
       let old = request (slots k pp ! i);
       h \<leftarrow> (if old \<noteq> NULL then do { _ \<leftarrow> node_of h old; delete_request h old } else Some h);
       Some (h, set_poolProcess type (upd_slot k i clearNode pp) p) } }"

fun release_loop :: "(nat \<Rightarrow> pool_env) \<Rightarrow> kind \<Rightarrow> NlsType \<Rightarrow> nat list \<Rightarrow> heap \<Rightarrow> ConnectedPool \<Rightarrow>
    (heap \<times> ConnectedPool) option" where
  "release_loop env k type [] h p = Some (h, p)"
| "release_loop env k type (i # is) h p = do {
     (h, p) \<leftarrow> release_slot (env i) k type i h p;
     release_loop env k type is h p }"

definition deleteOrPreconnectNodeShouldReleased :: "(nat \<Rightarrow> pool_env) \<Rightarrow> kind \<Rightarrow> NlsType \<Rightarrow> heap \<Rightarrow>
    ConnectedPool \<Rightarrow> (heap \<times> ConnectedPool) option" where
  "deleteOrPreconnectNodeShouldReleased env k type h p =
    (case poolProcess type p of
       None \<Rightarrow> Some (h, p)
     | Some pp \<Rightarrow> release_loop env k type [0..<length (slots k pp)] h p)"

definition release_type :: "pool_env readings \<Rightarrow> NlsType \<Rightarrow> heap \<Rightarrow> ConnectedPool \<Rightarrow>
    (heap \<times> ConnectedPool) option" where
  "release_type env type h p =
    (case poolProcess type p of
       None \<Rightarrow> Some (h, p)
     | Some pp \<Rightarrow>
         if work pp then do {
           (h, p) \<leftarrow> deleteOrPreconnectNodeShouldReleased (env type Prestarted) Prestarted type h p;
           deleteOrPreconnectNodeShouldReleased (env type Preconnected) Preconnected type h p }
         else Some (h, p))"

definition nodeReleaseEventCallback :: "pool_env readings \<Rightarrow> bool \<Rightarrow> heap \<Rightarrow> ConnectedPool \<Rightarrow>
    (heap \<times> ConnectedPool) option" where
  "nodeReleaseEventCallback env ev_read h p =
    (if \<not> ev_read then Some (h, p)
     else do {
       (h, p) \<leftarrow> release_type env TypeStreamInputTts h p;
       (h, p) \<leftarrow> release_type env TypeAsr h p;
       (h, p) \<leftarrow> release_type env TypeRealTime h p;
       release_type env TypeTts h p })"

text \<open>The destructor deletes the requests of every slot and empties the vectors.\<close>

fun deletePreNode :: "heap \<Rightarrow> ConnectedNodeProcess list \<Rightarrow> heap option" where
  "deletePreNode h [] = Some h"
| "deletePreNode h (s # ss) = do {
     h \<leftarrow> (if request s \<noteq> NULL then delete_request h (request s) else Some h);
     deletePreNode h ss }"

definition destroy_type :: "NlsType \<Rightarrow> heap \<Rightarrow> ConnectedPool \<Rightarrow> (heap \<times> ConnectedPool) option" where
  "destroy_type type h p =
    (case poolProcess type p of
       None \<Rightarrow> Some (h, p)
     | Some pp \<Rightarrow>
         if work pp then do {
           h \<leftarrow> deletePreNode h (prestartedRequests pp);
           h \<leftarrow> deletePreNode h (preconnectedRequests pp);
           Some (h, set_poolProcess type (pp\<lparr>prestartedRequests := [], preconnectedRequests := []\<rparr>) p) }
         else Some (h, p))"

definition destroy_ConnectedPool :: "heap \<Rightarrow> ConnectedPool \<Rightarrow> (heap \<times> ConnectedPool) option" where
  "destroy_ConnectedPool h p = do {
     (h, p) \<leftarrow> destroy_type TypeStreamInputTts h p;
     (h, p) \<leftarrow> destroy_type TypeAsr h p;
     (h, p) \<leftarrow> destroy_type TypeRealTime h p;
     destroy_type TypeTts h p }"

fun getStatusStr :: "ConnectedStatus \<Rightarrow> string" where
  "getStatusStr PreNodeInvalid = ''PreNodeInvalid''"
| "getStatusStr PreNodeToBeCreated = ''PreNodeToBeCreated''"
| "getStatusStr PreNodeCreated = ''PreNodeCreated''"
| "getStatusStr PreNodeConnected = ''PreNodeConnected''"
| "getStatusStr PreNodeStarted = ''PreNodeStarted''"

end
