(* ===== verification/PoolInvariant.thy ===== *)
theory PoolInvariant
  imports ConnectedPool
begin

text \<open>
  The invariant of the connection pool and its preservation. A slot has a position (type,
  vector, index); \<open>at\<close> reads the pool by position, and each operation changes few positions.
  The invariant has three parts: the shape of the vectors and index lists, the consistency of
  each slot's flags, and the ownership of the heap objects the slots refer to.
\<close>

lemma ex_bool [simp]: "Ex Not" "\<exists>b. b"
  by (rule exI [of _ False], simp) (rule exI [of _ True], simp)

section \<open>Reading the pool by position\<close>

definition at :: "ConnectedPool \<Rightarrow> NlsType \<Rightarrow> kind \<Rightarrow> nat \<Rightarrow> ConnectedNodeProcess option" where
  "at p t k i =
    (case poolProcess t p of
       None \<Rightarrow> None
     | Some pp \<Rightarrow> if i < length (slots k pp) then Some (slots k pp ! i) else None)"

lemma slots_set_slots [simp]:
  "slots k' (set_slots k ss pp) = (if k' = k then ss else slots k' pp)"
  by (cases k; cases k') simp_all

lemma slots_set_index_list [simp]: "slots k' (set_index_list k l pp) = slots k' pp"
  by (cases k; cases k') simp_all

lemma index_list_set_index_list [simp]:
  "index_list k' (set_index_list k l pp) = (if k' = k then l else index_list k' pp)"
  by (cases k; cases k') simp_all

lemma index_list_set_slots [simp]: "index_list k' (set_slots k ss pp) = index_list k' pp"
  by (cases k; cases k') simp_all

lemma slots_work [simp]: "slots k (pp\<lparr>work := b\<rparr>) = slots k pp"
  "index_list k (pp\<lparr>work := b\<rparr>) = index_list k pp"
  by (cases k; simp)+

lemma work_set [simp]: "work (set_slots k ss pp) = work pp" "work (set_index_list k l pp) = work pp"
  by (cases k; simp)+

lemma slots_upd_slot [simp]:
  "slots k' (upd_slot k i f pp) = (if k' = k then (slots k pp)[i := f (slots k pp ! i)] else slots k' pp)"
  "index_list k' (upd_slot k i f pp) = index_list k' pp"
  "work (upd_slot k i f pp) = work pp"
  by (simp_all add: upd_slot_def)

lemma poolProcess_set [simp]:
  "poolProcess t p = Some pp \<Longrightarrow> poolProcess t' (set_poolProcess t pp' p) = (if t' = t then Some pp' else poolProcess t' p)"
  by (cases t; cases t'; simp)

lemma set_poolProcess_params [simp]:
  "maxPreconnectedNumber (set_poolProcess t pp p) = maxPreconnectedNumber p"
  "preconnectedTimeoutMs (set_poolProcess t pp p) = preconnectedTimeoutMs p"
  "prerequestedTimeoutMs (set_poolProcess t pp p) = prerequestedTimeoutMs p"
  by (cases t; simp)+

lemma poolProcess_poolable: "poolProcess t p \<noteq> None \<longleftrightarrow> poolable t"
  by (cases t) (simp_all add: poolable_def)

lemma at_set_same:
  "poolProcess t p = Some pp \<Longrightarrow>
   at (set_poolProcess t pp' p) t' k i =
     (if t' = t then (if i < length (slots k pp') then Some (slots k pp' ! i) else None)
      else at p t' k i)"
  by (simp add: at_def)

lemma at_upd:
  assumes "poolProcess t p = Some pp" "slots k pp' = (slots k pp)[i := s]"
    "\<And>k'. k' \<noteq> k \<Longrightarrow> slots k' pp' = slots k' pp" "i < length (slots k pp)"
  shows "at (set_poolProcess t pp' p) t' k' j =
    (if t' = t \<and> k' = k \<and> j = i then Some s else at p t' k' j)"
  using assms(3) [of k'] assms(1,2,4)
  by (cases "k' = k") (auto simp: at_set_same at_def nth_list_update)

lemma at_same:
  assumes "poolProcess t p = Some pp" "\<And>k. slots k pp' = slots k pp"
  shows "at (set_poolProcess t pp' p) t' k' j = at p t' k' j"
  using assms by (simp add: at_set_same at_def)

lemma at_SomeD: "at p t k i = Some s \<Longrightarrow> \<exists>pp. poolProcess t p = Some pp \<and> i < length (slots k pp) \<and> slots k pp ! i = s"
  by (auto simp: at_def split: option.splits if_splits)

lemma at_SomeI: "poolProcess t p = Some pp \<Longrightarrow> i < length (slots k pp) \<Longrightarrow> at p t k i = Some (slots k pp ! i)"
  by (simp add: at_def)

section \<open>The invariant\<close>

subsection \<open>Shape\<close>

definition process_shape :: "nat \<Rightarrow> ConnectedPoolProcess \<Rightarrow> bool" where
  "process_shape n pp \<longleftrightarrow>
    (\<forall>k. length (slots k pp) \<in> {0, n} \<and> sorted (index_list k pp) \<and>
      set (index_list k pp) \<subseteq> {0..<int n}) \<and>
    (\<forall>k k'. length (slots k pp) = length (slots k' pp) \<and>
      (length (slots k pp) = 0 \<longrightarrow> index_list k' pp = []))"

definition pool_shape :: "ConnectedPool \<Rightarrow> bool" where
  "pool_shape p \<longleftrightarrow> maxPreconnectedNumber p < 2 ^ 31 \<and>
    (\<forall>t pp. poolProcess t p = Some pp \<longrightarrow> process_shape (maxPreconnectedNumber p) pp)"

subsection \<open>Slots\<close>

definition slot_ok :: "kind \<Rightarrow> ConnectedNodeProcess \<Rightarrow> bool" where
  "slot_ok k s \<longleftrightarrow>
    (status s = PreNodeToBeCreated \<or> status s = live k) \<and>
    (status s = live k \<longrightarrow> request s \<noteq> NULL \<and> \<not> shouldRelease s) \<and>
    (canPick s \<longrightarrow> status s = live k \<and> curRequest s = NULL) \<and>
    (shouldPreconnect s \<longrightarrow> shouldRelease s) \<and>
    (shouldRelease s \<longrightarrow> request s \<noteq> NULL)"

definition slots_ok :: "ConnectedPool \<Rightarrow> bool" where
  "slots_ok p \<longleftrightarrow> (\<forall>t k i s. at p t k i = Some s \<longrightarrow> slot_ok k s)"

lemma live_neq [simp]: "live k \<noteq> PreNodeToBeCreated" "PreNodeToBeCreated \<noteq> live k"
  by (cases k; simp)+

lemma slot_ok_new [simp]: "slot_ok k (new_slot t)"
  by (simp add: slot_ok_def new_slot_def)

lemma slot_ok_clear [simp]: "slot_ok k (clearNode s)"
  by (simp add: slot_ok_def clearNode_def)

lemma slot_ok_refresh: "slot_ok k s \<Longrightarrow> slot_ok k (refresh_slot t s)"
  by (simp add: slot_ok_def refresh_slot_def)

lemma slot_ok_fill: "req \<noteq> NULL \<Longrightarrow> slot_ok k (fill_slot k now req n prm s)"
  by (simp add: slot_ok_def fill_slot_def)

lemma slot_ok_move:
  "slot_ok Prestarted s \<Longrightarrow> free_slot s \<Longrightarrow> orig \<noteq> NULL \<Longrightarrow>
    slot_ok Prestarted (move_slot now n prm orig on oprm s)"
  by (auto simp: slot_ok_def move_slot_def free_slot_def)

lemma slot_ok_abnormal: "slot_ok k s \<Longrightarrow> slot_ok k (s\<lparr>isAbnormal := b\<rparr>)"
  by (simp add: slot_ok_def)

lemma slot_ok_pickable: "slot_ok k s \<Longrightarrow> status s = live k \<Longrightarrow>
    slot_ok k (s\<lparr>canPick := True, curRequest := NULL, curRequestInvalid := False\<rparr>)"
  by (auto simp: slot_ok_def)

lemma slot_ok_occupy: "slot_ok k s \<Longrightarrow> slot_ok k (occupy req s)"
  by (simp add: slot_ok_def occupy_def)

subsection \<open>Ownership\<close>

definition alive :: "heap \<Rightarrow> ptr \<Rightarrow> bool" where
  "alive h r \<longleftrightarrow> node_of h r \<noteq> None"

text \<open>A node that still has the handle it was created with owns it.\<close>

definition owns :: "ConnectNode \<Rightarrow> bool" where
  "owns n \<longleftrightarrow> n_sslHandle n \<noteq> NULL \<and> n_sslHandle n = n_nativeSslHandle n"

text \<open>
  Every request has its own node, and every owning node its own, living SSL handle.
\<close>

definition heap_ok :: "heap \<Rightarrow> bool" where
  "heap_ok h \<longleftrightarrow> reqs h NULL = None \<and>
    (\<forall>r req. reqs h r = Some req \<longrightarrow> nodes h (r_node req) \<noteq> None) \<and>
    (\<forall>r r' req req'. reqs h r = Some req \<longrightarrow> reqs h r' = Some req' \<longrightarrow> r_node req = r_node req' \<longrightarrow> r = r') \<and>
    (\<forall>r n. node_of h r = Some n \<longrightarrow> owns n \<longrightarrow> ssls h (n_sslHandle n)) \<and>
    (\<forall>r r' n n'. node_of h r = Some n \<longrightarrow> node_of h r' = Some n' \<longrightarrow> owns n \<longrightarrow> owns n' \<longrightarrow>
      n_sslHandle n = n_sslHandle n' \<longrightarrow> r = r')"

text \<open>
  The request of a slot lives; no two slots hold the same one; and a user whose activity the
  timer reads lives.
\<close>

definition owners_ok :: "heap \<Rightarrow> ConnectedPool \<Rightarrow> bool" where
  "owners_ok h p \<longleftrightarrow>
    (\<forall>t k i s. at p t k i = Some s \<longrightarrow> request s \<noteq> NULL \<longrightarrow> alive h (request s)) \<and>
    (\<forall>t k i s t' k' i' s'. at p t k i = Some s \<longrightarrow> at p t' k' i' = Some s' \<longrightarrow>
      request s \<noteq> NULL \<longrightarrow> request s = request s' \<longrightarrow> (t, k, i) = (t', k', i')) \<and>
    (\<forall>t k i s. at p t k i = Some s \<longrightarrow> status s = live k \<longrightarrow> curRequest s \<noteq> NULL \<longrightarrow>
      \<not> curRequestInvalid s \<longrightarrow> alive h (curRequest s))"

text \<open>A node's index is -1 or one of the pool.\<close>

definition indexes_ok :: "heap \<Rightarrow> nat \<Rightarrow> bool" where
  "indexes_ok h m \<longleftrightarrow> (\<forall>r n. node_of h r = Some n \<longrightarrow>
    n_poolIndex n = -1 \<or> (0 \<le> n_poolIndex n \<and> n_poolIndex n < int m))"

definition pool_inv :: "heap \<Rightarrow> ConnectedPool \<Rightarrow> bool" where
  "pool_inv h p \<longleftrightarrow> heap_ok h \<and> pool_shape p \<and> slots_ok p \<and> owners_ok h p \<and>
    indexes_ok h (maxPreconnectedNumber p)"

lemma new_pool_empty:
  assumes "poolProcess t (new_ConnectedPool n a b) = Some pp"
  shows "slots k pp = [] \<and> index_list k pp = []"
proof -
  have "pp = empty_process" using assms by (cases t) (simp_all add: new_ConnectedPool_def)
  then show ?thesis by (cases k) (simp_all add: empty_process_def)
qed

lemma new_pool_at [simp]: "at (new_ConnectedPool n a b) t k i = None"
  using new_pool_empty [of t n a b] by (auto simp: at_def split: option.splits)

lemma new_pool_max [simp]: "maxPreconnectedNumber (new_ConnectedPool n a b) = n"
  by (simp add: new_ConnectedPool_def)

lemma pool_inv_new:
  "heap_ok h \<Longrightarrow> n < 2 ^ 31 \<Longrightarrow> indexes_ok h n \<Longrightarrow> pool_inv h (new_ConnectedPool n a b)"
  using new_pool_empty [of _ n a b]
  by (auto simp: pool_inv_def pool_shape_def slots_ok_def owners_ok_def process_shape_def)

section \<open>Changing one position\<close>

lemma pool_shape_set:
  "pool_shape p \<Longrightarrow> poolProcess t p = Some pp \<Longrightarrow> process_shape (maxPreconnectedNumber p) pp' \<Longrightarrow>
    pool_shape (set_poolProcess t pp' p)"
  by (auto simp: pool_shape_def split: if_splits)

lemma process_shape_upd_slot [simp]:
  "process_shape n (upd_slot k i f pp) = process_shape n pp"
proof -
  have "length (slots k' (upd_slot k i f pp)) = length (slots k' pp)" for k' by simp
  then show ?thesis unfolding process_shape_def by (simp only: slots_upd_slot(2))
qed

lemma process_shape_work [simp]: "process_shape n (pp\<lparr>work := b\<rparr>) = process_shape n pp"
  by (simp add: process_shape_def)

lemma process_shape_list:
  "process_shape n pp \<Longrightarrow> sorted l \<Longrightarrow> set l \<subseteq> {0..<int n} \<Longrightarrow>
    (length (slots k pp) = 0 \<Longrightarrow> l = []) \<Longrightarrow> process_shape n (set_index_list k l pp)"
  unfolding process_shape_def by simp (metis length_0_conv)

lemma process_shapeD:
  assumes "process_shape n pp"
  shows "length (slots k pp) = 0 \<or> length (slots k pp) = n"
    and "sorted (index_list k pp)" and "set (index_list k pp) \<subseteq> {0..<int n}"
    and "length (slots k pp) = 0 \<Longrightarrow> index_list k' pp = []"
    and "length (slots k pp) = length (slots k' pp)"
  using assms unfolding process_shape_def by blast+

lemma pool_shapeD: "pool_shape p \<Longrightarrow> poolProcess t p = Some pp \<Longrightarrow> process_shape (maxPreconnectedNumber p) pp"
  by (simp add: pool_shape_def)

text \<open>The pool's index lists are ordered lists of indexes; their elements stay in range.\<close>

interpretation idx: ordered_indexes sorted set insertListInOrder removeElement popListFront
proof unfold_locales
  show "sorted (snd (popListFront l))" if "sorted l" for l using that by (cases l) auto
  show "set (snd (popListFront l)) \<subseteq> set l" for l by (cases l) auto
  show "fst (popListFront l) \<le> a \<and> fst (popListFront l) \<in> set l" if "sorted l" "a \<in> set l" for l a
    using that by (cases l) auto
qed (auto simp: insertListInOrder_def removeElement_def)

lemma process_shape_removeElement:
  assumes shape: "process_shape n pp"
  shows "process_shape n (set_index_list k (removeElement (index_list k pp) a) pp)"
proof (rule process_shape_list [OF shape])
  show "removeElement (index_list k pp) a = []" if "length (slots k pp) = 0"
    using process_shapeD(4) [OF shape that, of k] by (simp add: removeElement_def)
qed (rule idx.remove_good [OF process_shapeD(2) [OF shape]],
    rule idx.remove_range [OF process_shapeD(2,3) [OF shape]])

lemma process_shape_insert:
  assumes shape: "process_shape n pp" and i: "i < length (slots k pp)"
  shows "process_shape n (set_index_list k (insertListInOrder (index_list k pp) (int i)) pp)"
proof (rule process_shape_list [OF shape])
  have "int i \<in> {0..<int n}" using process_shapeD(1) [OF shape, of k] i by auto
  then show "set (insertListInOrder (index_list k pp) (int i)) \<subseteq> {0..<int n}"
    by (rule idx.insert_range [OF process_shapeD(2,3) [OF shape]])
  show "insertListInOrder (index_list k pp) (int i) = []" if "length (slots k pp) = 0"
    using i that by simp
qed (rule idx.insert_good [OF process_shapeD(2) [OF shape]])

lemma process_shape_popListFront:
  assumes shape: "process_shape n pp"
  shows "process_shape n (set_index_list k (snd (popListFront (index_list k pp))) pp)"
proof (rule process_shape_list [OF shape])
  show "set (snd (popListFront (index_list k pp))) \<subseteq> {0..<int n}"
    by (rule idx.pop_range [OF process_shapeD(2,3) [OF shape]])
  show "snd (popListFront (index_list k pp)) = []" if "length (slots k pp) = 0"
    using process_shapeD(4) [OF shape that, of k] by simp
qed (rule idx.pop_good [OF process_shapeD(2) [OF shape]])

text \<open>\<open>changed p p' t k i s\<close>: the pools differ in the slot at one position.\<close>

definition changed :: "ConnectedPool \<Rightarrow> ConnectedPool \<Rightarrow> NlsType \<Rightarrow> kind \<Rightarrow> nat \<Rightarrow> ConnectedNodeProcess \<Rightarrow> bool" where
  "changed p p' t k i s \<longleftrightarrow>
    (\<forall>t' k' j. at p' t' k' j = (if t' = t \<and> k' = k \<and> j = i then Some s else at p t' k' j))"

lemma changedI:
  assumes "poolProcess t p = Some pp" "slots k pp' = (slots k pp)[i := s]"
    "\<And>k'. k' \<noteq> k \<Longrightarrow> slots k' pp' = slots k' pp" "i < length (slots k pp)"
  shows "changed p (set_poolProcess t pp' p) t k i s"
  unfolding changed_def using at_upd [OF assms(1,2) _ assms(4)] assms(3) by blast

lemma slots_ok_changed: "slots_ok p \<Longrightarrow> changed p p' t k i s \<Longrightarrow> slot_ok k s \<Longrightarrow> slots_ok p'"
  by (auto simp: slots_ok_def changed_def split: if_splits)

lemma owners_ok_changed:
  assumes "owners_ok h p" "changed p p' t k i s" "\<And>r. alive h r \<Longrightarrow> alive h' r"
    and req: "request s \<noteq> NULL \<Longrightarrow> alive h' (request s) \<and>
      (\<forall>t' k' i' s'. at p t' k' i' = Some s' \<longrightarrow> request s' = request s \<longrightarrow> (t', k', i') = (t, k, i))"
    and cur: "status s = live k \<Longrightarrow> curRequest s \<noteq> NULL \<Longrightarrow> \<not> curRequestInvalid s \<Longrightarrow> alive h' (curRequest s)"
  shows "owners_ok h' p'"
  unfolding owners_ok_def
proof (intro conjI allI impI)
  fix ta ka ia sa assume a: "at p' ta ka ia = Some sa" "request sa \<noteq> NULL"
  then show "alive h' (request sa)"
    using assms(1-3) req by (auto simp: changed_def owners_ok_def split: if_splits)
next
  fix ta ka ia sa tb kb ib sb
  assume "at p' ta ka ia = Some sa" "at p' tb kb ib = Some sb" "request sa \<noteq> NULL"
    "request sa = request sb"
  then show "(ta, ka, ia) = (tb, kb, ib)"
    using assms(1,2) req unfolding changed_def owners_ok_def by (auto split: if_splits)
next
  fix ta ka ia sa
  assume "at p' ta ka ia = Some sa" "status sa = live ka" "curRequest sa \<noteq> NULL" "\<not> curRequestInvalid sa"
  then show "alive h' (curRequest sa)"
    using assms(1-3) cur by (auto simp: changed_def owners_ok_def split: if_splits)
qed

section \<open>Operations that leave the heap alone\<close>

lemma find_live_SomeD:
  "find_live k t P p = Some (pp, i) \<Longrightarrow>
    poolProcess t p = Some pp \<and> i < length (slots k pp) \<and> status (slots k pp ! i) = live k \<and>
    P (slots k pp ! i) \<and> at p t k i = Some (slots k pp ! i)"
  by (auto simp: find_live_def at_def split: if_splits bind_splits dest!: first_index_SomeD)

lemma find_live_None_iff:
  "find_live k t P p = None \<longleftrightarrow> (\<forall>i s. at p t k i = Some s \<longrightarrow> status s = live k \<longrightarrow> \<not> P s)"
proof (cases "poolProcess t p")
  case None
  then show ?thesis by (simp add: find_live_def at_def)
next
  case (Some pp)
  have all: "(\<forall>i s. at p t k i = Some s \<longrightarrow> status s = live k \<longrightarrow> \<not> P s) \<longleftrightarrow>
      (\<forall>s\<in>set (slots k pp). \<not> (status s = live k \<and> P s))"
    using Some by (auto simp: at_def all_set_conv_all_nth)
  have "count_live k t p = 0 \<longleftrightarrow> (\<forall>s\<in>set (slots k pp). status s \<noteq> live k)"
    using Some by (simp add: count_live_def filter_empty_conv)
  moreover have "find_live k t P p = None \<longleftrightarrow> count_live k t p = 0 \<or>
      first_index (\<lambda>s. status s = live k \<and> P s) (slots k pp) = None"
    using Some by (auto simp: find_live_def split: bind_splits)
  ultimately show ?thesis
    unfolding all using first_index_None_iff [of "\<lambda>s. status s = live k \<and> P s" "slots k pp"]
    by auto
qed

lemma set_index_list_upd_slot_swap:
  "set_index_list k l (upd_slot k' i f pp) = upd_slot k' i f (set_index_list k l pp)"
  by (cases k; cases k') (simp_all add: upd_slot_def)

text \<open>The two marks that only touch one slot and its index list.\<close>

lemma inv_mark:
  assumes inv: "pool_inv h p" and pp: "poolProcess t p = Some pp" "i < length (slots k pp)"
    and f: "slot_ok k (f (slots k pp ! i))" "request (f (slots k pp ! i)) = request (slots k pp ! i)"
      "curRequest (f (slots k pp ! i)) = NULL \<or>
       (curRequest (f (slots k pp ! i)) = curRequest (slots k pp ! i) \<and>
        curRequestInvalid (f (slots k pp ! i)) = curRequestInvalid (slots k pp ! i) \<and>
        status (f (slots k pp ! i)) = status (slots k pp ! i)) \<or>
       curRequestInvalid (f (slots k pp ! i))"
    and l: "process_shape (maxPreconnectedNumber p) (set_index_list k l pp)"
  shows "pool_inv h (set_poolProcess t (set_index_list k l (upd_slot k i f pp)) p)"
proof -
  let ?s = "slots k pp ! i" and ?p' = "set_poolProcess t (set_index_list k l (upd_slot k i f pp)) p"
  have at: "at p t k i = Some ?s" using pp by (simp add: at_def)
  have ch: "changed p ?p' t k i (f ?s)" by (rule changedI [OF pp(1) _ _ pp(2)]) simp_all
  have "process_shape (maxPreconnectedNumber p) (set_index_list k l (upd_slot k i f pp))"
    using l by (simp add: set_index_list_upd_slot_swap)
  then have "pool_shape ?p'" using inv pp(1) by (simp add: pool_inv_def pool_shape_set)
  moreover have "slots_ok ?p'" using inv slots_ok_changed [OF _ ch f(1)] by (simp add: pool_inv_def)
  moreover have "owners_ok h ?p'"
  proof (rule owners_ok_changed [OF _ ch])
    show "owners_ok h p" using inv by (simp add: pool_inv_def)
    then show "alive h (request (f ?s)) \<and> (\<forall>t' k' i' s'. at p t' k' i' = Some s' \<longrightarrow>
        request s' = request (f ?s) \<longrightarrow> (t', k', i') = (t, k, i))" if "request (f ?s) \<noteq> NULL"
      using at f(2) that unfolding owners_ok_def by metis
    show "alive h (curRequest (f ?s))"
      if "status (f ?s) = live k" "curRequest (f ?s) \<noteq> NULL" "\<not> curRequestInvalid (f ?s)"
      using at f(3) that \<open>owners_ok h p\<close> unfolding owners_ok_def by metis
  qed
  ultimately show ?thesis using inv by (simp add: pool_inv_def)
qed

lemma set_same_index_list [simp]: "set_index_list k (index_list k pp) pp = pp"
  by (cases k) simp_all

lemma set_index_list_upd_slot:
  "set_index_list k (index_list k pp) (upd_slot k i f pp) = upd_slot k i f pp"
  by (metis set_same_index_list slots_upd_slot(2))

lemma inv_shape: "pool_inv h p \<Longrightarrow> poolProcess t p = Some pp \<Longrightarrow> process_shape (maxPreconnectedNumber p) pp"
  by (simp add: pool_inv_def pool_shape_def)

lemma inv_slot: "pool_inv h p \<Longrightarrow> at p t k i = Some s \<Longrightarrow> slot_ok k s"
  by (simp add: pool_inv_def slots_ok_def)

subsection \<open>Marking and finishing\<close>

lemma inv_curRequestIsAbnormal:
  assumes "pool_inv h p" "curRequestIsAbnormal h p req t = Some p'"
  shows "pool_inv h p'"
proof -
  have mark: "pool_inv h (set_poolProcess t (mark_abnormal k i pp) p)"
    if "find_live k t P p = Some (pp, i)" for k P pp i
  proof -
    from find_live_SomeD [OF that] have *: "poolProcess t p = Some pp" "i < length (slots k pp)"
      "at p t k i = Some (slots k pp ! i)" by auto
    have ok: "slot_ok k (slots k pp ! i)" by (rule inv_slot [OF assms(1) *(3)])
    show ?thesis unfolding mark_abnormal_def
      by (rule inv_mark [OF assms(1) *(1,2)])
        (use ok inv_shape [OF assms(1) *(1)] in \<open>auto intro: slot_ok_abnormal process_shape_removeElement\<close>)
  qed
  from assms(2) show ?thesis
    using mark assms(1)
    by (auto simp: curRequestIsAbnormal_def Let_def split: bind_splits option.splits)
qed

lemma finish_kind_SomeD:
  assumes "finish_kind k h p t fd ssl start = Some (Some p')"
  obtains pp i where "poolProcess t p = Some pp" "i < length (slots k pp)" "start \<le> i"
    "status (slots k pp ! i) = live k" "same_slot fd ssl (slots k pp ! i)"
    "p' = set_poolProcess t (make_pickable k i pp) p"
proof -
  from assms obtain pp i where f: "find_from k t start fd ssl p = Some (Some (pp, i))"
    "p' = set_poolProcess t (make_pickable k i pp) p"
    by (auto simp: finish_kind_def split: bind_splits option.splits)
  then have "poolProcess t p = Some pp"
    "first_index_from (\<lambda>s. status s = live k \<and> same_slot fd ssl s) start (slots k pp) = Some i"
    by (auto simp: find_from_def split: if_splits option.splits)
  with first_index_from_SomeD [OF this(2)] f(2) that show ?thesis by blast
qed

lemma inv_make_pickable:
  assumes "pool_inv h p" "poolProcess t p = Some pp" "i < length (slots k pp)"
    "status (slots k pp ! i) = live k"
  shows "pool_inv h (set_poolProcess t (make_pickable k i pp) p)"
proof -
  have "slot_ok k (slots k pp ! i)"
    by (rule inv_slot [OF assms(1) at_SomeI [OF assms(2,3)]])
  then show ?thesis unfolding make_pickable_def
    by (intro inv_mark [OF assms(1-3)])
      (use assms inv_shape [OF assms(1,2)] in \<open>auto intro: slot_ok_pickable process_shape_insert\<close>)
qed

lemma inv_finishPushPreNode:
  assumes "pool_inv h p" "finishPushPreNode h p t fd ssl index = Some p'"
  shows "pool_inv h p'"
  using assms
  by (auto simp: finishPushPreNode_def Let_def split: bind_splits option.splits
      elim!: finish_kind_SomeD intro: inv_make_pickable)

lemma inv_clear:
  assumes "pool_inv h p" "poolProcess t p = Some pp" "i < length (slots k pp)"
  shows "pool_inv h (set_poolProcess t (upd_slot k i clearNode pp) p)"
proof -
  let ?p' = "set_poolProcess t (upd_slot k i clearNode pp) p"
  have ch: "changed p ?p' t k i (clearNode (slots k pp ! i))"
    by (rule changedI [OF assms(2) _ _ assms(3)]) simp_all
  have "pool_shape ?p'"
    using assms(1,2) inv_shape [OF assms(1,2)] by (simp add: pool_inv_def pool_shape_set)
  moreover have "slots_ok ?p'"
    using assms(1) slots_ok_changed [OF _ ch] by (simp add: pool_inv_def)
  moreover have "owners_ok h ?p'"
    by (rule owners_ok_changed [OF _ ch])
      (use assms(1) in \<open>auto simp: pool_inv_def clearNode_def\<close>)
  ultimately show ?thesis using assms(1) by (simp add: pool_inv_def)
qed

lemma match_request_SomeD:
  "match_request k h p req t = Some (Some (pp, i)) \<Longrightarrow>
    poolProcess t p = Some pp \<and> i < length (slots k pp) \<and> status (slots k pp ! i) = live k \<and>
    request (slots k pp ! i) = req"
  by (auto simp: match_request_def split: option.splits bind_splits dest!: find_live_SomeD)

lemma inv_deletePreNodeByRequest:
  assumes "pool_inv h p" "deletePreNodeByRequest h p req t = Some (r, p')"
  shows "pool_inv h p'"
  using assms
  by (auto simp: deletePreNodeByRequest_def split: bind_splits option.splits
      dest!: match_request_SomeD intro: inv_clear)

section \<open>Deleting requests\<close>

lemma node_of_closesocket [simp]: "node_of (closesocket h fd) r = node_of h r"
  "reqs (closesocket h fd) = reqs h" "nodes (closesocket h fd) = nodes h" "ssls (closesocket h fd) = ssls h"
  by (simp_all add: closesocket_def node_of_def)

lemma closeConnectNode_frame [simp]:
  "reqs (closeConnectNode h n) = reqs h" "nodes (closeConnectNode h n) = nodes h"
  "ssls (closeConnectNode h n) = ssls h"
  by (simp_all add: closeConnectNode_def)

lemma node_of_SomeD: "node_of h r = Some n \<Longrightarrow> \<exists>req. reqs h r = Some req \<and> nodes h (r_node req) = Some n"
  by (auto simp: node_of_def split: bind_splits)

lemma alive_reqs: "heap_ok h \<Longrightarrow> alive h r \<longleftrightarrow> reqs h r \<noteq> None"
  by (auto simp: alive_def node_of_def heap_ok_def split: bind_splits)

lemma delete_request_ok:
  assumes ok: "heap_ok h" and r: "alive h r"
  obtains h' where "delete_request h r = Some h'" "heap_ok h'"
    "\<And>r'. node_of h' r' = (if r' = r then None else node_of h r')"
    "\<And>r'. reqs h' r' = (if r' = r then None else reqs h r')"
proof -
  from r obtain n where n: "node_of h r = Some n" by (auto simp: alive_def)
  from node_of_SomeD [OF n] obtain req where req: "reqs h r = Some req" "nodes h (r_node req) = Some n"
    by auto
  define h' where "h' = (closeConnectNode h n)
    \<lparr>reqs := (reqs h)(r := None), nodes := (nodes h)(r_node req := None),
     ssls := (if owns n then (ssls h)(n_sslHandle n := False) else ssls h)\<rparr>"
  have alive_ssl: "owns n \<Longrightarrow> ssls h (n_sslHandle n)"
    using ok n by (simp add: heap_ok_def)
  have del: "delete_request h r = Some h'"
    using req alive_ssl
    by (auto simp: delete_request_def destroy_ConnectNode_def delete_ssl_def owns_def h'_def Let_def)
  have inj: "reqs h r' = Some req' \<Longrightarrow> r' \<noteq> r \<Longrightarrow> r_node req' \<noteq> r_node req" for r' req'
    using ok req(1) unfolding heap_ok_def by metis
  have nodes: "node_of h' r' = (if r' = r then None else node_of h r')" for r'
    using inj by (auto simp: node_of_def h'_def split: bind_splits)
  moreover have "heap_ok h'"
  proof -
    have "nodes h' (r_node q) \<noteq> None" if "reqs h' r' = Some q" for r' q
      using that ok inj by (auto simp: h'_def heap_ok_def split: if_splits)
    moreover have "r' = r''" if "reqs h' r' = Some q" "reqs h' r'' = Some q'" "r_node q = r_node q'"
      for r' r'' q q'
      using that ok by (auto simp: h'_def heap_ok_def split: if_splits)
    moreover have "ssls h' (n_sslHandle m)" if m: "node_of h' r' = Some m" "owns m" for r' m
    proof -
      have *: "node_of h r' = Some m" "r' \<noteq> r" using m(1) nodes by (auto split: if_splits)
      have "owns n \<Longrightarrow> n_sslHandle m \<noteq> n_sslHandle n"
        using ok * n m(2) unfolding heap_ok_def by metis
      moreover have "ssls h (n_sslHandle m)" using ok *(1) m(2) by (simp add: heap_ok_def)
      ultimately show ?thesis by (simp add: h'_def)
    qed
    moreover have "r' = r''" if "node_of h' r' = Some m" "node_of h' r'' = Some m'" "owns m" "owns m'"
      "n_sslHandle m = n_sslHandle m'" for r' r'' m m'
      using that ok unfolding nodes heap_ok_def by (metis option.distinct(1))
    moreover have "reqs h' NULL = None" using ok by (simp add: h'_def heap_ok_def)
    ultimately show ?thesis unfolding heap_ok_def by blast
  qed
  moreover have "reqs h' r' = (if r' = r then None else reqs h r')" for r' by (simp add: h'_def)
  ultimately show ?thesis using that del by blast
qed

text \<open>A request is in use when the timer would read its activity.\<close>

definition in_use :: "ConnectedPool \<Rightarrow> ptr \<Rightarrow> bool" where
  "in_use p r \<longleftrightarrow> (\<exists>t k i s. at p t k i = Some s \<and> status s = live k \<and> curRequest s = r \<and>
    \<not> curRequestInvalid s)"

lemma inv_delete_slot:
  assumes inv: "pool_inv h p" and pp: "poolProcess t p = Some pp" "i < length (slots k pp)"
    and req: "request (slots k pp ! i) \<noteq> NULL \<Longrightarrow>
      \<not> in_use (set_poolProcess t (upd_slot k i clearNode pp) p) (request (slots k pp ! i))"
  obtains h' where "delete_slot k h p t pp i = Some (h', set_poolProcess t (upd_slot k i clearNode pp) p)"
    "pool_inv h' (set_poolProcess t (upd_slot k i clearNode pp) p)"
proof -
  let ?s = "slots k pp ! i" and ?p' = "set_poolProcess t (upd_slot k i clearNode pp) p"
  have inv': "pool_inv h ?p'" by (rule inv_clear [OF inv pp])
  have at: "at p t k i = Some ?s" by (rule at_SomeI [OF pp])
  have ch: "changed p ?p' t k i (clearNode ?s)" by (rule changedI [OF pp(1) _ _ pp(2)]) simp_all
  show ?thesis
  proof (cases "request ?s = NULL")
    case True
    then show ?thesis using that [of h] inv' by (simp add: delete_slot_def Let_def)
  next
    case False
    have "alive h (request ?s)" using inv at False unfolding pool_inv_def owners_ok_def by blast
    moreover have "heap_ok h" using inv by (simp add: pool_inv_def)
    ultimately obtain h' where h': "delete_request h (request ?s) = Some h'" "heap_ok h'"
      "\<And>r'. node_of h' r' = (if r' = request ?s then None else node_of h r')"
      using delete_request_ok by metis
    have others: "request s' \<noteq> request ?s" if "at ?p' t' k' i' = Some s'" for t' k' i' s'
    proof -
      have "request (clearNode ?s) \<noteq> request ?s" using False by (simp add: clearNode_def)
      moreover have "request s' \<noteq> request ?s" if "at p t' k' i' = Some s'" "(t', k', i') \<noteq> (t, k, i)"
        using that at False inv unfolding pool_inv_def owners_ok_def by metis
      ultimately show ?thesis using that ch by (auto simp: changed_def split: if_splits)
    qed
    have "owners_ok h' ?p'"
      unfolding owners_ok_def
    proof (intro conjI allI impI)
      fix t' k' i' s' assume "at ?p' t' k' i' = Some s'" "request s' \<noteq> NULL"
      then show "alive h' (request s')"
        using inv' others [of t' k' i' s'] h'(3) unfolding pool_inv_def owners_ok_def alive_def by metis
    next
      fix t' k' i' s' assume a: "at ?p' t' k' i' = Some s'" "status s' = live k'" "curRequest s' \<noteq> NULL"
        "\<not> curRequestInvalid s'"
      then have "curRequest s' \<noteq> request ?s" using req [OF False] unfolding in_use_def by blast
      then show "alive h' (curRequest s')"
        using a inv' h'(3) unfolding pool_inv_def owners_ok_def alive_def by metis
    qed (use inv' in \<open>auto simp: pool_inv_def owners_ok_def\<close>)
    moreover have "indexes_ok h' (maxPreconnectedNumber ?p')"
      using inv' h'(3) by (auto simp: pool_inv_def indexes_ok_def split: if_splits)
    ultimately have "pool_inv h' ?p'" using inv' h'(2) by (simp add: pool_inv_def)
    moreover have "delete_slot k h p t pp i = Some (h', ?p')"
      using False h'(1) by (simp add: delete_slot_def Let_def)
    ultimately show ?thesis using that by blast
  qed
qed

section \<open>Updating a node\<close>

lemma update_node_ok:
  assumes ok: "heap_ok h" and n: "node_of h r = Some n"
    and f: "owns (f n) \<Longrightarrow> owns n \<and> n_sslHandle (f n) = n_sslHandle n"
  obtains h' where "update_node h r f = Some h'" "heap_ok h'"
    "\<And>r'. node_of h' r' = (if r' = r then Some (f n) else node_of h r')"
    "reqs h' = reqs h" "ssls h' = ssls h"
proof -
  from node_of_SomeD [OF n] obtain req where req: "reqs h r = Some req" "nodes h (r_node req) = Some n"
    by auto
  define h' where "h' = h\<lparr>nodes := (nodes h)(r_node req \<mapsto> f n)\<rparr>"
  have inj: "reqs h r' = Some req' \<Longrightarrow> r' \<noteq> r \<Longrightarrow> r_node req' \<noteq> r_node req" for r' req'
    using ok req(1) unfolding heap_ok_def by metis
  have nodes: "node_of h' r' = (if r' = r then Some (f n) else node_of h r')" for r'
    using inj req by (auto simp: node_of_def h'_def split: bind_splits)
  have prev: "\<exists>m'. node_of h r' = Some m' \<and> owns m' \<and> n_sslHandle m' = n_sslHandle m"
    if "node_of h' r' = Some m" "owns m" for r' m
    using that n f nodes by (auto split: if_splits)
  have "heap_ok h'"
    unfolding heap_ok_def
  proof (intro conjI allI impI)
    show "reqs h' NULL = None" using ok by (simp add: h'_def heap_ok_def)
    show "nodes h' (r_node q) \<noteq> None" if "reqs h' r' = Some q" for r' q
      using that ok by (simp add: h'_def heap_ok_def)
    show "r' = r''" if "reqs h' r' = Some q" "reqs h' r'' = Some q'" "r_node q = r_node q'" for r' r'' q q'
      using that ok by (auto simp: h'_def heap_ok_def)
    show "ssls h' (n_sslHandle m)" if m: "node_of h' r' = Some m" "owns m" for r' m
    proof -
      from prev [OF m] obtain m' where "node_of h r' = Some m'" "owns m'" "n_sslHandle m' = n_sslHandle m"
        by blast
      then have "ssls h (n_sslHandle m)" using ok unfolding heap_ok_def by metis
      then show ?thesis by (simp add: h'_def)
    qed
    show "r' = r''" if "node_of h' r' = Some m" "node_of h' r'' = Some m'" "owns m" "owns m'"
      "n_sslHandle m = n_sslHandle m'" for r' r'' m m'
      using prev [OF that(1,3)] prev [OF that(2,4)] that(5) ok unfolding heap_ok_def by metis
  qed
  moreover have "update_node h r f = Some h'" using req by (simp add: update_node_def h'_def)
  ultimately show ?thesis using that nodes by (simp add: h'_def)
qed

lemma owners_ok_heap: "owners_ok h p \<Longrightarrow> (\<And>r. alive h r \<Longrightarrow> alive h' r) \<Longrightarrow> owners_ok h' p"
  by (auto simp: owners_ok_def) 

lemma slot_node:
  "pool_inv h p \<Longrightarrow> at p t k i = Some s \<Longrightarrow> request s \<noteq> NULL \<Longrightarrow> \<exists>n. node_of h (request s) = Some n"
  unfolding pool_inv_def owners_ok_def alive_def by blast

lemma live_node:
  "pool_inv h p \<Longrightarrow> at p t k i = Some s \<Longrightarrow> status s = live k \<Longrightarrow> \<exists>n. node_of h (request s) = Some n"
  using inv_slot slot_node by (metis slot_ok_def)

section \<open>Storing a connection\<close>

lemma at_grow:
  assumes "poolProcess t p = Some pp"
  shows "at (initThisNodesPool t p) t' k i = Some s \<Longrightarrow>
    at p t' k i = Some s \<or> (s = new_slot t \<and> t' = t \<and> length (slots k pp) \<le> i)"
proof -
  have "slots k (pp\<lparr>prestartedRequests := grow t n (prestartedRequests pp),
      preconnectedRequests := grow t n (preconnectedRequests pp)\<rparr>) = grow t n (slots k pp)" for n
    by (cases k) simp_all
  then show "at (initThisNodesPool t p) t' k i = Some s \<Longrightarrow> ?thesis"
    using assms
    by (auto simp: initThisNodesPool_def Let_def at_def grow_def nth_append split: if_splits)
qed

lemma inv_init:
  assumes inv: "pool_inv h p"
  shows "pool_inv h (initThisNodesPool t p)"
proof (cases "poolProcess t p")
  case None
  then show ?thesis using inv by (simp add: initThisNodesPool_def)
next
  case (Some pp)
  let ?n = "maxPreconnectedNumber p" and ?p' = "initThisNodesPool t p"
  let ?pp' = "pp\<lparr>prestartedRequests := grow t ?n (prestartedRequests pp),
      preconnectedRequests := grow t ?n (preconnectedRequests pp)\<rparr>"
  have p': "?p' = set_poolProcess t ?pp' p" using Some by (simp add: initThisNodesPool_def Let_def)
  have sl: "slots k ?pp' = grow t ?n (slots k pp)" "index_list k ?pp' = index_list k pp" for k
    by (cases k; simp)+
  note shape = inv_shape [OF inv Some]
  have len: "length (slots k ?pp') = ?n" for k
    using process_shapeD(1) [OF shape, of k] by (simp only: sl) (auto simp: grow_def)
  have "process_shape ?n ?pp'"
    unfolding process_shape_def len sl(2)
    using process_shapeD(2,3) [OF shape] process_shapeD(3) [OF shape] by auto
  then have "pool_shape ?p'" unfolding p' using inv Some by (simp add: pool_inv_def pool_shape_set)
  moreover have "slots_ok ?p'"
    using at_grow [OF Some] inv slot_ok_new unfolding pool_inv_def slots_ok_def by metis
  moreover have "owners_ok h ?p'"
  proof -
    have new: "request (new_slot t) = NULL" "curRequest (new_slot t) = NULL"
      by (simp_all add: new_slot_def)
    show ?thesis
      unfolding owners_ok_def
    proof (intro conjI allI impI)
      fix t' k i s assume "at ?p' t' k i = Some s" "request s \<noteq> NULL"
      then show "alive h (request s)"
        using at_grow [OF Some] new inv unfolding pool_inv_def owners_ok_def by metis
    next
      fix t1 k1 i1 s1 t2 k2 i2 s2
      assume "at ?p' t1 k1 i1 = Some s1" "at ?p' t2 k2 i2 = Some s2" "request s1 \<noteq> NULL" "request s1 = request s2"
      then show "(t1, k1, i1) = (t2, k2, i2)"
        using at_grow [OF Some] new inv unfolding pool_inv_def owners_ok_def by metis
    next
      fix t' k i s assume "at ?p' t' k i = Some s" "status s = live k" "curRequest s \<noteq> NULL" "\<not> curRequestInvalid s"
      then show "alive h (curRequest s)"
        using at_grow [OF Some] new inv unfolding pool_inv_def owners_ok_def by metis
    qed
  qed
  ultimately show ?thesis using inv p' by (simp add: pool_inv_def)
qed

lemma inv_ensure: "pool_inv h p \<Longrightarrow> pool_inv h (ensure_pool t p)"
  by (simp add: ensure_pool_def inv_init split: prod.split)

lemma ensure_pool_keeps:
  "at (ensure_pool t p) t' k i = Some s \<Longrightarrow> at p t' k i = Some s \<or> request s = NULL"
proof -
  have "request (new_slot t) = NULL" by (simp add: new_slot_def)
  then show "at (ensure_pool t p) t' k i = Some s \<Longrightarrow> ?thesis"
    using at_grow [of t p _ t' k i s]
    by (cases "poolProcess t p") (auto simp: ensure_pool_def initThisNodesPool_def split: prod.splits if_splits)
qed

lemma ensure_pool_max [simp]: "maxPreconnectedNumber (ensure_pool t p) = maxPreconnectedNumber p"
  by (simp add: ensure_pool_def initThisNodesPool_def Let_def split: prod.split option.split)

lemma ensure_pool_length:
  assumes "pool_inv h p" "poolProcess t (ensure_pool t p) = Some pp"
  shows "length (slots k pp) = maxPreconnectedNumber p"
proof (cases "poolProcess t p")
  case None
  then have False using assms(2)
    by (auto simp: ensure_pool_def getNumberOfThisTypeNodes_def initThisNodesPool_def)
  then show ?thesis ..
next
  case (Some qq)
  note shape = inv_shape [OF assms(1) Some]
  have lens: "length (slots Prestarted qq) = length (slots k qq)" "length (slots Preconnected qq) = length (slots k qq)"
    using process_shapeD(5) [OF shape] by blast+
  let ?g = "qq\<lparr>prestartedRequests := grow t (maxPreconnectedNumber p) (prestartedRequests qq),
      preconnectedRequests := grow t (maxPreconnectedNumber p) (preconnectedRequests qq)\<rparr>"
  have "slots k ?g = grow t (maxPreconnectedNumber p) (slots k qq)" by (cases k) simp_all
  then show ?thesis
    using assms(2) Some lens process_shapeD(1) [OF shape, of k]
    by (cases "length (slots k qq) = 0")
      (auto simp: ensure_pool_def getNumberOfThisTypeNodes_def initThisNodesPool_def Let_def grow_def
        split: if_splits)
qed

text \<open>The bound on the index makes the check against the size sufficient.\<close>

lemma index_guard_in_range:
  assumes "index = -1 \<or> (0 \<le> index \<and> index < int n)" "n < 2 ^ 31"
  shows "index_guard n index \<longleftrightarrow> 0 \<le> index"
proof (cases "index = -1")
  case True
  have "(- 1 :: u64) \<le> of_nat n \<longleftrightarrow> of_nat n = (- 1 :: u64)"
    by (metis word_order.extremum_unique)
  moreover have "unat (of_nat n :: u64) < 2 ^ 31"
    using assms(2) by (simp add: unat_of_nat take_bit_eq_mod)
  then have "of_nat n \<noteq> (- 1 :: u64)" by (auto simp: unsigned_minus_1_eq_mask mask_eq_exp_minus_1)
  ultimately show ?thesis using True by (simp add: index_guard_def)
next
  case False
  then obtain i where i: "index = int i" "i < n" using assms(1) by (metis nonneg_int_cases of_nat_less_iff)
  have "unat (of_nat i :: u64) = i" "unat (of_nat n :: u64) = n"
    using i(2) assms(2) by (simp_all add: unat_of_nat take_bit_eq_mod)
  then show ?thesis using i by (simp add: index_guard_def word_le_nat_alt)
qed

lemma existing_slot_ok:
  assumes inv: "pool_inv h p" and pp: "poolProcess t p = Some pp"
    and len: "length (slots k pp) = maxPreconnectedNumber p"
    and n: "node_of h r = Some n"
  obtains ex where "existing_slot h k pp n = Some ex"
    "ex \<Longrightarrow> 0 \<le> n_poolIndex n \<and> nat (n_poolIndex n) < length (slots k pp) \<and>
      status (slots k pp ! nat (n_poolIndex n)) = live k"
proof -
  have idx: "n_poolIndex n = -1 \<or> (0 \<le> n_poolIndex n \<and> n_poolIndex n < int (length (slots k pp)))"
    and small: "length (slots k pp) < 2 ^ 31"
    using inv n len by (auto simp: pool_inv_def indexes_ok_def pool_shape_def)
  note guard = index_guard_in_range [OF idx small]
  show ?thesis
  proof (cases "0 \<le> n_poolIndex n")
    case False
    then show ?thesis using that [of False] guard by (simp add: existing_slot_def)
  next
    case True
    let ?i = "nat (n_poolIndex n)"
    have i: "?i < length (slots k pp)" using True idx by auto
    then have s: "slot_at (slots k pp) (n_poolIndex n) = Some (slots k pp ! ?i)"
      using True by (simp add: slot_at_def)
    show ?thesis
    proof (cases "status (slots k pp ! ?i) = live k")
      case False
      then show ?thesis using that [of False] guard True s by (simp add: existing_slot_def)
    next
      case live: True
      have at: "at p t k ?i = Some (slots k pp ! ?i)" by (rule at_SomeI [OF pp i])
      have "request (slots k pp ! ?i) \<noteq> NULL"
        using inv_slot [OF inv at] live by (simp add: slot_ok_def)
      then obtain on where "node_of h (request (slots k pp ! ?i)) = Some on"
        using inv at unfolding pool_inv_def owners_ok_def alive_def by blast
      then show ?thesis using that guard True s live i by (simp add: existing_slot_def)
    qed
  qed
qed

lemma existing_slot_ex:
  assumes "pool_inv h p" "poolProcess t p = Some pp" "length (slots k pp) = maxPreconnectedNumber p"
    "node_of h r = Some n"
  shows "\<exists>ex. existing_slot h k pp n = Some ex \<and> (ex \<longrightarrow> 0 \<le> n_poolIndex n \<and>
    nat (n_poolIndex n) < length (slots k pp) \<and> status (slots k pp ! nat (n_poolIndex n)) = live k)"
  by (rule existing_slot_ok [OF assms]) blast

definition stored :: "ConnectedPool \<Rightarrow> ptr \<Rightarrow> bool" where
  "stored p r \<longleftrightarrow> (\<exists>t k i s. at p t k i = Some s \<and> request s = r)"

lemma indexes_ok_update:
  assumes "indexes_ok h m" "\<And>r'. node_of h' r' = (if r' = r then Some (n\<lparr>n_poolIndex := int i\<rparr>) else node_of h r')"
    "i < m"
  shows "indexes_ok h' m"
  using assms by (auto simp: indexes_ok_def split: if_splits)

lemma inv_store_new:
  assumes inv: "pool_inv h p" and pp: "poolProcess t p = Some pp"
    and len: "length (slots k pp) = maxPreconnectedNumber p"
    and n: "node_of h req = Some n" and req: "req \<noteq> NULL" "\<not> stored p req"
  obtains r h' p' where "store_new k now h p req t pp n = Some (r, h', p')" "pool_inv h' p'"
proof (cases "first_index free_slot (slots k pp)")
  case None
  then show ?thesis using that [of False h p] inv by (simp add: store_new_def)
next
  case (Some i)
  then have i: "i < length (slots k pp)" by blast
  from node_of_SomeD [OF n] obtain q where q: "reqs h req = Some q" by auto
  have ok: "heap_ok h" using inv by (simp add: pool_inv_def)
  obtain h' where h': "update_node h req (\<lambda>n. n\<lparr>n_poolIndex := int i\<rparr>) = Some h'" "heap_ok h'"
    "\<And>r'. node_of h' r' = (if r' = req then Some (n\<lparr>n_poolIndex := int i\<rparr>) else node_of h r')"
    by (rule update_node_ok [OF ok n, of "\<lambda>n. n\<lparr>n_poolIndex := int i\<rparr>"]) (auto simp: owns_def)
  let ?s = "fill_slot k now req n (r_param q) (slots k pp ! i)"
  let ?pp' = "(upd_slot k i (fill_slot k now req n (r_param q)) pp)\<lparr>work := True\<rparr>"
  let ?p' = "set_poolProcess t ?pp' p"
  have ch: "changed p ?p' t k i ?s" by (rule changedI [OF pp _ _ i]) simp_all
  have al: "alive h' r" if "alive h r" for r using that h'(3) by (simp add: alive_def)
  have "pool_shape ?p'" using inv pp inv_shape [OF inv pp] by (simp add: pool_inv_def pool_shape_set)
  moreover have "slots_ok ?p'"
    using inv slots_ok_changed [OF _ ch slot_ok_fill [OF req(1)]] by (simp add: pool_inv_def)
  moreover have "owners_ok h' ?p'"
  proof (rule owners_ok_changed [OF _ ch al])
    show "owners_ok h p" using inv by (simp add: pool_inv_def)
    show "alive h' (request ?s) \<and> (\<forall>t' k' i' s'. at p t' k' i' = Some s' \<longrightarrow>
        request s' = request ?s \<longrightarrow> (t', k', i') = (t, k, i))"
      using req(2) h'(3) by (auto simp: fill_slot_def alive_def stored_def)
    show "alive h' (curRequest ?s)" if "curRequest ?s \<noteq> NULL"
      using that by (simp add: fill_slot_def)
  qed
  moreover have "indexes_ok h' (maxPreconnectedNumber ?p')"
    using indexes_ok_update [OF _ h'(3), of "maxPreconnectedNumber p"] inv i len
    by (simp add: pool_inv_def)
  ultimately have "pool_inv h' ?p'" using h'(2) by (simp add: pool_inv_def)
  then show ?thesis
    using that Some q h'(1) by (simp add: store_new_def getRequestParam_def)
qed

text \<open>Both pushes are defined and keep the invariant for a living request that is in no slot,
or for one that is pushed as an old node when its slot is found.\<close>

lemma inv_push:
  assumes inv: "pool_inv h p" and req: "alive h req" "\<not> stored p req"
  obtains r h' p' where "push_node k now h p req t newNode = Some (r, h', p')" "pool_inv h' p'"
proof (cases "req = NULL")
  case True
  then show ?thesis using that [of False h p] inv by (simp add: push_node_def)
next
  case False
  from req obtain n where n: "node_of h req = Some n" by (auto simp: alive_def)
  let ?q = "ensure_pool t p"
  have inv': "pool_inv h ?q" by (rule inv_ensure [OF inv])
  have st: "\<not> stored ?q req"
    using ensure_pool_keeps [of t p] req(2) False unfolding stored_def by metis
  show ?thesis
  proof (cases "poolProcess t ?q")
    case None
    then show ?thesis using that [of False h ?q] inv' False n by (simp add: push_node_def Let_def)
  next
    case (Some pp)
    have len: "length (slots k pp) = maxPreconnectedNumber ?q" for k
      using ensure_pool_length [OF inv Some] by simp
    have "\<exists>ex. (if newNode then Some False else existing_slot h k pp n) = Some ex \<and>
      (ex \<longrightarrow> 0 \<le> n_poolIndex n \<and> nat (n_poolIndex n) < length (slots k pp) \<and>
        status (slots k pp ! nat (n_poolIndex n)) = live k)"
      using existing_slot_ex [OF inv' Some len [of k] n] by (cases newNode) (auto intro: exI [of _ False])
    then obtain ex where ex: "(if newNode then Some False else existing_slot h k pp n) = Some ex"
      "ex \<Longrightarrow> 0 \<le> n_poolIndex n \<and> nat (n_poolIndex n) < length (slots k pp) \<and>
        status (slots k pp ! nat (n_poolIndex n)) = live k" by blast
    show ?thesis
    proof (cases ex)
      case True
      let ?i = "nat (n_poolIndex n)"
      have i: "?i < length (slots k pp)" using ex(2) [OF True] by simp
      have "slot_ok k (slots k pp ! ?i)" by (rule inv_slot [OF inv' at_SomeI [OF Some i]])
      then have "slot_ok k (refresh_slot (n_last_op n) (slots k pp ! ?i))" by (rule slot_ok_refresh)
      then have "pool_inv h (set_poolProcess t (upd_slot k ?i (refresh_slot (n_last_op n)) pp) ?q)"
        using inv_mark [OF inv' Some i, of "refresh_slot (n_last_op n)" "index_list k pp"]
          inv_shape [OF inv' Some]
        by (simp add: refresh_slot_def set_index_list_upd_slot)
      then show ?thesis using that False n Some ex(1) True by (simp add: push_node_def Let_def)
    next
      case fresh: False
      obtain r h' p' where "store_new k now h ?q req t pp n = Some (r, h', p')" "pool_inv h' p'"
        by (rule inv_store_new [OF inv' Some len n False st])
      then show ?thesis using that False n Some ex(1) fresh by (simp add: push_node_def Let_def)
    qed
  qed
qed

subsection \<open>Moving to a prestarted slot\<close>

text \<open>The vectors of the type have been set up.\<close>

definition ready :: "ConnectedPool \<Rightarrow> NlsType \<Rightarrow> bool" where
  "ready p t \<longleftrightarrow> (\<forall>pp k. poolProcess t p = Some pp \<longrightarrow> length (slots k pp) = maxPreconnectedNumber p)"

text \<open>The slots the move reads and writes.\<close>

lemma inv_move_slots:
  assumes inv: "pool_inv h p" and pp: "poolProcess t p = Some pp"
    and i: "i < length (preconnectedRequests pp)"
    and s: "s = preconnectedRequests pp ! i" "status s = PreNodeConnected"
    and on: "node_of h (request s) = Some on" and n: "node_of h req = Some n"
  shows "\<exists>r h' pp'. move_to_prestarted now h pp req n (request s) on = Some (r, h', pp') \<and>
    pool_inv h' (set_poolProcess t (upd_slot Preconnected i clearNode pp') p)"
proof (cases "first_index free_slot (prestartedRequests pp)")
  case None
  have "pool_inv h (set_poolProcess t (upd_slot Preconnected i clearNode pp) p)"
    by (rule inv_clear [OF inv pp]) (simp add: i)
  then show ?thesis using None by (simp add: move_to_prestarted_def)
next
  case (Some j)
  then have j: "j < length (slots Prestarted pp)" "free_slot (slots Prestarted pp ! j)"
    using first_index_SomeD by force+
  let ?p1 = "set_poolProcess t (upd_slot Preconnected i clearNode pp) p"
  let ?pp1 = "upd_slot Preconnected i clearNode pp"
  have i': "i < length (slots Preconnected pp)" using i by simp
  have inv1: "pool_inv h ?p1" by (rule inv_clear [OF inv pp i'])
  have pp1: "poolProcess t ?p1 = Some ?pp1" using pp by simp
  have at: "at p t Preconnected i = Some s" using at_SomeI [OF pp i'] s(1) by simp
  have s_req: "request s \<noteq> NULL" using inv_slot [OF inv at] s(2) by (simp add: slot_ok_def)
  have gone: "\<not> stored ?p1 (request s)"
  proof
    assume "stored ?p1 (request s)"
    then obtain t' k' i2 s' where a: "at ?p1 t' k' i2 = Some s'" "request s' = request s"
      unfolding stored_def by blast
    have ch: "changed p ?p1 t Preconnected i (clearNode s)"
      using changedI [OF pp _ _ i', of ?pp1] s(1) by simp
    have "request (clearNode s) = NULL" by (simp add: clearNode_def)
    then have "at p t' k' i2 = Some s'" "(t', k', i2) \<noteq> (t, Preconnected, i)"
      using a s_req ch unfolding changed_def by (auto split: if_splits)
    then show False using a(2) at s_req inv unfolding pool_inv_def owners_ok_def by metis
  qed
  from node_of_SomeD [OF on] node_of_SomeD [OF n] obtain oq q
    where q: "reqs h (request s) = Some oq" "reqs h req = Some q" by auto
  have ok: "heap_ok h" using inv by (simp add: pool_inv_def)
  obtain h' where h': "update_node h (request s) (\<lambda>n. n\<lparr>n_poolIndex := int j\<rparr>) = Some h'" "heap_ok h'"
    "\<And>r'. node_of h' r' = (if r' = request s then Some (on\<lparr>n_poolIndex := int j\<rparr>) else node_of h r')"
    by (rule update_node_ok [OF ok on, of "\<lambda>n. n\<lparr>n_poolIndex := int j\<rparr>"]) (auto simp: owns_def)
  let ?m = "move_slot now n (r_param q) (request s) on (r_param oq)"
  let ?pp' = "(upd_slot Prestarted j ?m pp)\<lparr>work := True\<rparr>"
  let ?pp2 = "(upd_slot Prestarted j ?m ?pp1)\<lparr>work := True\<rparr>"
  let ?s2 = "?m (slots Prestarted pp ! j)"
  have j1: "j < length (slots Prestarted ?pp1)" using j(1) by simp
  have comm: "upd_slot Preconnected i clearNode ?pp' = ?pp2"
    by (simp add: upd_slot_def)
  have twice: "set_poolProcess t ?pp2 ?p1 = set_poolProcess t ?pp2 p" by (cases t) simp_all
  let ?p2 = "set_poolProcess t ?pp2 ?p1"
  have ch: "changed ?p1 ?p2 t Prestarted j ?s2" by (rule changedI [OF pp1 _ _ j1]) simp_all
  have al: "alive h' r" if "alive h r" for r using that h'(3) by (simp add: alive_def)
  have "pool_shape ?p2"
    using inv1 pp1 inv_shape [OF inv1 pp1] by (simp add: pool_inv_def pool_shape_set)
  moreover have "slot_ok Prestarted ?s2"
    using inv_slot [OF inv at_SomeI [OF pp j(1)]] j(2) s_req by (rule slot_ok_move)
  then have "slots_ok ?p2"
    using inv1 slots_ok_changed [OF _ ch] by (simp add: pool_inv_def)
  moreover have "owners_ok h' ?p2"
  proof (rule owners_ok_changed [OF _ ch al])
    show "owners_ok h ?p1" using inv1 by (simp add: pool_inv_def)
    show "alive h' (request ?s2) \<and> (\<forall>t' k' i' s'. at ?p1 t' k' i' = Some s' \<longrightarrow>
        request s' = request ?s2 \<longrightarrow> (t', k', i') = (t, Prestarted, j))"
      using gone h'(3) by (auto simp: move_slot_def alive_def stored_def)
    show "alive h' (curRequest ?s2)" if "curRequest ?s2 \<noteq> NULL"
      using that by (simp add: move_slot_def)
  qed
  moreover have "indexes_ok h' (maxPreconnectedNumber ?p2)"
  proof -
    have "j < maxPreconnectedNumber p"
      using process_shapeD(1) [OF inv_shape [OF inv pp], of Prestarted] j(1) by auto
    then show ?thesis
      using indexes_ok_update [OF _ h'(3)] inv1 by (simp add: pool_inv_def)
  qed
  ultimately have "pool_inv h' ?p2" using h'(2) by (simp add: pool_inv_def)
  then have "pool_inv h' (set_poolProcess t (upd_slot Preconnected i clearNode ?pp') p)"
    unfolding comm twice .
  then show ?thesis
    using Some q h'(1) by (simp add: move_to_prestarted_def getRequestParam_def)
qed

lemma inv_move:
  assumes inv: "pool_inv h p" and req: "alive h req" and rdy: "ready p t"
  shows "\<exists>r h' p'. pushPrestartedNodeFromPreconnected now h p req t = Some (r, h', p') \<and> pool_inv h' p'"
proof -
  from req obtain n where n: "node_of h req = Some n" by (auto simp: alive_def)
  consider (trivial) "req = NULL \<or> n_poolIndex n < 0 \<or> poolProcess t p = None"
    | (pool) pp where "req \<noteq> NULL" "0 \<le> n_poolIndex n" "poolProcess t p = Some pp"
    by fastforce
  then show ?thesis
  proof cases
    case trivial
    then show ?thesis using inv n
      by (cases "req = NULL"; cases "n_poolIndex n < 0")
        (simp_all add: pushPrestartedNodeFromPreconnected_def)
  next
    case (pool pp)
    let ?cs = "preconnectedRequests pp" and ?i = "nat (n_poolIndex n)"
    have len: "length ?cs = maxPreconnectedNumber p"
      using rdy pool(3) unfolding ready_def by (metis slots.simps(2))
    have idx: "n_poolIndex n = -1 \<or> (0 \<le> n_poolIndex n \<and> n_poolIndex n < int (length ?cs))"
      and small: "length ?cs < 2 ^ 31"
      using inv n len by (auto simp: pool_inv_def indexes_ok_def pool_shape_def)
    have guard: "index_guard (length ?cs) (n_poolIndex n)"
      using index_guard_in_range [OF idx small] pool(2) by simp
    have i: "?i < length ?cs" using idx pool(2) by auto
    let ?s = "?cs ! ?i"
    have s: "slot_at ?cs (n_poolIndex n) = Some ?s" using i pool(2) by (simp add: slot_at_def)
    show ?thesis
    proof (cases "status ?s = PreNodeConnected")
      case False
      then show ?thesis using n pool guard s inv by (simp add: pushPrestartedNodeFromPreconnected_def)
    next
      case True
      have at: "at p t Preconnected ?i = Some ?s" using at_SomeI [OF pool(3), of ?i Preconnected] i by simp
      then obtain on where on: "node_of h (request ?s) = Some on"
        using live_node [OF inv at] True by auto
      from inv_move_slots [OF inv pool(3) i refl True on n, of now] obtain r h' pp' where
        "move_to_prestarted now h pp req n (request ?s) on = Some (r, h', pp')"
        "pool_inv h' (set_poolProcess t (upd_slot Preconnected ?i clearNode pp') p)" by blast
      then show ?thesis
        using n pool guard s True on inv
        by (simp add: pushPrestartedNodeFromPreconnected_def)
    qed
  qed
qed

end
