(* ===== verification/PoolSafety.thy ===== *)
theory PoolSafety
  imports PoolInvariant
begin

text \<open>
  The second part of the pool's invariant, that a live slot caches the connection its request
  owns, the preservation of the whole invariant by the operations that hand out, release and
  prepare connections, and the transition system of the pool with its reachable states.
\<close>

section \<open>The cached connection\<close>

definition caches :: "heap \<Rightarrow> kind \<Rightarrow> ConnectedNodeProcess \<Rightarrow> bool" where
  "caches h k s \<longleftrightarrow> (status s = live k \<longrightarrow>
    (\<exists>n. node_of h (request s) = Some n \<and> n_sslHandle n = sslHandle s \<and>
      n_socketFd n = socketFd s \<and> owns n))"

definition conn_ok :: "heap \<Rightarrow> ConnectedPool \<Rightarrow> bool" where
  "conn_ok h p \<longleftrightarrow> (\<forall>t k i s. at p t k i = Some s \<longrightarrow> caches h k s)"

definition safe :: "heap \<Rightarrow> ConnectedPool \<Rightarrow> bool" where
  "safe h p \<longleftrightarrow> pool_inv h p \<and> conn_ok h p"

text \<open>The nodes agree on what a slot caches.\<close>

definition same_conn :: "ConnectNode \<Rightarrow> ConnectNode \<Rightarrow> bool" where
  "same_conn n m \<longleftrightarrow> n_sslHandle m = n_sslHandle n \<and> n_socketFd m = n_socketFd n \<and>
    n_nativeSslHandle m = n_nativeSslHandle n"

lemma caches_cong:
  assumes "caches h k s" "\<And>n. node_of h (request s) = Some n \<Longrightarrow> \<exists>m. node_of h' (request s) = Some m \<and> same_conn n m"
  shows "caches h' k s"
proof (cases "status s = live k")
  case True
  with assms(1) obtain n where n: "node_of h (request s) = Some n" "n_sslHandle n = sslHandle s"
    "n_socketFd n = socketFd s" "owns n" by (auto simp: caches_def)
  with assms(2) obtain m where "node_of h' (request s) = Some m" "same_conn n m" by blast
  with n show ?thesis by (auto simp: caches_def same_conn_def owns_def)
qed (simp add: caches_def)

lemma conn_changed:
  assumes "conn_ok h p" "changed p p' t k i s" "caches h' k s"
    "\<And>t' k' j s' n. at p t' k' j = Some s' \<Longrightarrow> (t', k', j) \<noteq> (t, k, i) \<Longrightarrow> status s' = live k' \<Longrightarrow>
      node_of h (request s') = Some n \<Longrightarrow> \<exists>m. node_of h' (request s') = Some m \<and> same_conn n m"
  shows "conn_ok h' p'"
  unfolding conn_ok_def
proof (intro allI impI)
  fix t' k' j s' assume a: "at p' t' k' j = Some s'"
  show "caches h' k' s'"
  proof (cases "(t', k', j) = (t, k, i)")
    case True
    then show ?thesis using a assms(2,3) by (auto simp: changed_def)
  next
    case False
    then have at: "at p t' k' j = Some s'" using a assms(2) by (auto simp: changed_def split: if_splits)
    show ?thesis
    proof (cases "status s' = live k'")
      case True
      show ?thesis
        by (rule caches_cong [of h]) (use assms(1,4) at False True in \<open>auto simp: conn_ok_def\<close>)
    qed (simp add: caches_def)
  qed
qed

lemma same_conn_refl [simp]: "same_conn n n"
  by (simp add: same_conn_def)

lemma caches_mark:
  "caches h k s \<Longrightarrow> status s' = status s \<Longrightarrow> request s' = request s \<Longrightarrow> sslHandle s' = sslHandle s \<Longrightarrow>
    socketFd s' = socketFd s \<Longrightarrow> caches h k s'"
  by (simp add: caches_def)

lemma caches_clear [simp]: "caches h k (clearNode s)"
  by (simp add: caches_def clearNode_def)

lemma conn_mark:
  assumes "conn_ok h p" "poolProcess t p = Some pp" "i < length (slots k pp)"
    "slots k pp' = (slots k pp)[i := f (slots k pp ! i)]" "\<And>k'. k' \<noteq> k \<Longrightarrow> slots k' pp' = slots k' pp"
    "caches h k (slots k pp ! i) \<Longrightarrow> caches h k (f (slots k pp ! i))"
  shows "conn_ok h (set_poolProcess t pp' p)"
proof (rule conn_changed [OF assms(1) changedI [OF assms(2,4,5,3)]])
  show "caches h k (f (slots k pp ! i))"
    using assms(1,6) at_SomeI [OF assms(2,3)] by (simp add: conn_ok_def)
qed auto

lemma conn_curRequestIsAbnormal:
  assumes "conn_ok h p" "curRequestIsAbnormal h p req t = Some p'"
  shows "conn_ok h p'"
proof -
  have "conn_ok h (set_poolProcess t (mark_abnormal k i pp) p)" if "find_live k t P p = Some (pp, i)"
    for k P pp i
    using find_live_SomeD [OF that] assms(1)
    by (intro conn_mark [where k = k and i = i and f = "\<lambda>s. s\<lparr>isAbnormal := True\<rparr>"])
      (auto simp: mark_abnormal_def caches_def)
  then show ?thesis
    using assms by (auto simp: curRequestIsAbnormal_def Let_def split: bind_splits option.splits)
qed

lemma conn_make_pickable:
  assumes "conn_ok h p" "poolProcess t p = Some pp" "i < length (slots k pp)"
  shows "conn_ok h (set_poolProcess t (make_pickable k i pp) p)"
  using assms
  by (intro conn_mark [where k = k and i = i and
      f = "\<lambda>s. s\<lparr>canPick := True, curRequest := NULL, curRequestInvalid := False\<rparr>"])
    (auto simp: make_pickable_def caches_def)

lemma conn_finishPushPreNode:
  assumes "conn_ok h p" "finishPushPreNode h p t fd ssl index = Some p'"
  shows "conn_ok h p'"
  using assms
  by (auto simp: finishPushPreNode_def Let_def split: bind_splits option.splits
      elim!: finish_kind_SomeD intro: conn_make_pickable)

lemma conn_clear:
  assumes "conn_ok h p" "poolProcess t p = Some pp" "i < length (slots k pp)"
  shows "conn_ok h (set_poolProcess t (upd_slot k i clearNode pp) p)"
  using assms by (intro conn_mark [where k = k and i = i and f = clearNode]) auto

lemma conn_deletePreNodeByRequest:
  assumes "conn_ok h p" "deletePreNodeByRequest h p req t = Some (r, p')"
  shows "conn_ok h p'"
  using assms
  by (auto simp: deletePreNodeByRequest_def split: bind_splits option.splits
      dest!: match_request_SomeD intro: conn_clear)

lemma conn_init: "conn_ok h p \<Longrightarrow> conn_ok h (initThisNodesPool t p)"
proof -
  assume conn: "conn_ok h p"
  have new: "caches h k (new_slot t)" for k by (simp add: caches_def new_slot_def)
  show ?thesis
  proof (cases "poolProcess t p")
    case None
    then show ?thesis using conn by (simp add: initThisNodesPool_def)
  next
    case (Some pp)
    then show ?thesis using at_grow [OF Some] conn new unfolding conn_ok_def by metis
  qed
qed

lemma conn_ensure: "conn_ok h p \<Longrightarrow> conn_ok h (ensure_pool t p)"
  by (simp add: ensure_pool_def conn_init split: prod.split)

section \<open>Pushing, moving, deleting\<close>

lemma update_node_SomeD:
  assumes "heap_ok h" "update_node h r f = Some h'"
  shows "\<exists>n. node_of h r = Some n \<and> (\<forall>r'. node_of h' r' = (if r' = r then Some (f n) else node_of h r'))"
proof -
  from assms(2) obtain q n where q: "reqs h r = Some q" "nodes h (r_node q) = Some n"
    "h' = h\<lparr>nodes := (nodes h)(r_node q \<mapsto> f n)\<rparr>"
    by (auto simp: update_node_def split: bind_splits)
  have inj: "reqs h r' = Some q' \<Longrightarrow> r' \<noteq> r \<Longrightarrow> r_node q' \<noteq> r_node q" for r' q'
    using assms(1) q(1) unfolding heap_ok_def by metis
  have "node_of h r = Some n" using q by (simp add: node_of_def)
  moreover have "node_of h' r' = (if r' = r then Some (f n) else node_of h r')" for r'
    using inj q by (auto simp: node_of_def split: bind_splits)
  ultimately show ?thesis by blast
qed

lemma conn_store_new:
  assumes inv: "pool_inv h p" and conn: "conn_ok h p" and pp: "poolProcess t p = Some pp"
    and n: "node_of h req = Some n" "owns n"
    and st: "store_new k now h p req t pp n = Some (r, h', p')"
  shows "conn_ok h' p'"
proof (cases "first_index free_slot (slots k pp)")
  case None
  then show ?thesis using st conn by (simp add: store_new_def)
next
  case (Some i)
  with st obtain prm where
    h': "update_node h req (\<lambda>n. n\<lparr>n_poolIndex := int i\<rparr>) = Some h'" and
    p': "p' = set_poolProcess t ((upd_slot k i (fill_slot k now req n prm) pp)\<lparr>work := True\<rparr>) p"
    by (auto simp: store_new_def split: bind_splits)
  have i: "i < length (slots k pp)" using Some by blast
  have ok: "heap_ok h" using inv by (simp add: pool_inv_def)
  from update_node_SomeD [OF ok h'] obtain m where m: "node_of h req = Some m"
    "\<And>r'. node_of h' r' = (if r' = req then Some (m\<lparr>n_poolIndex := int i\<rparr>) else node_of h r')"
    by blast
  have ch: "changed p p' t k i (fill_slot k now req n prm (slots k pp ! i))"
    unfolding p' by (rule changedI [OF pp _ _ i]) simp_all
  show ?thesis
  proof (rule conn_changed [OF conn ch])
    show "caches h' k (fill_slot k now req n prm (slots k pp ! i))"
      using m n by (auto simp: caches_def fill_slot_def owns_def)
  qed (use m in \<open>auto simp: same_conn_def\<close>)
qed

lemma safe_push:
  assumes safe: "safe h p" and n: "node_of h req = Some n" and st: "\<not> stored p req"
    and own: "owns n \<or> (\<not> newNode \<and> (\<forall>pp. poolProcess t (ensure_pool t p) = Some pp \<longrightarrow>
      existing_slot h k pp n = Some True))"
  shows "\<exists>r h' p'. push_node k now h p req t newNode = Some (r, h', p') \<and> safe h' p'"
proof -
  have inv: "pool_inv h p" and conn: "conn_ok h p" using safe by (simp_all add: safe_def)
  obtain r h' p' where push: "push_node k now h p req t newNode = Some (r, h', p')" "pool_inv h' p'"
    by (rule inv_push [OF inv _ st]) (auto simp: alive_def n)
  have "conn_ok h' p'"
  proof (cases "req = NULL \<or> poolProcess t (ensure_pool t p) = None")
    case True
    then show ?thesis using push(1) conn conn_ensure [OF conn] n
      by (auto simp: push_node_def Let_def split: if_splits)
  next
    case False
    then obtain pp where pp: "poolProcess t (ensure_pool t p) = Some pp" and req: "req \<noteq> NULL" by auto
    have len: "length (slots k pp) = maxPreconnectedNumber (ensure_pool t p)" for k
      using ensure_pool_length [OF inv pp] by simp
    from existing_slot_ex [OF inv_ensure [OF inv] pp len n] obtain ex0 where
      ex0: "existing_slot h k pp n = Some ex0"
      "ex0 \<Longrightarrow> nat (n_poolIndex n) < length (slots k pp)" by blast
    show ?thesis
    proof (cases "\<not> newNode \<and> ex0")
      case True
      then have "p' = set_poolProcess t (upd_slot k (nat (n_poolIndex n)) (refresh_slot (n_last_op n)) pp)
          (ensure_pool t p)" "h' = h"
        using push(1) n pp req ex0(1) by (auto simp: push_node_def Let_def)
      then show ?thesis
        using True ex0(2)
        by (auto intro!: conn_mark [OF conn_ensure [OF conn] pp, where f = "refresh_slot (n_last_op n)"]
            simp: caches_def refresh_slot_def)
    next
      case False
      then have "store_new k now h (ensure_pool t p) req t pp n = Some (r, h', p')"
        using push(1) n pp req ex0(1) by (auto simp: push_node_def Let_def split: if_splits)
      moreover have "owns n" using False own pp ex0(1) by auto
      ultimately show ?thesis
        using conn_store_new [OF inv_ensure [OF inv] conn_ensure [OF conn] pp n] by blast
    qed
  qed
  then show ?thesis using push by (auto simp: safe_def)
qed

lemma conn_delete_slot:
  assumes inv: "pool_inv h p" and conn: "conn_ok h p"
    and pp: "poolProcess t p = Some pp" "i < length (slots k pp)"
    and del: "delete_slot k h p t pp i = Some (h', p')"
  shows "conn_ok h' p'"
proof -
  let ?s = "slots k pp ! i" and ?p' = "set_poolProcess t (upd_slot k i clearNode pp) p"
  have p': "p' = ?p'" using del by (auto simp: delete_slot_def Let_def split: bind_splits)
  show ?thesis
  proof (cases "request ?s = NULL")
    case True
    then have "h' = h" using del by (simp add: delete_slot_def Let_def)
    then show ?thesis using conn_clear [OF conn pp] p' by simp
  next
    case False
    have at: "at p t k i = Some ?s" by (rule at_SomeI [OF pp])
    have "alive h (request ?s)" using slot_node [OF inv at False] by (auto simp: alive_def)
    moreover have "heap_ok h" using inv by (simp add: pool_inv_def)
    ultimately obtain h2 where h2: "delete_request h (request ?s) = Some h2"
      "\<And>r'. node_of h2 r' = (if r' = request ?s then None else node_of h r')"
      using delete_request_ok by metis
    have "h' = h2" using del False h2(1) by (simp add: delete_slot_def Let_def)
    have ch: "changed p p' t k i (clearNode ?s)"
      unfolding p' by (rule changedI [OF pp(1) _ _ pp(2)]) simp_all
    show ?thesis
    proof (rule conn_changed [OF conn ch])
      fix t' k' j s' n
      assume a: "at p t' k' j = Some s'" "(t', k', j) \<noteq> (t, k, i)" "node_of h (request s') = Some n"
      have "request s' \<noteq> request ?s"
        using a(1,2) at False inv unfolding pool_inv_def owners_ok_def by metis
      then show "\<exists>m. node_of h' (request s') = Some m \<and> same_conn n m"
        using a(3) h2(2) \<open>h' = h2\<close> by simp
    qed simp
  qed
qed

text \<open>Deleting a slot's request is safe when nobody else is using it.\<close>

lemma safe_deletePreNodeBySSL:
  assumes safe: "safe h p"
    and unused: "\<And>t k i s. at p t k i = Some s \<Longrightarrow> request s \<noteq> NULL \<Longrightarrow> sslHandle s = ssl \<Longrightarrow> \<not> in_use p (request s)"
  shows "\<exists>r h' p'. deletePreNodeBySSL h p ssl t = Some (r, h', p') \<and> safe h' p'"
proof -
  have inv: "pool_inv h p" and conn: "conn_ok h p" using safe by (simp_all add: safe_def)
  have del: "\<exists>h' p'. delete_slot k h p t pp i = Some (h', p') \<and> safe h' p'"
    if f: "find_live k t (\<lambda>s. sslHandle s = ssl) p = Some (pp, i)" for k pp i
  proof -
    from find_live_SomeD [OF f] have pp: "poolProcess t p = Some pp" "i < length (slots k pp)"
      and s: "at p t k i = Some (slots k pp ! i)" "sslHandle (slots k pp ! i) = ssl" by auto
    let ?p' = "set_poolProcess t (upd_slot k i clearNode pp) p"
    have ch: "changed p ?p' t k i (clearNode (slots k pp ! i))"
      by (rule changedI [OF pp(1) _ _ pp(2)]) simp_all
    have cur: "status (clearNode s) = PreNodeToBeCreated" for s by (simp add: clearNode_def)
    have "\<not> in_use ?p' (request (slots k pp ! i))" if "request (slots k pp ! i) \<noteq> NULL"
      using unused [OF s(1) that s(2)] ch cur by (auto simp: in_use_def changed_def split: if_splits)
    then obtain h' where "delete_slot k h p t pp i = Some (h', ?p')" "pool_inv h' ?p'"
      by (rule inv_delete_slot [OF inv pp])
    then show ?thesis using conn_delete_slot [OF inv conn pp] by (auto simp: safe_def)
  qed
  show ?thesis
  proof (cases "find_live Prestarted t (\<lambda>s. sslHandle s = ssl) p")
    case (Some x)
    then show ?thesis using del [of Prestarted "fst x" "snd x"]
      by (cases x) (auto simp: deletePreNodeBySSL_def)
  next
    case none: None
    show ?thesis
    proof (cases "find_live Preconnected t (\<lambda>s. sslHandle s = ssl) p")
      case (Some x)
      then show ?thesis using none del [of Preconnected "fst x" "snd x"]
        by (cases x) (auto simp: deletePreNodeBySSL_def)
    next
      case None
      then show ?thesis using none safe by (simp add: deletePreNodeBySSL_def)
    qed
  qed
qed

lemma conn_move_slots:
  assumes inv: "pool_inv h p" and conn: "conn_ok h p" and pp: "poolProcess t p = Some pp"
    and i: "i < length (preconnectedRequests pp)"
    and s: "s = preconnectedRequests pp ! i" "status s = PreNodeConnected"
    and on: "node_of h (request s) = Some on" and n: "node_of h req = Some n"
    and eq: "same_connection on (n_socketFd n) (n_sslHandle n)"
    and move: "move_to_prestarted now h pp req n (request s) on = Some (r, h', pp')"
  shows "conn_ok h' (set_poolProcess t (upd_slot Preconnected i clearNode pp') p)"
proof (cases "first_index free_slot (prestartedRequests pp)")
  case None
  then have "h' = h" "pp' = pp" using move by (simp_all add: move_to_prestarted_def)
  then show ?thesis using conn_clear [OF conn pp, of i Preconnected] i by simp
next
  case (Some j)
  with move obtain oprm prm where
    h': "update_node h (request s) (\<lambda>n. n\<lparr>n_poolIndex := int j\<rparr>) = Some h'" and
    pp': "pp' = (upd_slot Prestarted j (move_slot now n prm (request s) on oprm) pp)\<lparr>work := True\<rparr>"
    by (auto simp: move_to_prestarted_def split: bind_splits)
  have j: "j < length (slots Prestarted pp)" using first_index_less [OF Some] by simp
  have i': "i < length (slots Preconnected pp)" using i by simp
  let ?p1 = "set_poolProcess t (upd_slot Preconnected i clearNode pp) p"
  let ?pp1 = "upd_slot Preconnected i clearNode pp"
  let ?m = "move_slot now n prm (request s) on oprm"
  let ?pp2 = "(upd_slot Prestarted j ?m ?pp1)\<lparr>work := True\<rparr>"
  let ?p2 = "set_poolProcess t ?pp2 ?p1"
  have "upd_slot Preconnected i clearNode pp' = ?pp2" by (simp add: pp' upd_slot_def)
  moreover have "set_poolProcess t ?pp2 ?p1 = set_poolProcess t ?pp2 p" by (cases t) simp_all
  ultimately have res: "set_poolProcess t (upd_slot Preconnected i clearNode pp') p = ?p2" by simp
  have conn1: "conn_ok h ?p1" by (rule conn_clear [OF conn pp i'])
  have pp1: "poolProcess t ?p1 = Some ?pp1" using pp by simp
  have j1: "j < length (slots Prestarted ?pp1)" using j by simp
  have ch: "changed ?p1 ?p2 t Prestarted j (?m (slots Prestarted pp ! j))"
    by (rule changedI [OF pp1 _ _ j1]) simp_all
  have ok: "heap_ok h" using inv by (simp add: pool_inv_def)
  from update_node_SomeD [OF ok h'] on have nodes:
    "\<And>r'. node_of h' r' = (if r' = request s then Some (on\<lparr>n_poolIndex := int j\<rparr>) else node_of h r')"
    by auto
  have at: "at p t Preconnected i = Some s" using at_SomeI [OF pp i'] s(1) by simp
  have "caches h Preconnected s" using conn at by (simp add: conn_ok_def)
  then have own: "owns on" using s(2) on by (auto simp: caches_def)
  show ?thesis unfolding res
  proof (rule conn_changed [OF conn1 ch])
    show "caches h' Prestarted (?m (slots Prestarted pp ! j))"
      using nodes own eq by (auto simp: caches_def move_slot_def owns_def same_connection_def)
  qed (use nodes on in \<open>auto simp: same_conn_def\<close>)
qed

lemma safe_move:
  assumes safe: "safe h p" and n: "node_of h req = Some n" and rdy: "ready p t"
  shows "\<exists>r h' p'. pushPrestartedNodeFromPreconnected now h p req t = Some (r, h', p') \<and> safe h' p'"
proof -
  have inv: "pool_inv h p" and conn: "conn_ok h p" using safe by (simp_all add: safe_def)
  have "alive h req" using n by (simp add: alive_def)
  from inv_move [OF inv this rdy, of now] obtain r h' p' where
    move: "pushPrestartedNodeFromPreconnected now h p req t = Some (r, h', p')" "pool_inv h' p'" by blast
  have "conn_ok h' p' \<or> (h' = h \<and> p' = p)"
    using move(1) n
    by (auto simp: pushPrestartedNodeFromPreconnected_def slot_at_def
        split: if_splits option.splits bind_splits
        intro: conn_move_slots [OF inv conn _ _ refl])
  then show ?thesis using move conn by (auto simp: safe_def)
qed

section \<open>Handing out a connection\<close>

lemma find_pick_SomeD:
  "find_pick h k eq req i ss = Some (Some j) \<Longrightarrow>
    \<exists>m prm prm'. j = i + m \<and> m < length ss \<and> status (ss ! m) = live k \<and> canPick (ss ! m) \<and>
      getRequestParam h req = Some prm \<and> getRequestParam h (request (ss ! m)) = Some prm' \<and>
      eq prm (ss ! m) prm'"
proof (induction ss arbitrary: i)
  case Nil
  then show ?case by simp
next
  case (Cons s ss)
  show ?case
  proof (cases "j = i \<and> status s = live k \<and> canPick s \<and>
      (\<exists>prm prm'. getRequestParam h req = Some prm \<and> getRequestParam h (request s) = Some prm' \<and> eq prm s prm')")
    case True
    then show ?thesis by (intro exI [of _ 0]) auto
  next
    case False
    then have "find_pick h k eq req (Suc i) ss = Some (Some j)"
      using Cons.prems by (auto split: if_splits bind_splits)
    from Cons.IH [OF this] obtain m prm prm' where "j = Suc i + m" "m < length ss" "status (ss ! m) = live k"
      "canPick (ss ! m)" "getRequestParam h req = Some prm" "getRequestParam h (request (ss ! m)) = Some prm'"
      "eq prm (ss ! m) prm'" by blast
    then show ?thesis by (intro exI [of _ "Suc m"] exI [of _ prm] exI [of _ prm']) simp
  qed
qed

lemma find_pick_defined:
  "getRequestParam h req \<noteq> None \<Longrightarrow>
    (\<And>s. s \<in> set ss \<Longrightarrow> status s = live k \<Longrightarrow> getRequestParam h (request s) \<noteq> None) \<Longrightarrow>
    find_pick h k eq req i ss \<noteq> None"
proof (induction ss arbitrary: i)
  case (Cons s ss)
  have IH: "find_pick h k eq req (Suc i) ss \<noteq> None" by (rule Cons.IH) (use Cons.prems in auto)
  show ?case
  proof (cases "status s = live k")
    case True
    then obtain prm where "getRequestParam h (request s) = Some prm" using Cons.prems(2) [of s] by auto
    then show ?thesis using IH Cons.prems(1) by auto
  qed (use IH in simp)
qed simp

lemma find_pick_NoneD:
  "find_pick h k eq req i ss = Some None \<Longrightarrow> s \<in> set ss \<Longrightarrow> status s = live k \<Longrightarrow> canPick s \<Longrightarrow>
    getRequestParam h req = Some prm \<Longrightarrow> getRequestParam h (request s) = Some prm' \<Longrightarrow> \<not> eq prm s prm'"
  by (induction ss arbitrary: i) (auto split: if_splits bind_splits)

lemma take_connection_ok:
  assumes ok: "heap_ok h" and n: "node_of h req = Some n" "owns n"
    and src: "node_of h (request s) = Some src" "owns src" "n_sslHandle src = sslHandle s"
    and neq: "request s \<noteq> req"
  shows "\<exists>h'. take_connection h req s i = Some h' \<and> heap_ok h' \<and> reqs h' = reqs h \<and>
    (\<forall>r'. node_of h' r' = (if r' = req then Some (n\<lparr>n_sslHandle := sslHandle s,
      n_socketFd := socketFd s, n_url := n_url src, n_poolIndex := int i\<rparr>) else node_of h r'))"
proof -
  from node_of_SomeD [OF n(1)] obtain q where q: "reqs h req = Some q" "nodes h (r_node q) = Some n"
    by auto
  let ?f = "\<lambda>n. n\<lparr>n_sslHandle := sslHandle s, n_socketFd := socketFd s, n_url := n_url src,
    n_poolIndex := int i\<rparr>"
  let ?h1 = "(closesocket (h\<lparr>ssls := (ssls h)(n_sslHandle n := False)\<rparr>) (n_socketFd n))"
  define h' where "h' = ?h1\<lparr>nodes := (nodes h)(r_node q \<mapsto> ?f n)\<rparr>"
  have alive: "ssls h (n_sslHandle n)" "n_sslHandle n \<noteq> NULL"
    using ok n by (auto simp: heap_ok_def owns_def)
  have differ: "n_sslHandle n \<noteq> sslHandle s"
    using ok n src neq unfolding heap_ok_def by metis
  then have notown: "\<not> owns (?f n)" using n(2) by (simp add: owns_def)
  have h1: "node_of ?h1 r = node_of h r" "reqs ?h1 = reqs h" "nodes ?h1 = nodes h" for r
    by (simp_all add: closesocket_def node_of_def)
  have take: "take_connection h req s i = Some h'"
    using n(1) alive src(1) q h1
    by (simp add: take_connection_def delete_ssl_def Let_def update_node_def h'_def)
  have inj: "reqs h r' = Some q' \<Longrightarrow> r' \<noteq> req \<Longrightarrow> r_node q' \<noteq> r_node q" for r' q'
    using ok q(1) unfolding heap_ok_def by metis
  have nodes: "node_of h' r' = (if r' = req then Some (?f n) else node_of h r')" for r'
    using inj q by (auto simp: node_of_def h'_def closesocket_def split: bind_splits)
  have own: "r' \<noteq> req \<and> node_of h r' = Some m" if "node_of h' r' = Some m" "owns m" for r' m
    using that notown nodes by (auto split: if_splits)
  have "heap_ok h'"
    unfolding heap_ok_def
  proof (intro conjI allI impI)
    show "reqs h' NULL = None" using ok by (simp add: h'_def heap_ok_def closesocket_def)
    show "nodes h' (r_node x) \<noteq> None" if "reqs h' r' = Some x" for r' x
      using that ok by (simp add: h'_def heap_ok_def closesocket_def)
    show "r' = r''" if "reqs h' r' = Some x" "reqs h' r'' = Some y" "r_node x = r_node y" for r' r'' x y
      using that ok by (auto simp: h'_def heap_ok_def closesocket_def)
    show "ssls h' (n_sslHandle m)" if m: "node_of h' r' = Some m" "owns m" for r' m
    proof -
      have *: "r' \<noteq> req" "node_of h r' = Some m" using own [OF m] by auto
      then have "n_sslHandle m \<noteq> n_sslHandle n" using ok n m(2) unfolding heap_ok_def by metis
      moreover have "ssls h (n_sslHandle m)" using ok *(2) m(2) unfolding heap_ok_def by metis
      ultimately show ?thesis by (simp add: h'_def)
    qed
    show "r' = r''" if "node_of h' r' = Some m" "node_of h' r'' = Some m'" "owns m" "owns m'"
      "n_sslHandle m = n_sslHandle m'" for r' r'' m m'
      using own [OF that(1,3)] own [OF that(2,4)] that ok unfolding heap_ok_def by metis
  qed
  moreover have "reqs h' = reqs h" by (simp add: h'_def closesocket_def)
  ultimately show ?thesis using take nodes by blast
qed

text \<open>
  A pop. The caller's request lives, still owns the handle it was created with, and is not
  itself stored in the pool. Then the operation is defined, keeps the invariant, and hands out a
  slot that could be picked and that nobody was using.
\<close>

definition picks :: "heap \<Rightarrow> ConnectedPool \<Rightarrow> heap \<Rightarrow> ConnectedPool \<Rightarrow> ptr \<Rightarrow> NlsType \<Rightarrow> kind \<Rightarrow> bool" where
  "picks h p h' p' req t k \<longleftrightarrow>
    (\<exists>i s. at p t k i = Some s \<and> status s = live k \<and> canPick s \<and> curRequest s = NULL \<and>
      changed p p' t k i (occupy req s) \<and>
      (\<exists>n'. node_of h' req = Some n' \<and> n_sslHandle n' = sslHandle s \<and> n_socketFd n' = socketFd s \<and>
        n_poolIndex n' = int i) \<and>
      (\<exists>prm prm'. getRequestParam h req = Some prm \<and> getRequestParam h (request s) = Some prm' \<and>
        param_eq prm' prm))"

lemma node_param: "node_of h r = Some n \<Longrightarrow> getRequestParam h r \<noteq> None"
  by (auto simp: node_of_def getRequestParam_def split: bind_splits)

lemma popListFront_range:
  assumes shape: "process_shape m pp"
  shows "0 \<le> fst (popListFront (index_list lk pp)) \<and>
    fst (popListFront (index_list lk pp)) \<le> int (length (slots k pp))"
proof -
  have "set (index_list lk pp) \<subseteq> {0..<int (length (slots k pp))}"
    using process_shapeD(1,4) [OF shape, of k] process_shapeD(3) [OF shape, of lk] by force
  then show ?thesis using idx.front_range [OF process_shapeD(2) [OF shape]] by simp
qed

lemma safe_occupy:
  assumes safe: "safe h p" and n: "node_of h req = Some n" "owns n" and st: "\<not> stored p req"
    and req: "req \<noteq> NULL"
    and pp: "poolProcess t p = Some pp" "i < length (slots k pp)"
    and s: "s = slots k pp ! i" "status s = live k"
    and l: "process_shape (maxPreconnectedNumber p) (set_index_list lk l pp)"
  shows "\<exists>h' n'. take_connection h req s i = Some h' \<and>
    safe h' (set_poolProcess t (set_index_list lk l (upd_slot k i (occupy req) pp)) p) \<and>
    node_of h' req = Some n' \<and> n_sslHandle n' = sslHandle s \<and> n_socketFd n' = socketFd s \<and>
    n_poolIndex n' = int i"
proof -
  let ?p' = "set_poolProcess t (set_index_list lk l (upd_slot k i (occupy req) pp)) p"
  have inv: "pool_inv h p" and conn: "conn_ok h p" using safe by (simp_all add: safe_def)
  have ok: "heap_ok h" using inv by (simp add: pool_inv_def)
  have at: "at p t k i = Some s" using at_SomeI [OF pp] s by simp
  have "caches h k s" using conn at by (simp add: conn_ok_def)
  then obtain src where src: "node_of h (request s) = Some src" "n_sslHandle src = sslHandle s" "owns src"
      "n_socketFd src = socketFd s"
    using s(2) by (auto simp: caches_def)
  have neq: "request s \<noteq> req" using st at by (auto simp: stored_def)
  from take_connection_ok [OF ok n src(1,3,2) neq, of i] obtain h' where
    h': "take_connection h req s i = Some h'" "heap_ok h'" "\<And>r'. node_of h' r' = (if r' = req
      then Some (n\<lparr>n_sslHandle := sslHandle s, n_socketFd := socketFd s, n_url := n_url src,
        n_poolIndex := int i\<rparr>) else node_of h r')" by blast
  have ch: "changed p ?p' t k i (occupy req s)"
    by (rule changedI [OF pp(1) _ _ pp(2)]) (simp_all add: s)
  have al: "alive h' r \<longleftrightarrow> alive h r" for r using h'(3) n by (simp add: alive_def)
  have slot: "slot_ok k s" by (rule inv_slot [OF inv at])
  have i: "i < maxPreconnectedNumber p"
    using process_shapeD(1) [OF inv_shape [OF inv pp(1)], of k] pp(2) by auto
  have "process_shape (maxPreconnectedNumber p) (set_index_list lk l (upd_slot k i (occupy req) pp))"
    using l by (simp add: set_index_list_upd_slot_swap)
  then have "pool_shape ?p'" using inv pp(1) by (simp add: pool_inv_def pool_shape_set)
  moreover have "slots_ok ?p'"
    using inv slots_ok_changed [OF _ ch slot_ok_occupy [OF slot]] by (simp add: pool_inv_def)
  moreover have "owners_ok h' ?p'"
  proof (rule owners_ok_changed [OF _ ch])
    show o: "owners_ok h p" using inv by (simp add: pool_inv_def)
    show "alive h' (request (occupy req s)) \<and> (\<forall>t' k' i' s'. at p t' k' i' = Some s' \<longrightarrow>
        request s' = request (occupy req s) \<longrightarrow> (t', k', i') = (t, k, i))"
      if "request (occupy req s) \<noteq> NULL"
      using o at that al unfolding owners_ok_def occupy_def by simp
    show "alive h' (curRequest (occupy req s))" using al n by (simp add: occupy_def alive_def)
  qed (use al in simp)
  moreover have "indexes_ok h' (maxPreconnectedNumber ?p')"
    using inv i h'(3) by (auto simp: pool_inv_def indexes_ok_def)
  ultimately have inv': "pool_inv h' ?p'" using h'(2) by (simp add: pool_inv_def)
  have "conn_ok h' ?p'"
  proof (rule conn_changed [OF conn ch])
    show "caches h' k (occupy req s)"
      using src neq h'(3) by (auto simp: caches_def occupy_def)
    fix t' k' j s' m assume "at p t' k' j = Some s'" "node_of h (request s') = Some m"
    then show "\<exists>m'. node_of h' (request s') = Some m' \<and> same_conn m m'"
      using st h'(3) by (auto simp: stored_def)
  qed
  then show ?thesis using h' inv' by (auto simp: safe_def)
qed

lemma safe_set_list:
  assumes "safe h p" "poolProcess t p = Some pp"
    "process_shape (maxPreconnectedNumber p) (set_index_list lk l pp)"
  shows "safe h (set_poolProcess t (set_index_list lk l pp) p)"
    "at (set_poolProcess t (set_index_list lk l pp) p) = at p"
proof -
  let ?p' = "set_poolProcess t (set_index_list lk l pp) p"
  show at: "at ?p' = at p" using at_same [OF assms(2), of "set_index_list lk l pp"] by (intro ext) simp
  have "pool_shape ?p'" using assms by (simp add: safe_def pool_inv_def pool_shape_set)
  then show "safe h ?p'"
    using assms(1) at by (simp add: safe_def pool_inv_def slots_ok_def owners_ok_def conn_ok_def)
qed

lemma pop_one_ok:
  assumes safe: "safe h p" and n: "node_of h req = Some n" "owns n" and st: "\<not> stored p req"
    and req: "req \<noteq> NULL" and eq: "\<And>prm s prm'. eq prm s prm' \<Longrightarrow> param_eq prm' prm"
  shows "\<exists>r h' p'. pop_one k lk eq h p req t = Some (r, h', p') \<and> safe h' p' \<and>
    (if r then picks h p h' p' req t k else h' = h \<and> at p' = at p)"
proof (cases "poolProcess t p")
  case None
  then show ?thesis using safe by (simp add: pop_one_def)
next
  case (Some pp)
  have inv: "pool_inv h p" using safe by (simp add: safe_def)
  note shape = inv_shape [OF inv Some]
  obtain idx l where pop: "popListFront (index_list lk pp) = (idx, l)" by fastforce
  have idx: "0 \<le> idx" "idx \<le> int (length (slots k pp))"
    using popListFront_range [OF shape, of lk k] pop by simp_all
  have l: "process_shape (maxPreconnectedNumber p) (set_index_list lk l pp)"
    using process_shape_popListFront [OF shape, of lk] pop by simp
  let ?ss = "drop (nat idx) (slots k pp)"
  have "find_pick h k eq req (nat idx) ?ss \<noteq> None"
  proof (rule find_pick_defined)
    show "getRequestParam h req \<noteq> None" by (rule node_param [OF n(1)])
    fix s assume "s \<in> set ?ss" "status s = live k"
    then obtain i where "at p t k i = Some s"
      using Some by (metis at_SomeI in_set_conv_nth in_set_dropD)
    then show "getRequestParam h (request s) \<noteq> None"
      using live_node [OF inv] \<open>status s = live k\<close> node_param by blast
  qed
  then obtain found where found: "find_pick h k eq req (nat idx) ?ss = Some found" by blast
  show ?thesis
  proof (cases found)
    case None
    then show ?thesis
      using Some pop idx found safe_set_list [OF safe Some l] by (simp add: pop_one_def Let_def)
  next
    case (Some j)
    from find_pick_SomeD [OF found [unfolded Some]] obtain m prm prm' where
      j: "j = nat idx + m" "m < length ?ss" and s: "status (?ss ! m) = live k" "canPick (?ss ! m)"
      and prm: "getRequestParam h req = Some prm" "getRequestParam h (request (?ss ! m)) = Some prm'"
      "eq prm (?ss ! m) prm'" by blast
    let ?s = "slots k pp ! j"
    have nth: "?ss ! m = ?s" and len: "j < length (slots k pp)" using j by simp_all
    let ?l = "removeElement l (int j)"
    have l': "process_shape (maxPreconnectedNumber p) (set_index_list lk ?l pp)"
      using process_shape_removeElement [OF l, of lk "int j"] by (cases lk) simp_all
    let ?p' = "set_poolProcess t (set_index_list lk ?l (upd_slot k j (occupy req) pp)) p"
    from safe_occupy [OF safe n st req \<open>poolProcess t p = Some pp\<close> len refl _ l'] s(1) nth
    obtain h' n' where h': "take_connection h req ?s j = Some h'" "safe h' ?p'"
      "node_of h' req = Some n'" "n_sslHandle n' = sslHandle ?s" "n_socketFd n' = socketFd ?s"
      "n_poolIndex n' = int j" by auto
    have at: "at p t k j = Some ?s" by (rule at_SomeI [OF \<open>poolProcess t p = Some pp\<close> len])
    have "slot_ok k ?s" by (rule inv_slot [OF inv at])
    then have cur: "curRequest ?s = NULL" using s(2) nth by (simp add: slot_ok_def)
    have "changed p ?p' t k j (occupy req ?s)"
      by (rule changedI [OF \<open>poolProcess t p = Some pp\<close> _ _ len]) simp_all
    then have "picks h p h' ?p' req t k"
      unfolding picks_def using at s prm nth cur h' eq by metis
    moreover have "pop_one k lk eq h p req t = Some (True, h', ?p')"
      using \<open>poolProcess t p = Some pp\<close> pop idx found Some h'(1)
      by (simp add: pop_one_def Let_def set_index_list_upd_slot_swap) (cases lk; simp add: upd_slot_def; cases k; simp)
    ultimately show ?thesis using h'(2) by auto
  qed
qed

end
