(* ===== verification/PoolTimer.thy ===== *)
theory PoolTimer
  imports PoolSafety
begin

text \<open>
  The timer of the connection pool: which slots it marks for release, and that it keeps the
  pool's invariant.
\<close>

section \<open>One slot\<close>

definition timeout_slot :: "kind \<Rightarrow> heap \<Rightarrow> u32 \<Rightarrow> u64 \<Rightarrow> int \<Rightarrow> ConnectedNodeProcess \<Rightarrow>
    (ConnectedNodeProcess \<times> bool) option" where
  "timeout_slot k = (case k of Prestarted \<Rightarrow> timeout_prestarted_slot | Preconnected \<Rightarrow> timeout_preconnected_slot)"

text \<open>Marked for release: what later deletes the request finds it, and nobody can pick the slot.\<close>

definition expired :: "ConnectedNodeProcess \<Rightarrow> ConnectedNodeProcess \<Rightarrow> bool" where
  "expired s s' \<longleftrightarrow> status s' = PreNodeToBeCreated \<and> shouldRelease s' \<and> \<not> canPick s' \<and>
    request s' = request s \<and> curRequest s' = curRequest s \<and> sslHandle s' = NULL \<and>
    socketFd s' = INVALID_SOCKET"

text \<open>The last use of a connection: its user's last operation, while somebody uses it.\<close>

definition last_use :: "heap \<Rightarrow> ConnectedNodeProcess \<Rightarrow> u64" where
  "last_use h s =
    (if \<not> curRequestInvalid s \<and> curRequest s \<noteq> NULL then
       (case node_of h (curRequest s) of
          Some n \<Rightarrow> if 0 < n_last_op n then n_last_op n else workableTimestamp s
        | None \<Rightarrow> workableTimestamp s)
     else workableTimestamp s)"

lemma refresh_from_user_SomeD:
  "refresh_from_user h s = Some s' \<Longrightarrow> s' = s\<lparr>workableTimestamp := last_use h s\<rparr>"
  by (auto simp: refresh_from_user_def last_use_def split: if_splits bind_splits)

lemma refresh_from_user_defined:
  "(\<not> curRequestInvalid s \<Longrightarrow> curRequest s \<noteq> NULL \<Longrightarrow> alive h (curRequest s)) \<Longrightarrow>
    refresh_from_user h s = Some (s\<lparr>workableTimestamp := last_use h s\<rparr>)"
  by (auto simp: refresh_from_user_def last_use_def alive_def)

definition due :: "heap \<Rightarrow> u32 \<Rightarrow> u64 \<Rightarrow> ConnectedNodeProcess \<Rightarrow> bool" where
  "due h limit now s \<longleftrightarrow> ucast limit \<le> now - last_use h s \<or>
    (0 < tokenExpirationTimestamp s \<and> tokenExpirationTimestamp s \<le> now)"

text \<open>What the timer does with a live slot whose request and user live.\<close>

lemma timeout_slot_cases:
  assumes "status s = live k" "alive h (request s)"
    "\<not> curRequestInvalid s \<Longrightarrow> curRequest s \<noteq> NULL \<Longrightarrow> alive h (curRequest s)"
  shows "\<exists>s' r. timeout_slot k h limit now ping s = Some (s', r) \<and>
    (r \<longleftrightarrow> (if due h limit now s then curRequest s = NULL else request s \<noteq> NULL \<and> ping \<noteq> Success)) \<and>
    (if r then expired s s' else s' = s\<lparr>workableTimestamp := last_use h s\<rparr>)"
proof -
  note fresh = refresh_from_user_defined [OF assms(3)]
  obtain n where n: "node_of h (request s) = Some n" using assms(2) by (auto simp: alive_def)
  show ?thesis
    using assms(1) fresh n
    by (cases k) (auto simp: timeout_slot_def timeout_prestarted_slot_def timeout_preconnected_slot_def
        Let_def ping_result_def due_def expired_def)
qed

lemma timeout_slot_dead: "status s \<noteq> live k \<Longrightarrow> timeout_slot k h limit now ping s = Some (s, False)"
  by (cases k) (simp_all add: timeout_slot_def timeout_prestarted_slot_def timeout_preconnected_slot_def)

section \<open>The loop\<close>

lemma timeout_loop_nth:
  assumes "\<And>j. j < length ss \<Longrightarrow> \<exists>s' r. f (now (i + j)) (ping (i + j)) (ss ! j) = Some (s', r)"
  shows "\<exists>n ss'. timeout_loop f now ping i ss = Some (n, ss') \<and> length ss' = length ss \<and>
    (\<forall>j < length ss. \<exists>r. f (now (i + j)) (ping (i + j)) (ss ! j) = Some (ss' ! j, r)) \<and>
    n = card {j. j < length ss \<and> (\<exists>s'. f (now (i + j)) (ping (i + j)) (ss ! j) = Some (s', True))}"
  using assms
proof (induction ss arbitrary: i)
  case Nil
  then show ?case by simp
next
  case (Cons s ss)
  from Cons.prems [of 0] obtain s' r where f: "f (now i) (ping i) s = Some (s', r)" by auto
  have "\<exists>n ss'. timeout_loop f now ping (Suc i) ss = Some (n, ss') \<and> length ss' = length ss \<and>
    (\<forall>j < length ss. \<exists>r. f (now (Suc i + j)) (ping (Suc i + j)) (ss ! j) = Some (ss' ! j, r)) \<and>
    n = card {j. j < length ss \<and> (\<exists>s'. f (now (Suc i + j)) (ping (Suc i + j)) (ss ! j) = Some (s', True))}"
    by (rule Cons.IH) (use Cons.prems in force)
  then obtain n ss' where l: "timeout_loop f now ping (Suc i) ss = Some (n, ss')" "length ss' = length ss"
    "\<And>j. j < length ss \<Longrightarrow> \<exists>r. f (now (Suc i + j)) (ping (Suc i + j)) (ss ! j) = Some (ss' ! j, r)"
    "n = card {j. j < length ss \<and> (\<exists>s'. f (now (Suc i + j)) (ping (Suc i + j)) (ss ! j) = Some (s', True))}"
    by blast
  let ?P = "\<lambda>j. \<exists>s'. f (now (i + j)) (ping (i + j)) ((s # ss) ! j) = Some (s', True)"
  have split: "{j. j < length (s # ss) \<and> ?P j} =
      (if r then {0} else {}) \<union> Suc ` {j. j < length ss \<and> ?P (Suc j)}"
    using f by (auto simp: less_Suc_eq_0_disj image_iff)
  have "card {j. j < length (s # ss) \<and> ?P j} = (if r then Suc n else n)"
    unfolding split using l(4) by (auto simp: card_image card_insert_if)
  moreover have "\<exists>r. f (now (i + j)) (ping (i + j)) ((s # ss) ! j) = Some ((s' # ss') ! j, r)"
    if "j < length (s # ss)" for j
    using f l(3) [of "j - 1"] that by (cases j) auto
  ultimately show ?case using f l(1,2) by auto
qed

section \<open>The pool\<close>

text \<open>What the timer makes of the slot at a position; \<open>NULL\<close>-typed positions do not exist.\<close>

definition timer_slot :: "heap \<Rightarrow> ConnectedPool \<Rightarrow> u64 readings \<Rightarrow> int readings \<Rightarrow> NlsType \<Rightarrow> kind \<Rightarrow> nat \<Rightarrow>
    ConnectedNodeProcess \<Rightarrow> (ConnectedNodeProcess \<times> bool) option" where
  "timer_slot h p now ping t k i s =
    timeout_slot k h (case k of Prestarted \<Rightarrow> prerequestedTimeoutMs p | Preconnected \<Rightarrow> preconnectedTimeoutMs p)
      (now t k i) (ping t k i) s"

lemma timer_slot_defined:
  assumes inv: "pool_inv h p" and at: "at p t k i = Some s"
  shows "\<exists>s' r. timer_slot h q now ping t k i s = Some (s', r)"
proof (cases "status s = live k")
  case True
  have "alive h (request s)" using live_node [OF inv at True] by (auto simp: alive_def)
  moreover have "alive h (curRequest s)" if "\<not> curRequestInvalid s" "curRequest s \<noteq> NULL"
    using inv at True that unfolding pool_inv_def owners_ok_def by blast
  ultimately show ?thesis using timeout_slot_cases [OF True] unfolding timer_slot_def by blast
qed (simp add: timer_slot_def timeout_slot_dead)

text \<open>\<open>p'\<close> is \<open>p\<close> after the timer on the positions that satisfy \<open>X\<close>.\<close>

definition timed :: "heap \<Rightarrow> ConnectedPool \<Rightarrow> u64 readings \<Rightarrow> int readings \<Rightarrow> ConnectedPool \<Rightarrow>
    (NlsType \<Rightarrow> bool) \<Rightarrow> bool" where
  "timed h p now ping p' X \<longleftrightarrow>
    (\<forall>t k i. at p' t k i = (case at p t k i of None \<Rightarrow> None | Some s \<Rightarrow>
      if X t then map_option fst (timer_slot h p now ping t k i s) else Some s)) \<and>
    (\<forall>t. poolProcess t p' = None \<longleftrightarrow> poolProcess t p = None) \<and>
    (\<forall>t k pp pp'. poolProcess t p = Some pp \<longrightarrow> poolProcess t p' = Some pp' \<longrightarrow>
      index_list k pp' = index_list k pp \<and> length (slots k pp') = length (slots k pp) \<and> work pp' = work pp) \<and>
    maxPreconnectedNumber p' = maxPreconnectedNumber p \<and>
    preconnectedTimeoutMs p' = preconnectedTimeoutMs p \<and>
    prerequestedTimeoutMs p' = prerequestedTimeoutMs p"

lemma timeout_loop_kind:
  assumes inv: "pool_inv h p" and pp: "poolProcess t p = Some pp"
  shows "\<exists>n ss. timeout_loop (timeout_slot k h
      (case k of Prestarted \<Rightarrow> prerequestedTimeoutMs p | Preconnected \<Rightarrow> preconnectedTimeoutMs p))
      (now t k) (ping t k) 0 (slots k pp) = Some (n, ss) \<and> length ss = length (slots k pp) \<and>
    (\<forall>i < length ss. map_option fst (timer_slot h p now ping t k i (slots k pp ! i)) = Some (ss ! i)) \<and>
    n = card {i. \<exists>s s'. at p t k i = Some s \<and> timer_slot h p now ping t k i s = Some (s', True)}"
proof -
  let ?f = "timeout_slot k h
    (case k of Prestarted \<Rightarrow> prerequestedTimeoutMs p | Preconnected \<Rightarrow> preconnectedTimeoutMs p)"
  have def': "\<exists>s' r. ?f (now t k (0 + j)) (ping t k (0 + j)) (slots k pp ! j) = Some (s', r)"
    if "j < length (slots k pp)" for j
    using timer_slot_defined [OF inv at_SomeI [OF pp that], of p now ping] by (simp add: timer_slot_def)
  from timeout_loop_nth [of "slots k pp" ?f "now t k" 0 "ping t k", OF def'] obtain n ss where
    l: "timeout_loop ?f (now t k) (ping t k) 0 (slots k pp) = Some (n, ss)" "length ss = length (slots k pp)"
    "\<And>j. j < length (slots k pp) \<Longrightarrow> \<exists>r. ?f (now t k j) (ping t k j) (slots k pp ! j) = Some (ss ! j, r)"
    "n = card {j. j < length (slots k pp) \<and> (\<exists>s'. ?f (now t k j) (ping t k j) (slots k pp ! j) = Some (s', True))}"
    by auto
  have "{i. \<exists>s s'. at p t k i = Some s \<and> timer_slot h p now ping t k i s = Some (s', True)} =
    {j. j < length (slots k pp) \<and> (\<exists>s'. ?f (now t k j) (ping t k j) (slots k pp ! j) = Some (s', True))}"
    using pp by (auto simp: at_def timer_slot_def split: if_splits)
  moreover have "map_option fst (timer_slot h p now ping t k i (slots k pp ! i)) = Some (ss ! i)"
    if "i < length ss" for i using l(2,3) that by (auto simp: timer_slot_def)
  ultimately show ?thesis using l(1,2,4) by auto
qed

definition marked :: "heap \<Rightarrow> ConnectedPool \<Rightarrow> u64 readings \<Rightarrow> int readings \<Rightarrow> NlsType \<Rightarrow> nat" where
  "marked h p now ping t =
    card {i. \<exists>s s'. at p t Prestarted i = Some s \<and> timer_slot h p now ping t Prestarted i s = Some (s', True)} +
    card {i. \<exists>s s'. at p t Preconnected i = Some s \<and> timer_slot h p now ping t Preconnected i s = Some (s', True)}"

definition worked :: "ConnectedPool \<Rightarrow> NlsType \<Rightarrow> bool" where
  "worked p t \<longleftrightarrow> (\<exists>pp. poolProcess t p = Some pp \<and> work pp)"

lemma timed_refl: "timed h p now ping p (\<lambda>_. False)"
  by (simp add: timed_def split: option.split)

lemma timeout_type_ok:
  assumes inv: "pool_inv h p"
  shows "\<exists>p'. timeout_type h now ping t p = Some (if worked p t then marked h p now ping t else 0, p') \<and>
    timed h p now ping p' (\<lambda>t'. t' = t \<and> worked p t)"
proof (cases "worked p t")
  case False
  then show ?thesis using timed_refl [of h p now ping]
    by (auto simp: timeout_type_def worked_def split: option.split)
next
  case True
  then obtain pp where pp: "poolProcess t p = Some pp" "work pp" by (auto simp: worked_def)
  from timeout_loop_kind [OF inv pp(1), of Prestarted now ping] obtain a ss where a:
    "timeoutPrestartedNode h (prerequestedTimeoutMs p) (now t Prestarted) (ping t Prestarted) (prestartedRequests pp) = Some (a, ss)"
    "length ss = length (prestartedRequests pp)"
    "\<And>i. i < length ss \<Longrightarrow> map_option fst (timer_slot h p now ping t Prestarted i (prestartedRequests pp ! i)) = Some (ss ! i)"
    "a = card {i. \<exists>s s'. at p t Prestarted i = Some s \<and> timer_slot h p now ping t Prestarted i s = Some (s', True)}"
    by (auto simp: timeoutPrestartedNode_def timeout_slot_def)
  from timeout_loop_kind [OF inv pp(1), of Preconnected now ping] obtain b cs where b:
    "timeoutPreconnectedNode h (preconnectedTimeoutMs p) (now t Preconnected) (ping t Preconnected) (preconnectedRequests pp) = Some (b, cs)"
    "length cs = length (preconnectedRequests pp)"
    "\<And>i. i < length cs \<Longrightarrow> map_option fst (timer_slot h p now ping t Preconnected i (preconnectedRequests pp ! i)) = Some (cs ! i)"
    "b = card {i. \<exists>s s'. at p t Preconnected i = Some s \<and> timer_slot h p now ping t Preconnected i s = Some (s', True)}"
    by (auto simp: timeoutPreconnectedNode_def timeout_slot_def)
  let ?pp' = "pp\<lparr>prestartedRequests := ss, preconnectedRequests := cs\<rparr>"
  let ?p' = "set_poolProcess t ?pp' p"
  have slots: "slots Prestarted ?pp' = ss" "slots Preconnected ?pp' = cs" by simp_all
  have idx: "index_list k ?pp' = index_list k pp" for k by (cases k) simp_all
  have len: "length (slots k ?pp') = length (slots k pp)" for k by (cases k) (simp_all add: a(2) b(2))
  have "at ?p' t' k i = (case at p t' k i of None \<Rightarrow> None | Some s \<Rightarrow>
      if t' = t \<and> worked p t then map_option fst (timer_slot h p now ping t' k i s) else Some s)" for t' k i
  proof (cases "t' = t")
    case True
    show ?thesis
    proof (cases k)
      case Prestarted
      then show ?thesis using True \<open>worked p t\<close> pp(1) a(2,3)
        by (auto simp: at_set_same [OF pp(1)] at_def simp del: map_option_eq_Some)
    next
      case Preconnected
      then show ?thesis using True \<open>worked p t\<close> pp(1) b(2,3)
        by (auto simp: at_set_same [OF pp(1)] at_def simp del: map_option_eq_Some)
    qed
  qed (simp add: at_set_same [OF pp(1)] split: option.split)
  then have "timed h p now ping ?p' (\<lambda>t'. t' = t \<and> worked p t)"
    unfolding timed_def using pp(1) idx len by (auto split: if_splits)
  moreover have "timeout_type h now ping t p = Some (a + b, ?p')"
    using pp a(1) b(1) by (simp add: timeout_type_def)
  ultimately show ?thesis using True a(4) b(4) by (auto simp: marked_def)
qed

text \<open>A pass over more types is the composition: a type is visited once.\<close>

lemma timed_trans:
  assumes "timed h p now ping q X" "timed h q now ping q' (\<lambda>t'. t' = t \<and> worked q t)" "\<not> X t"
  shows "timed h p now ping q' (\<lambda>t'. X t' \<or> (t' = t \<and> worked p t))"
proof -
  have w: "worked q t = worked p t"
    using assms(1) unfolding timed_def worked_def by (metis option.exhaust)
  have ts: "timer_slot h q now ping = timer_slot h p now ping"
    using assms(1) by (intro ext) (simp add: timer_slot_def timed_def split: kind.split)
  have A: "at q' t' k i = (case at p t' k i of None \<Rightarrow> None | Some s \<Rightarrow>
      if X t' \<or> t' = t \<and> worked p t then map_option fst (timer_slot h p now ping t' k i s) else Some s)" for t' k i
    using assms unfolding timed_def ts w by (cases "at p t' k i") (auto split: option.splits)
  show ?thesis unfolding timed_def
  proof (intro conjI allI impI)
    fix t' k pp pp' assume "poolProcess t' p = Some pp" "poolProcess t' q' = Some pp'"
    moreover from this obtain qq where "poolProcess t' q = Some qq"
      using assms(1) unfolding timed_def by (metis option.exhaust)
    ultimately show "index_list k pp' = index_list k pp" "length (slots k pp') = length (slots k pp)"
      "work pp' = work pp"
      using assms(1,2) unfolding timed_def by metis+
  qed (use A assms(1,2) in \<open>auto simp: timed_def\<close>)
qed

lemma marked_timed:
  assumes "timed h p now ping q X" "\<not> X t"
  shows "marked h q now ping t = marked h p now ping t" "worked q t = worked p t"
proof -
  have ts: "timer_slot h q now ping = timer_slot h p now ping"
    using assms(1) by (intro ext) (simp add: timer_slot_def timed_def split: kind.split)
  have "at q t k i = at p t k i" for k i
    using assms unfolding timed_def by (auto split: option.split)
  then show "marked h q now ping t = marked h p now ping t" by (simp add: marked_def ts)
  show "worked q t = worked p t"
    using assms(1) unfolding timed_def worked_def by (metis option.exhaust)
qed

section \<open>The invariant\<close>

lemma timer_slot_cases:
  assumes inv: "pool_inv h p" and at: "at p t k i = Some s" and live: "status s = live k"
  shows "\<exists>s' r. timer_slot h p now ping t k i s = Some (s', r) \<and>
    (r \<longleftrightarrow> (if due h (case k of Prestarted \<Rightarrow> prerequestedTimeoutMs p | Preconnected \<Rightarrow> preconnectedTimeoutMs p)
        (now t k i) s then curRequest s = NULL else ping t k i \<noteq> Success)) \<and>
    (if r then expired s s' \<and> (shouldPreconnect s' \<longrightarrow> shouldRelease s')
     else s' = s\<lparr>workableTimestamp := last_use h s\<rparr>)"
proof -
  have "alive h (request s)" using live_node [OF inv at live] by (auto simp: alive_def)
  moreover have "alive h (curRequest s)" if "\<not> curRequestInvalid s" "curRequest s \<noteq> NULL"
    using inv at live that unfolding pool_inv_def owners_ok_def by blast
  moreover have "request s \<noteq> NULL" using inv_slot [OF inv at] live by (simp add: slot_ok_def)
  ultimately show ?thesis
    using timeout_slot_cases [OF live, of h "case k of Prestarted \<Rightarrow> prerequestedTimeoutMs p | Preconnected \<Rightarrow> preconnectedTimeoutMs p"
        "now t k i" "ping t k i"]
    unfolding timer_slot_def by (auto simp: expired_def split: if_splits)
qed

lemma timed_at:
  assumes inv: "pool_inv h p" and timed: "timed h p now ping p' X" and at': "at p' t k i = Some s'"
  shows "\<exists>s. at p t k i = Some s \<and> (s' = s \<or> (status s = live k \<and>
    (expired s s' \<or> s' = s\<lparr>workableTimestamp := last_use h s\<rparr>)))"
proof -
  from timed at' obtain s where s: "at p t k i = Some s"
    "(if X t then map_option fst (timer_slot h p now ping t k i s) else Some s) = Some s'"
    unfolding timed_def by (auto split: option.splits)
  show ?thesis
  proof (cases "X t \<and> status s = live k")
    case True
    then show ?thesis using timer_slot_cases [OF inv s(1), of now ping] s by (auto split: if_splits)
  next
    case False
    then show ?thesis using s by (auto simp: timer_slot_def timeout_slot_dead split: if_splits)
  qed
qed

lemma timed_keeps:
  assumes "pool_inv h p" "timed h p now ping p' X" "at p' t k i = Some s'"
  shows "\<exists>s. at p t k i = Some s \<and> request s' = request s \<and> curRequest s' = curRequest s \<and>
    (status s' = live k \<longrightarrow> status s = live k \<and> curRequestInvalid s' = curRequestInvalid s \<and>
      sslHandle s' = sslHandle s \<and> socketFd s' = socketFd s)"
  using timed_at [OF assms] by (auto simp: expired_def)

lemma owners_okD:
  assumes "owners_ok h p" "at p t k i = Some s"
  shows "request s \<noteq> NULL \<Longrightarrow> alive h (request s)"
    "at p t' k' i' = Some s' \<Longrightarrow> request s = request s' \<Longrightarrow> request s \<noteq> NULL \<Longrightarrow> (t, k, i) = (t', k', i')"
    "status s = live k \<Longrightarrow> curRequest s \<noteq> NULL \<Longrightarrow> \<not> curRequestInvalid s \<Longrightarrow> alive h (curRequest s)"
  using assms unfolding owners_ok_def by blast+

lemma timed_safe:
  assumes safe: "safe h p" and timed: "timed h p now ping p' X"
  shows "safe h p'"
proof -
  have inv: "pool_inv h p" and conn: "conn_ok h p" using safe by (simp_all add: safe_def)
  note at' = timed_at [OF inv timed]
  have "process_shape (maxPreconnectedNumber p) pp'" if pp': "poolProcess t p' = Some pp'" for t pp'
  proof -
    have "poolProcess t p' = None \<longleftrightarrow> poolProcess t p = None" using timed unfolding timed_def by blast
    then obtain pp where pp: "poolProcess t p = Some pp" using pp' by auto
    have "index_list k pp' = index_list k pp \<and> length (slots k pp') = length (slots k pp)" for k
      using timed pp pp' unfolding timed_def by blast
    then show ?thesis using inv_shape [OF inv pp] unfolding process_shape_def by metis
  qed
  then have shape: "pool_shape p'" using inv timed by (simp add: pool_inv_def pool_shape_def timed_def)
  have slot: "slot_ok k s'" if "at p' t k i = Some s'" for t k i s'
  proof -
    from at' [OF that] obtain s where s: "at p t k i = Some s" "s' = s \<or> (status s = live k \<and>
      (expired s s' \<or> s' = s\<lparr>workableTimestamp := last_use h s\<rparr>))" by blast
    have "slot_ok k s" by (rule inv_slot [OF inv s(1)])
    with s(2) show ?thesis by (auto simp: slot_ok_def expired_def)
  qed
  note keeps = timed_keeps [OF inv timed]
  have own: "owners_ok h p" using inv by (simp add: pool_inv_def)
  have "owners_ok h p'"
    unfolding owners_ok_def
  proof (intro conjI allI impI)
    fix t k i s' assume "at p' t k i = Some s'" "request s' \<noteq> NULL"
    moreover from this obtain s where "at p t k i = Some s" "request s' = request s" using keeps by blast
    ultimately show "alive h (request s')" using owners_okD(1) [OF own] by simp
  next
    fix t k i s t' k' i' s'
    assume a: "at p' t k i = Some s" "at p' t' k' i' = Some s'" "request s \<noteq> NULL" "request s = request s'"
    obtain r where r: "at p t k i = Some r" "request s = request r" using keeps [OF a(1)] by blast
    obtain r' where r': "at p t' k' i' = Some r'" "request s' = request r'" using keeps [OF a(2)] by blast
    show "(t, k, i) = (t', k', i')"
      by (rule owners_okD(2) [OF own r(1) r'(1)]) (use r(2) r'(2) a(3,4) in simp_all)
  next
    fix t k i s' assume a: "at p' t k i = Some s'" "status s' = live k" "curRequest s' \<noteq> NULL"
      "\<not> curRequestInvalid s'"
    moreover from keeps [OF a(1)] a(2) obtain s where "at p t k i = Some s" "curRequest s' = curRequest s"
      "status s = live k" "curRequestInvalid s' = curRequestInvalid s" by blast
    ultimately show "alive h (curRequest s')" using owners_okD(3) [OF own] by simp
  qed
  moreover have "conn_ok h p'"
    unfolding conn_ok_def caches_def
  proof (intro allI impI)
    fix t k i s' assume a: "at p' t k i = Some s'" "status s' = live k"
    obtain s where s: "at p t k i = Some s" "request s' = request s" "status s = live k"
      "sslHandle s' = sslHandle s" "socketFd s' = socketFd s" using keeps [OF a(1)] a(2) by blast
    then show "\<exists>n. node_of h (request s') = Some n \<and> n_sslHandle n = sslHandle s' \<and>
        n_socketFd n = socketFd s' \<and> owns n"
      using conn unfolding conn_ok_def caches_def by auto
  qed
  ultimately show ?thesis
    using inv shape slot timed by (auto simp: safe_def pool_inv_def slots_ok_def timed_def)
qed

lemma timeout_type_safe:
  assumes "safe h p"
  shows "\<exists>n p'. timeout_type h now ping t p = Some (n, p') \<and> safe h p'"
  using timeout_type_ok [of h p now ping t] timed_safe [OF assms] assms by (auto simp: safe_def)

definition timers :: "NlsType set" where
  "timers = {TypeStreamInputTts, TypeAsr, TypeRealTime, TypeTts}"

lemma connectPoolEventCallback_timed:
  assumes safe: "safe h p"
  shows "\<exists>p'. connectPoolEventCallback h now ping False p =
      Some (\<Sum>t\<in>timers. if worked p t then marked h p now ping t else 0, p') \<and>
    timed h p now ping p' (\<lambda>t. t \<in> timers \<and> worked p t) \<and> safe h p'"
proof -
  have inv: "pool_inv h q" if "safe h q" for q using that by (simp add: safe_def)
  let ?m = "\<lambda>q t. if worked q t then marked h q now ping t else 0"
  from timeout_type_ok [OF inv [OF safe], of now ping TypeStreamInputTts] obtain p1 where
    p1: "timeout_type h now ping TypeStreamInputTts p = Some (?m p TypeStreamInputTts, p1)"
    "timed h p now ping p1 (\<lambda>t. t = TypeStreamInputTts \<and> worked p TypeStreamInputTts)" by blast
  note s1 = timed_safe [OF safe p1(2)]
  from timeout_type_ok [OF inv [OF s1], of now ping TypeAsr] obtain p2 where
    p2: "timeout_type h now ping TypeAsr p1 = Some (?m p1 TypeAsr, p2)"
    "timed h p1 now ping p2 (\<lambda>t. t = TypeAsr \<and> worked p1 TypeAsr)" by blast
  note s2 = timed_safe [OF s1 p2(2)] and t2 = timed_trans [OF p1(2) p2(2)]
  from timeout_type_ok [OF inv [OF s2], of now ping TypeRealTime] obtain p3 where
    p3: "timeout_type h now ping TypeRealTime p2 = Some (?m p2 TypeRealTime, p3)"
    "timed h p2 now ping p3 (\<lambda>t. t = TypeRealTime \<and> worked p2 TypeRealTime)" by blast
  note s3 = timed_safe [OF s2 p3(2)] and t3 = timed_trans [OF t2 p3(2)]
  from timeout_type_ok [OF inv [OF s3], of now ping TypeTts] obtain p4 where
    p4: "timeout_type h now ping TypeTts p3 = Some (?m p3 TypeTts, p4)"
    "timed h p3 now ping p4 (\<lambda>t. t = TypeTts \<and> worked p3 TypeTts)" by blast
  note s4 = timed_safe [OF s3 p4(2)] and t4 = timed_trans [OF t3 p4(2)]
  have m: "?m p1 TypeAsr = ?m p TypeAsr" "?m p2 TypeRealTime = ?m p TypeRealTime" "?m p3 TypeTts = ?m p TypeTts"
    using marked_timed [OF p1(2), of TypeAsr] marked_timed [OF t2, of TypeRealTime] marked_timed [OF t3, of TypeTts]
    by simp_all
  have "connectPoolEventCallback h now ping False p =
      Some (?m p TypeStreamInputTts + ?m p1 TypeAsr + ?m p2 TypeRealTime + ?m p3 TypeTts, p4)"
    by (simp only: connectPoolEventCallback_def p1(1) p2(1) p3(1) p4(1) if_False bind.bind_lunit prod.case)
  moreover have "(\<Sum>t\<in>timers. ?m p t) =
      ?m p TypeStreamInputTts + ?m p1 TypeAsr + ?m p2 TypeRealTime + ?m p3 TypeTts"
    unfolding m timers_def by simp
  moreover have "timed h p now ping p4 (\<lambda>t. t \<in> timers \<and> worked p t)"
  proof -
    have "(\<lambda>t. ((t = TypeStreamInputTts \<and> worked p TypeStreamInputTts \<or> t = TypeAsr \<and> worked p TypeAsr) \<or>
        t = TypeRealTime \<and> worked p TypeRealTime) \<or> t = TypeTts \<and> worked p TypeTts) =
      (\<lambda>t. t \<in> timers \<and> worked p t)" by (auto simp: timers_def)
    then show ?thesis using t4 by simp
  qed
  ultimately show ?thesis using s4 by (intro exI [of _ p4]) simp
qed

end
