(* ===== verification/PoolRelease.thy ===== *)
theory PoolRelease
  imports PoolTimer
begin

text \<open>
  The release event of the connection pool: it deletes the requests of the slots the timer
  marked and prepares new connections for some. A request stored in the pool must not be
  somebody's user; this part of the invariant is kept as two sets of pointers.
\<close>

section \<open>Stored requests and users\<close>

definition requests :: "ConnectedPool \<Rightarrow> ptr set" where
  "requests p = {r. \<exists>t k i s. at p t k i = Some s \<and> request s = r}"

definition users :: "ConnectedPool \<Rightarrow> ptr set" where
  "users p = {r. \<exists>t k i s. at p t k i = Some s \<and> curRequest s = r}"

definition sound :: "heap \<Rightarrow> ConnectedPool \<Rightarrow> bool" where
  "sound h p \<longleftrightarrow> safe h p \<and> users p \<inter> requests p \<subseteq> {NULL}"

lemma stored_requests: "stored p r \<longleftrightarrow> r \<in> requests p"
  by (simp add: stored_def requests_def)

lemma in_use_users: "in_use p r \<Longrightarrow> r \<in> users p"
  by (auto simp: in_use_def users_def)

text \<open>\<open>within R U p p'\<close>: a step of the pool stores only the requests in \<open>R\<close>, gives slots only to
the users in \<open>U\<close>, and keeps the positions.\<close>

definition within :: "ptr set \<Rightarrow> ptr set \<Rightarrow> ConnectedPool \<Rightarrow> ConnectedPool \<Rightarrow> bool" where
  "within R U p p' \<longleftrightarrow> requests p' \<subseteq> insert NULL (R \<union> requests p) \<and> users p' \<subseteq> insert NULL (U \<union> users p) \<and>
    (\<forall>t k i. at p t k i \<noteq> None \<longrightarrow> at p' t k i \<noteq> None)"

lemma within_refl [simp]: "within R U p p"
  by (auto simp: within_def)

lemma within_trans: "within R U p q \<Longrightarrow> within R' U' q p' \<Longrightarrow> within (R \<union> R') (U \<union> U') p p'"
  by (auto simp: within_def)

lemma within_trans0: "within {} {} p q \<Longrightarrow> within R U q p' \<Longrightarrow> within R U p p'"
  using within_trans [of "{}" "{}" p q R U p'] by simp

lemma within_at: "at p' = at p \<Longrightarrow> within R U p p'"
  by (auto simp: within_def requests_def users_def)

lemma requestsI: "at p t k i = Some s \<Longrightarrow> request s \<in> requests p"
  unfolding requests_def by blast

lemma usersI: "at p t k i = Some s \<Longrightarrow> curRequest s \<in> users p"
  unfolding users_def by blast

lemma withinI:
  assumes "\<And>t k i s. at p' t k i = Some s \<Longrightarrow> request s \<in> insert NULL (R \<union> requests p) \<and>
    curRequest s \<in> insert NULL (U \<union> users p)"
    and keep: "\<And>t k i. at p t k i \<noteq> None \<Longrightarrow> at p' t k i \<noteq> None"
  shows "within R U p p'"
  unfolding within_def
proof (intro conjI subsetI allI impI)
  fix r assume "r \<in> requests p'"
  then obtain t k i s where "at p' t k i = Some s" "request s = r" unfolding requests_def by blast
  then show "r \<in> insert NULL (R \<union> requests p)" using assms(1) [of t k i s] by auto
next
  fix r assume "r \<in> users p'"
  then obtain t k i s where "at p' t k i = Some s" "curRequest s = r" unfolding users_def by blast
  then show "r \<in> insert NULL (U \<union> users p)" using assms(1) [of t k i s] by auto
qed (rule keep)

lemma within_changed:
  assumes "changed p p' t k i s" "request s \<in> insert NULL (R \<union> requests p)"
    "curRequest s \<in> insert NULL (U \<union> users p)"
  shows "within R U p p'"
proof -
  have *: "at p' t' k' j = Some s' \<Longrightarrow> s' = s \<or> at p t' k' j = Some s'" for t' k' j s'
    using assms(1) by (auto simp: changed_def split: if_splits)
  show ?thesis
  proof (rule withinI)
    show "at p' t' k' j \<noteq> None" if "at p t' k' j \<noteq> None" for t' k' j
      using assms(1) that by (simp add: changed_def)
  qed (use * assms(2,3) requestsI usersI in blast)
qed

lemma within_upd:
  assumes pp: "poolProcess t p = Some pp" "i < length (slots k pp)"
    and pp': "slots k pp' = (slots k pp)[i := s]" "\<And>k'. k' \<noteq> k \<Longrightarrow> slots k' pp' = slots k' pp"
    and s: "request s \<in> insert NULL (insert (request (slots k pp ! i)) R)"
      "curRequest s \<in> insert NULL (insert (curRequest (slots k pp ! i)) U)"
  shows "within R U p (set_poolProcess t pp' p)"
proof (rule within_changed [OF changedI [OF pp(1) pp' pp(2)]])
  have "request (slots k pp ! i) \<in> requests p" "curRequest (slots k pp ! i) \<in> users p"
    using at_SomeI [OF pp] unfolding requests_def users_def by blast+
  then show "request s \<in> insert NULL (R \<union> requests p)" "curRequest s \<in> insert NULL (U \<union> users p)"
    using s by auto
qed

lemma sound_within:
  assumes "sound h p" "safe h' p'" "within R U p p'" "R \<inter> (U \<union> users p) \<subseteq> {NULL}" "U \<inter> requests p \<subseteq> {NULL}"
  shows "sound h' p'"
  using assms unfolding sound_def within_def by blast

lemma sound_step: "sound h p \<Longrightarrow> safe h' p' \<Longrightarrow> within {} {} p p' \<Longrightarrow> sound h' p'"
  by (rule sound_within [of h p h' p' "{}" "{}"]) auto

subsection \<open>The operations\<close>

lemma within_clear:
  "poolProcess t p = Some pp \<Longrightarrow> i < length (slots k pp) \<Longrightarrow>
    within {} {} p (set_poolProcess t (upd_slot k i clearNode pp) p)"
  by (rule within_upd [where k = k and i = i]) (auto simp: clearNode_def)

lemma within_init: "within {} {} p (initThisNodesPool t p)"
proof (cases "poolProcess t p")
  case (Some pp)
  have new: "request (new_slot t) = NULL" "curRequest (new_slot t) = NULL" by (simp_all add: new_slot_def)
  show ?thesis
  proof (rule withinI)
    show "at (initThisNodesPool t p) t' k i \<noteq> None" if "at p t' k i \<noteq> None" for t' k i
    proof -
      have "slots k (pp\<lparr>prestartedRequests := grow t n (prestartedRequests pp),
          preconnectedRequests := grow t n (preconnectedRequests pp)\<rparr>) = grow t n (slots k pp)" for n
        by (cases k) simp_all
      then show ?thesis using that Some
        by (auto simp: initThisNodesPool_def Let_def at_def grow_def split: if_splits)
    qed
  qed (use at_grow [OF Some] new requestsI usersI in fastforce)
qed (simp add: initThisNodesPool_def)

lemma within_ensure: "within {} {} p (ensure_pool t p)"
  by (simp add: ensure_pool_def within_init split: prod.split)

lemma within_curRequestIsAbnormal:
  assumes "curRequestIsAbnormal h p req t = Some p'"
  shows "within {} {} p p'"
proof -
  have "within {} {} p (set_poolProcess t (mark_abnormal k i pp) p)" if "find_live k t P p = Some (pp, i)"
    for k P pp i
    using find_live_SomeD [OF that]
    by (intro within_upd [where k = k and i = i]) (auto simp: mark_abnormal_def)
  then show ?thesis
    using assms by (auto simp: curRequestIsAbnormal_def Let_def split: bind_splits option.splits)
qed

lemma within_finishPushPreNode:
  assumes "finishPushPreNode h p t fd ssl index = Some p'"
  shows "within {} {} p p'"
proof -
  have "within {} {} p (set_poolProcess t (make_pickable k i pp) p)"
    if "poolProcess t p = Some pp" "i < length (slots k pp)" for k i pp
    using that by (intro within_upd [where k = k and i = i]) (auto simp: make_pickable_def)
  then show ?thesis
    using assms by (auto simp: finishPushPreNode_def Let_def split: bind_splits option.splits
      elim!: finish_kind_SomeD)
qed

lemma within_deletePreNodeByRequest:
  assumes "deletePreNodeByRequest h p req t = Some (r, p')"
  shows "within {} {} p p'"
  using assms
  by (auto simp: deletePreNodeByRequest_def split: bind_splits option.splits
      dest!: match_request_SomeD intro: within_clear)

lemma within_deletePreNodeBySSL:
  assumes "deletePreNodeBySSL h p ssl t = Some (r, h', p')"
  shows "within {} {} p p'"
proof -
  have "within {} {} p p1" if "find_live k t P p = Some (pp, i)" "delete_slot k h p t pp i = Some (h1, p1)"
    for k P pp i h1 p1
    using find_live_SomeD [OF that(1)] that(2)
    by (auto simp: delete_slot_def Let_def split: bind_splits intro: within_clear)
  then show ?thesis
    using assms by (auto simp: deletePreNodeBySSL_def split: option.splits bind_splits)
qed

lemma within_store_new:
  assumes pp: "poolProcess t p = Some pp" and st: "store_new k now h p req t pp n = Some (r, h', p')"
  shows "within {req} {} p p'"
  using st pp
  by (auto simp: store_new_def fill_slot_def split: option.splits bind_splits
      intro!: within_upd [where k = k and s = "fill_slot k now req n prm s" for prm s])

lemma within_push:
  assumes inv: "pool_inv h p" and push: "push_node k now h p req t newNode = Some (r, h', p')"
  shows "within {req} {} p p'"
proof (cases "req = NULL \<or> poolProcess t (ensure_pool t p) = None")
  case True
  then show ?thesis using push within_ensure [of p t]
    by (auto simp: push_node_def Let_def within_def split: if_splits bind_splits)
next
  case False
  then obtain pp where pp: "poolProcess t (ensure_pool t p) = Some pp" and req: "req \<noteq> NULL" by auto
  from push req pp obtain n ex where n: "node_of h req = Some n"
    "(if newNode then Some False else existing_slot h k pp n) = Some ex"
    by (auto simp: push_node_def Let_def split: bind_splits)
  have "within {req} {} (ensure_pool t p) p'"
  proof (cases ex)
    case True
    have "length (slots k pp) = maxPreconnectedNumber (ensure_pool t p)"
      using ensure_pool_length [OF inv pp] by simp
    from existing_slot_ex [OF inv_ensure [OF inv] pp this n(1)] n(2) True
    have "nat (n_poolIndex n) < length (slots k pp)" by (auto split: if_splits)
    then show ?thesis
      using push req pp n True
      by (auto simp: push_node_def Let_def refresh_slot_def intro!: within_upd [OF pp])
  next
    case False
    then have "store_new k now h (ensure_pool t p) req t pp n = Some (r, h', p')"
      using push req pp n by (auto simp: push_node_def Let_def)
    then show ?thesis by (rule within_store_new [OF pp])
  qed
  then show ?thesis by (rule within_trans0 [OF within_ensure])
qed

lemma within_timed:
  assumes inv: "pool_inv h p" and timed: "timed h p now ping p' X"
  shows "within {} {} p p'"
proof (rule withinI)
  fix t k i s' assume "at p' t k i = Some s'"
  from timed_keeps [OF inv timed this] obtain s where s: "at p t k i = Some s" "request s' = request s"
    "curRequest s' = curRequest s" by blast
  then show "request s' \<in> insert NULL ({} \<union> requests p) \<and> curRequest s' \<in> insert NULL ({} \<union> users p)"
    using requestsI [OF s(1)] usersI [OF s(1)] by simp
next
  show "at p' t k i \<noteq> None" if at: "at p t k i \<noteq> None" for t k i
  proof -
    obtain s where s: "at p t k i = Some s" using at by blast
    obtain s' r where "timer_slot h p now ping t k i s = Some (s', r)"
      using timer_slot_defined [OF inv s] by blast
    then show ?thesis using timed s unfolding timed_def by simp
  qed
qed

section \<open>Deleting a stored request\<close>

lemma sound_safe: "sound h p \<Longrightarrow> safe h p"
  by (simp add: sound_def)

lemma sound_inv: "sound h p \<Longrightarrow> pool_inv h p"
  by (simp add: sound_def safe_def)

lemma sound_conn: "sound h p \<Longrightarrow> conn_ok h p"
  by (simp add: sound_def safe_def)

lemma sound_not_user:
  "sound h p \<Longrightarrow> at p t k i = Some s \<Longrightarrow> request s \<noteq> NULL \<Longrightarrow> request s \<notin> users p"
  using requestsI [of p t k i s] by (auto simp: sound_def)

lemma sound_delete_slot:
  assumes sound: "sound h p" and pp: "poolProcess t p = Some pp" "i < length (slots k pp)"
  shows "\<exists>h'. delete_slot k h p t pp i = Some (h', set_poolProcess t (upd_slot k i clearNode pp) p) \<and>
    sound h' (set_poolProcess t (upd_slot k i clearNode pp) p)"
proof -
  let ?p' = "set_poolProcess t (upd_slot k i clearNode pp) p" and ?s = "slots k pp ! i"
  have within: "within {} {} p ?p'" by (rule within_clear [OF pp])
  have "\<not> in_use ?p' (request ?s)" if "request ?s \<noteq> NULL"
    using sound_not_user [OF sound at_SomeI [OF pp] that] within that in_use_users [of ?p' "request ?s"]
    by (auto simp: within_def)
  then obtain h' where h': "delete_slot k h p t pp i = Some (h', ?p')" "pool_inv h' ?p'"
    by (rule inv_delete_slot [OF sound_inv [OF sound] pp])
  have "conn_ok h' ?p'" by (rule conn_delete_slot [OF sound_inv [OF sound] sound_conn [OF sound] pp h'(1)])
  then have "safe h' ?p'" using h'(2) by (simp add: safe_def)
  then show ?thesis using sound_step [OF sound _ within] h'(1) by blast
qed

lemma sound_deletePreNodeBySSL:
  assumes sound: "sound h p"
  shows "\<exists>r h' p'. deletePreNodeBySSL h p ssl t = Some (r, h', p') \<and> sound h' p'"
proof -
  have "\<not> in_use p (request s)" if "at p t k i = Some s" "request s \<noteq> NULL" for t k i s
    using sound_not_user [OF sound that] in_use_users by blast
  then obtain r h' p' where d: "deletePreNodeBySSL h p ssl t = Some (r, h', p')" "safe h' p'"
    using safe_deletePreNodeBySSL [OF sound_safe [OF sound], of ssl t] by blast
  then show ?thesis using sound_step [OF sound d(2) within_deletePreNodeBySSL [OF d(1)]] by blast
qed

section \<open>Finishing\<close>

lemma finish_kind_defined:
  assumes inv: "pool_inv h p" and i: "int start < int (maxPreconnectedNumber p) \<or> start = 0"
  shows "finish_kind k h p t fd ssl start \<noteq> None"
proof (cases "poolProcess t p")
  case None
  then show ?thesis by (simp add: finish_kind_def find_from_def)
next
  case (Some pp)
  show ?thesis
  proof (cases "count_live k t p = 0")
    case True
    then show ?thesis by (simp add: finish_kind_def find_from_def)
  next
    case False
    then have "slots k pp \<noteq> []" using Some by (auto simp: count_live_def)
    then have len: "start \<le> length (slots k pp)"
      using process_shapeD(1) [OF inv_shape [OF inv Some], of k] i by auto
    show ?thesis
    proof (cases "first_index_from (\<lambda>s. status s = live k \<and> same_slot fd ssl s) start (slots k pp)")
      case None
      then show ?thesis using Some False len by (simp add: finish_kind_def find_from_def)
    next
      case found: (Some j)
      have j: "j < length (slots k pp)" "status (slots k pp ! j) = live k"
        using first_index_from_SomeD [OF found] by auto
      have "getConnectNode h (request (slots k pp ! j)) \<noteq> None"
        using live_node [OF inv at_SomeI [OF Some j(1)] j(2)]
        by (auto simp: getConnectNode_def node_of_def split: bind_splits)
      then show ?thesis using Some False len found by (auto simp: finish_kind_def find_from_def)
    qed
  qed
qed

lemma finish_defined:
  assumes "pool_inv h p" "index < int (maxPreconnectedNumber p)"
  shows "\<exists>p'. finishPushPreNode h p t fd ssl index = Some p'"
proof -
  let ?i = "if 0 \<le> index then nat index else 0"
  have i: "int ?i < int (maxPreconnectedNumber p) \<or> ?i = 0" using assms(2) by auto
  have k: "finish_kind k h p t fd ssl ?i \<noteq> None" for k by (rule finish_kind_defined [OF assms(1) i])
  obtain r where r: "finish_kind Prestarted h p t fd ssl ?i = Some r" using k by blast
  obtain r' where r': "finish_kind Preconnected h p t fd ssl ?i = Some r'" using k by blast
  show ?thesis using r r' unfolding finishPushPreNode_def Let_def
    by (cases r) simp_all
qed

lemma sound_finish:
  assumes "sound h p" "finishPushPreNode h p t fd ssl index = Some p'"
  shows "sound h p'"
proof (rule sound_step [OF assms(1)])
  show "safe h p'"
    using inv_finishPushPreNode [OF sound_inv [OF assms(1)] assms(2)]
      conn_finishPushPreNode [OF sound_conn [OF assms(1)] assms(2)] by (simp add: safe_def)
qed (rule within_finishPushPreNode [OF assms(2)])

section \<open>Preparing a new connection\<close>

text \<open>
  What the environment promises when it creates a request: the allocator returns addresses of
  no living object (nor one a slot still names as its user), the SSL handle is not null, and
  the client's release of a request that was never stored deletes it and leaves the pool alone.
\<close>

definition env_ok :: "pool_env \<Rightarrow> heap \<Rightarrow> ConnectedPool \<Rightarrow> bool" where
  "env_ok e h p \<longleftrightarrow> e_request e \<noteq> NULL \<longrightarrow>
    reqs h (e_request e) = None \<and> nodes h (e_node e) = None \<and> e_ssl e \<noteq> NULL \<and>
    \<not> ssls h (e_ssl e) \<and> e_request e \<notin> users p \<and>
    (\<forall>h' p' r. e_release e h' p' r = map_option (\<lambda>h''. (h'', p')) (delete_request h' r))"

lemma create_request_ok:
  assumes ok: "heap_ok h" and e: "env_ok e h p" "e_request e \<noteq> NULL"
  shows "heap_ok (create_request e h t sdk v long)"
    "node_of (create_request e h t sdk v long) r = (if r = e_request e then
      Some \<lparr>n_request = e_request e, n_sslHandle = e_ssl e, n_nativeSslHandle = e_ssl e,
        n_socketFd = INVALID_SOCKET, n_url = [], n_poolIndex = -1, n_last_op = e_created e,
        n_isLongConnection = long,
        n_uuid = e_uuid e, n_usePreconnection = False\<rparr> else node_of h r)"
proof -
  let ?h = "create_request e h t sdk v long"
  let ?n = "\<lparr>n_request = e_request e, n_sslHandle = e_ssl e, n_nativeSslHandle = e_ssl e,
    n_socketFd = INVALID_SOCKET, n_url = [], n_poolIndex = -1, n_last_op = e_created e,
    n_isLongConnection = long,
        n_uuid = e_uuid e, n_usePreconnection = False\<rparr>"
  have fresh: "reqs h (e_request e) = None" "nodes h (e_node e) = None" "\<not> ssls h (e_ssl e)"
    using e by (simp_all add: env_ok_def)
  have old: "r_node q \<noteq> e_node e" if "reqs h r = Some q" for r q
    using ok fresh(2) that unfolding heap_ok_def by metis
  have nodes: "node_of ?h r = (if r = e_request e then Some ?n else node_of h r)" for r
    using old by (auto simp: node_of_def create_request_def split: bind_splits)
  then show "node_of ?h r = (if r = e_request e then Some ?n else node_of h r)" .
  have ssl: "n_sslHandle m \<noteq> e_ssl e" if "node_of h r = Some m" "owns m" for r m
    using ok fresh(3) that unfolding heap_ok_def by metis
  show "heap_ok ?h"
    unfolding heap_ok_def
  proof (intro conjI allI impI)
    show "reqs ?h NULL = None" using ok e(2) by (simp add: create_request_def heap_ok_def)
    show "nodes ?h (r_node q) \<noteq> None" if "reqs ?h r = Some q" for r q
      using ok that by (auto simp: create_request_def heap_ok_def split: if_splits)
    show "r = r'" if "reqs ?h r = Some q" "reqs ?h r' = Some q'" "r_node q = r_node q'" for r r' q q'
      using ok that old [of r q] old [of r' q'] by (auto simp: create_request_def heap_ok_def split: if_splits)
    show "ssls ?h (n_sslHandle m)" if "node_of ?h r = Some m" "owns m" for r m
      using ok that nodes by (auto simp: create_request_def heap_ok_def split: if_splits)
    show "r = r'" if "node_of ?h r = Some m" "node_of ?h r' = Some m'" "owns m" "owns m'"
      "n_sslHandle m = n_sslHandle m'" for r r' m m'
    proof (cases "r = e_request e \<or> r' = e_request e")
      case True
      then show ?thesis using that nodes [of r] nodes [of r'] ssl [of r m] ssl [of r' m']
        by (auto simp del: split_paired_Ex split: if_splits)
    next
      case False
      then show ?thesis using that nodes ok unfolding heap_ok_def by metis
    qed
  qed
qed

text \<open>A heap with one more object, which nothing refers to.\<close>

lemma safe_more:
  assumes safe: "safe h p" and ok: "heap_ok h'" and new: "node_of h r = None"
    and nodes: "\<And>r'. node_of h' r' = (if r' = r then n else node_of h r')"
    and idx: "\<And>m. n = Some m \<Longrightarrow> n_poolIndex m = -1"
  shows "safe h' p"
proof -
  have al: "alive h r' \<Longrightarrow> alive h' r'" for r' using new nodes by (auto simp: alive_def)
  have "owners_ok h' p" using safe al by (auto simp: safe_def pool_inv_def intro: owners_ok_heap)
  moreover have "indexes_ok h' (maxPreconnectedNumber p)"
    using safe nodes idx by (auto simp: safe_def pool_inv_def indexes_ok_def split: if_splits)
  moreover have "conn_ok h' p"
    unfolding conn_ok_def
  proof (intro allI impI)
    fix t k i s assume "at p t k i = Some s"
    then have "caches h k s" using safe by (simp add: safe_def conn_ok_def)
    then show "caches h' k s"
      by (rule caches_cong) (use new nodes in auto)
  qed
  ultimately show ?thesis using safe ok by (simp add: safe_def pool_inv_def)
qed

lemma set_param_ok:
  assumes "heap_ok h" "alive h r"
  shows "\<exists>h'. set_param h r prm = Some h' \<and> heap_ok h' \<and> node_of h' = node_of h"
proof -
  obtain q where q: "reqs h r = Some q" using assms alive_reqs by fastforce
  let ?h = "h\<lparr>reqs := (reqs h)(r \<mapsto> q\<lparr>r_param := prm\<rparr>)\<rparr>"
  have n: "node_of ?h = node_of h" using q by (intro ext) (simp add: node_of_def)
  have nul: "r \<noteq> NULL" using q assms(1) unfolding heap_ok_def by (metis option.distinct(1))
  have "heap_ok ?h" unfolding heap_ok_def n
  proof (intro conjI allI impI)
    show "reqs ?h NULL = None" using nul assms(1) by (simp add: heap_ok_def)
    show "nodes ?h (r_node q') \<noteq> None" if "reqs ?h r' = Some q'" for r' q'
      using that q assms(1) unfolding heap_ok_def by (auto split: if_splits)
    show "r1 = r2" if qs: "reqs ?h r1 = Some q1" "reqs ?h r2 = Some q2" "r_node q1 = r_node q2" for r1 r2 q1 q2
    proof -
      obtain p1 p2 where "reqs h r1 = Some p1" "reqs h r2 = Some p2" "r_node p1 = r_node p2"
        using qs q by (auto split: if_splits)
      then show ?thesis using assms(1) unfolding heap_ok_def by metis
    qed
    show "ssls ?h (n_sslHandle m)" if "node_of h r' = Some m" "owns m" for r' m
      using that assms(1) by (simp add: heap_ok_def)
    show "r1 = r2" if "node_of h r1 = Some m1" "node_of h r2 = Some m2" "owns m1" "owns m2"
      "n_sslHandle m1 = n_sslHandle m2" for r1 r2 m1 m2
      using that assms(1) unfolding heap_ok_def by metis
  qed
  then show ?thesis using q n by (simp add: set_param_def)
qed

lemma sound_push_linked:
  assumes sound: "sound h p" and r: "node_of h r = Some n" "owns n" "r \<notin> users p" "r \<notin> requests p"
  shows "\<exists>h' p'. push_linked now h p r t = Some (h', p') \<and> sound h' p' \<and> within {r} {} p p'"
proof -
  obtain res h1 p1 where push: "push_node Preconnected now h p r t True = Some (res, h1, p1)" "safe h1 p1"
    using safe_push [OF sound_safe [OF sound] r(1), where newNode = True and k = Preconnected and t = t and now = now] r(2,4)
    by (auto simp: stored_requests)
  note w = within_push [OF sound_inv [OF sound] push(1)]
  have sound1: "sound h1 p1"
    by (rule sound_within [OF sound push(2) w]) (use r(3) in auto)
  have "alive h1 r"
    using push(1) r(1) sound_inv [OF sound]
    by (auto simp: push_node_def Let_def alive_def store_new_def pool_inv_def split: if_splits option.splits bind_splits
        dest!: update_node_SomeD [rotated])
  then obtain m where m: "node_of h1 r = Some m" by (auto simp: alive_def)
  have idx: "n_poolIndex m < int (maxPreconnectedNumber p1) \<or> n_poolIndex m = -1"
    using sound_inv [OF sound1] m unfolding pool_inv_def indexes_ok_def by blast
  show ?thesis
  proof (cases res)
    case True
    have "n_poolIndex m < int (maxPreconnectedNumber p1)" using idx by auto
    then obtain p2 where p2: "finishPushPreNode h1 p1 t (n_socketFd m) (n_sslHandle m) (n_poolIndex m) = Some p2"
      using finish_defined [OF sound_inv [OF sound1]] by blast
    have "within {r} {} p p2"
      using within_trans [OF w within_finishPushPreNode [OF p2]] by simp
    then show ?thesis using True push(1) m p2 sound_finish [OF sound1 p2]
      by (simp add: push_linked_def pushPreconnectedNode_def)
  next
    case False
    obtain b h2 p2 where d: "deletePreNodeBySSL h1 p1 (n_sslHandle m) t = Some (b, h2, p2)" "sound h2 p2"
      using sound_deletePreNodeBySSL [OF sound1] by blast
    have "within {r} {} p p2"
      using within_trans [OF w within_deletePreNodeBySSL [OF d(1)]] by simp
    then show ?thesis using False push(1) m d
      by (simp add: push_linked_def pushPreconnectedNode_def)
  qed
qed

lemma env_ok_within:
  "env_ok e h p \<Longrightarrow> at p' = at p \<Longrightarrow> env_ok e h p'"
  by (simp add: env_ok_def users_def)

lemma sound_preconnect:
  assumes sound: "sound h p" and req: "req = NULL \<or> alive h req" and e: "env_ok e h p"
  shows "\<exists>h' p'. preconnectNodeByRequest e h p req = Some (h', p') \<and> sound h' p' \<and>
    (\<exists>R. within R {} p p')"
proof (cases "req = NULL \<or> e_request e = NULL \<or> (\<exists>prm. getRequestParam h req = Some prm \<and> \<not> poolable (p_mode (p_conn prm)))")
  case True
  show ?thesis
  proof (cases "req = NULL")
    case False
    then obtain n where n: "node_of h req = Some n" using req by (auto simp: alive_def)
    then obtain prm where "getRequestParam h req = Some prm" using node_param by blast
    then show ?thesis using True n False sound within_refl
      by (auto simp: preconnectNodeByRequest_def Let_def)
  qed (use sound within_refl in \<open>auto simp: preconnectNodeByRequest_def\<close>)
next
  case False
  then have req0: "req \<noteq> NULL" and e0: "e_request e \<noteq> NULL" by simp_all
  from req req0 obtain node where node: "node_of h req = Some node" by (auto simp: alive_def)
  then obtain prm where prm: "getRequestParam h req = Some prm" using node_param by blast
  then have pl: "poolable (p_mode (p_conn prm))" using False by blast
  let ?r = "e_request e" and ?t = "p_mode (p_conn prm)"
  let ?h1 = "create_request e h ?t (p_sdkName (p_conn prm)) (p_version prm) (n_isLongConnection node)"
  have ok: "heap_ok h" using sound_inv [OF sound] by (simp add: pool_inv_def)
  note h1 = create_request_ok [OF ok e e0, of ?t "p_sdkName (p_conn prm)" "p_version prm" "n_isLongConnection node"]
  have fresh: "reqs h ?r = None" "?r \<notin> users p" using e e0 by (simp_all add: env_ok_def)
  then have new: "node_of h ?r = None" by (simp add: node_of_def)
  have neq: "req \<noteq> ?r" using node new by auto
  have safe1: "safe ?h1 p"
    by (rule safe_more [OF sound_safe [OF sound] h1(1) new h1(2)]) auto
  have notin: "?r \<notin> requests p"
  proof
    assume "?r \<in> requests p"
    then obtain t k i s where "at p t k i = Some s" "request s = ?r" unfolding requests_def by blast
    then show False using slot_node [OF sound_inv [OF sound]] e0 new by fastforce
  qed
  obtain newPrm where newPrm: "getRequestParam ?h1 ?r = Some newPrm"
    by (simp add: getRequestParam_def create_request_def)
  have oldPrm: "getRequestParam ?h1 req = Some prm"
    using prm neq by (simp add: getRequestParam_def create_request_def)
  have "alive ?h1 ?r" using h1(2) by (simp add: alive_def)
  from set_param_ok [OF h1(1) this] obtain h2 where
    h2: "set_param ?h1 ?r (param_assign newPrm prm) = Some h2" "heap_ok h2" "node_of h2 = node_of ?h1"
    by blast
  show ?thesis
  proof (cases "e_startInner e = Success \<and> e_link e")
    case True
    let ?f = "\<lambda>n. n\<lparr>n_socketFd := e_socketFd e, n_url := e_url e\<rparr>"
    obtain n2 where n2: "node_of h2 ?r = Some n2" "owns n2" "n_poolIndex n2 = -1"
      using h1(2) h2(3) e e0 by (simp add: owns_def env_ok_def)
    obtain h3 where h3: "update_node h2 ?r ?f = Some h3" "heap_ok h3"
      "\<And>r'. node_of h3 r' = (if r' = ?r then Some (?f n2) else node_of h2 r')"
      by (rule update_node_ok [OF h2(2) n2(1), of ?f]) (auto simp: owns_def)
    have "safe h3 p"
    proof (rule safe_more [OF sound_safe [OF sound] h3(2) new])
      show "node_of h3 r' = (if r' = ?r then Some (?f n2) else node_of h r')" for r'
        using h3(3) h2(3) h1(2) by simp
    qed (use n2(3) in simp)
    then have sound3: "sound h3 p" using sound by (simp add: sound_def)
    have "node_of h3 ?r = Some (?f n2)" "owns (?f n2)" using h3(3) n2(2) by (simp_all add: owns_def)
    from sound_push_linked [OF sound3 this fresh(2) notin, of "e_now e" ?t] obtain h4 p4 where
      "push_linked (e_now e) h3 p ?r ?t = Some (h4, p4)" "sound h4 p4" "within {?r} {} p p4" by blast
    then show ?thesis
      using True req0 e0 prm node pl newPrm oldPrm h2(1) h3(1)
      by (auto simp: preconnectNodeByRequest_def Let_def)
  next
    case fail: False
    have "alive h2 ?r" using h2(3) h1(2) by (simp add: alive_def)
    then obtain h3 where h3: "delete_request h2 ?r = Some h3" "heap_ok h3"
      "\<And>r'. node_of h3 r' = (if r' = ?r then None else node_of h2 r')"
      using delete_request_ok [OF h2(2)] by metis
    have "safe h3 p"
      by (rule safe_more [OF sound_safe [OF sound] h3(2) new, where n = None])
        (use h3(3) h2(3) h1(2) in auto)
    then have "sound h3 p" using sound by (simp add: sound_def)
    moreover have "e_release e h2 p ?r = Some (h3, p)" using e e0 h3(1) by (simp add: env_ok_def)
    ultimately show ?thesis
      using fail req0 e0 prm node pl newPrm oldPrm h2(1) within_refl
      by (auto simp: preconnectNodeByRequest_def Let_def)
  qed
qed

section \<open>The release loop\<close>

lemma sound_unmark:
  assumes sound: "sound h p" and pp: "poolProcess t p = Some pp" "i < length (slots k pp)"
    and f: "f = (\<lambda>s. s\<lparr>shouldRelease := False, shouldPreconnect := False\<rparr>) \<or>
      f = (\<lambda>s. s\<lparr>shouldRelease := False\<rparr>) \<and> \<not> shouldPreconnect (slots k pp ! i)"
  shows "sound h (set_poolProcess t (upd_slot k i f pp) p) \<and>
    within {} {} p (set_poolProcess t (upd_slot k i f pp) p) \<and>
    users (set_poolProcess t (upd_slot k i f pp) p) \<subseteq> users p"
proof -
  let ?s = "slots k pp ! i" and ?p' = "set_poolProcess t (upd_slot k i f pp) p"
  have at: "at p t k i = Some ?s" by (rule at_SomeI [OF pp])
  have same: "request (f ?s) = request ?s" "curRequest (f ?s) = curRequest ?s" "status (f ?s) = status ?s"
    "curRequestInvalid (f ?s) = curRequestInvalid ?s" "sslHandle (f ?s) = sslHandle ?s" "socketFd (f ?s) = socketFd ?s"
    using f by auto
  have "slot_ok k ?s" by (rule inv_slot [OF sound_inv [OF sound] at])
  then have "slot_ok k (f ?s)" using f by (auto simp: slot_ok_def)
  then have "pool_inv h ?p'"
    using inv_mark [OF sound_inv [OF sound] pp, of f "index_list k pp"] same
      inv_shape [OF sound_inv [OF sound] pp(1)] by (simp add: set_index_list_upd_slot)
  moreover have "conn_ok h ?p'"
    by (rule conn_mark [OF sound_conn [OF sound] pp, where f = f]) (use same caches_mark in auto)
  ultimately have safe: "safe h ?p'" by (simp add: safe_def)
  have w: "within {} {} p ?p'" by (rule within_upd [OF pp]) (use same in auto)
  have ch: "changed p ?p' t k i (f ?s)" by (rule changedI [OF pp(1) _ _ pp(2)]) simp_all
  have "users ?p' \<subseteq> users p"
  proof
    fix r assume "r \<in> users ?p'"
    then obtain t' k' i' s' where "at ?p' t' k' i' = Some s'" "curRequest s' = r" unfolding users_def by blast
    then show "r \<in> users p"
      using ch usersI [OF at] same(2) usersI [of p t' k' i' s'] by (auto simp: changed_def split: if_splits)
  qed
  then show ?thesis using sound_step [OF sound safe w] w by blast
qed

lemma within_weaken: "within {} {} p p' \<Longrightarrow> within R U p p'"
  by (auto simp: within_def)

lemma sound_release_slot:
  assumes sound: "sound h p" and pp: "poolProcess t p = Some pp" "i < length (slots k pp)"
    and e: "env_ok e h p"
  shows "\<exists>h' p' R. release_slot e k t i h p = Some (h', p') \<and> sound h' p' \<and> within R {} p p'"
proof (cases "shouldRelease (slots k pp ! i)")
  case False
  then show ?thesis using pp sound within_refl by (auto simp: release_slot_def Let_def)
next
  case True
  let ?s = "slots k pp ! i"
  let ?mid = "if shouldPreconnect ?s then
      preconnectNodeByRequest e h (set_poolProcess t
        (upd_slot k i (\<lambda>s. s\<lparr>shouldRelease := False, shouldPreconnect := False\<rparr>) pp) p) (request ?s)
    else Some (h, set_poolProcess t (upd_slot k i (\<lambda>s. s\<lparr>shouldRelease := False\<rparr>) pp) p)"
  have "\<exists>h1 p1 R. ?mid = Some (h1, p1) \<and> sound h1 p1 \<and> within R {} p p1"
  proof (cases "shouldPreconnect ?s")
    case True
    let ?p1 = "set_poolProcess t (upd_slot k i (\<lambda>s. s\<lparr>shouldRelease := False, shouldPreconnect := False\<rparr>) pp) p"
    have 1: "sound h ?p1" "within {} {} p ?p1" "users ?p1 \<subseteq> users p"
      using sound_unmark [OF sound pp, of "\<lambda>s. s\<lparr>shouldRelease := False, shouldPreconnect := False\<rparr>"]
      by blast+
    have "request ?s = NULL \<or> alive h (request ?s)"
      using slot_node [OF sound_inv [OF sound] at_SomeI [OF pp]] by (auto simp: alive_def)
    moreover have "env_ok e h ?p1" using e 1(3) unfolding env_ok_def by blast
    ultimately obtain h' p' R where "preconnectNodeByRequest e h ?p1 (request ?s) = Some (h', p')"
      "sound h' p'" "within R {} ?p1 p'" using sound_preconnect [OF 1(1)] by blast
    then show ?thesis using True within_trans0 [OF 1(2)] by auto
  next
    case False
    then show ?thesis
      using sound_unmark [OF sound pp, of "\<lambda>s. s\<lparr>shouldRelease := False\<rparr>"] by auto
  qed
  then obtain h1 p1 R where mid: "?mid = Some (h1, p1)" "sound h1 p1" "within R {} p p1" by blast
  have "at p1 t k i \<noteq> None" using mid(3) at_SomeI [OF pp] unfolding within_def by blast
  then obtain pp1 where pp1: "poolProcess t p1 = Some pp1" "i < length (slots k pp1)"
    using at_SomeD by fastforce
  let ?p2 = "set_poolProcess t (upd_slot k i clearNode pp1) p1"
  obtain h2 where h2: "delete_slot k h1 p1 t pp1 i = Some (h2, ?p2)" "sound h2 ?p2"
    using sound_delete_slot [OF mid(2) pp1] by blast
  have node: "\<exists>n. node_of h1 (request (slots k pp1 ! i)) = Some n" if "request (slots k pp1 ! i) \<noteq> NULL"
    using slot_node [OF sound_inv [OF mid(2)] at_SomeI [OF pp1] that] .
  have "release_slot e k t i h p = Some (h2, ?p2)"
    using True pp mid(1) pp1 h2(1) node
    by (auto simp: release_slot_def Let_def delete_slot_def split: bind_splits if_splits)
  moreover have "within R {} p ?p2"
    using within_trans [OF mid(3) within_clear [OF pp1]] by simp
  ultimately show ?thesis using h2(2) by blast
qed

text \<open>Each iteration meets an environment that is well-behaved in the state it runs in.\<close>

fun envs_ok :: "(nat \<Rightarrow> pool_env) \<Rightarrow> kind \<Rightarrow> NlsType \<Rightarrow> nat list \<Rightarrow> heap \<Rightarrow> ConnectedPool \<Rightarrow> bool" where
  "envs_ok env k t [] h p = True"
| "envs_ok env k t (i # is) h p \<longleftrightarrow> env_ok (env i) h p \<and>
    (case release_slot (env i) k t i h p of None \<Rightarrow> True | Some (h', p') \<Rightarrow> envs_ok env k t is h' p')"

lemma sound_release_loop:
  "sound h p \<Longrightarrow> envs_ok env k t is h p \<Longrightarrow> (\<forall>i\<in>set is. at p t k i \<noteq> None) \<Longrightarrow>
    \<exists>h' p' R. release_loop env k t is h p = Some (h', p') \<and> sound h' p' \<and> within R {} p p'"
proof (induction "is" arbitrary: h p)
  case Nil
  then show ?case using within_refl by auto
next
  case (Cons i "is")
  from Cons.prems(3) obtain pp where pp: "poolProcess t p = Some pp" "i < length (slots k pp)"
    using at_SomeD by fastforce
  have e: "env_ok (env i) h p" using Cons.prems(2) by simp
  obtain h1 p1 R where 1: "release_slot (env i) k t i h p = Some (h1, p1)" "sound h1 p1" "within R {} p p1"
    using sound_release_slot [OF Cons.prems(1) pp e] by blast
  have keep: "\<forall>j\<in>set is. at p1 t k j \<noteq> None" using 1(3) Cons.prems(3) unfolding within_def by simp
  then obtain h2 p2 R' where 2: "release_loop env k t is h1 p1 = Some (h2, p2)" "sound h2 p2" "within R' {} p1 p2"
    using Cons.IH [OF 1(2) _ keep] Cons.prems(2) 1(1) by fastforce
  then show ?case using 1(1) within_trans [OF 1(3) 2(3)] by auto
qed

end
