(* ===== verification/PoolSystem.thy ===== *)
theory PoolSystem
  imports PoolRelease
begin

text \<open>
  The connection pool as a transition system: the operations the SDK performs on it, in any
  order and interleaved with the timer and the release event, under the discipline the callers
  follow; its reachable states, and the properties of the pool that hold in all of them.
\<close>

section \<open>The remaining operations\<close>

lemma equal_param:
  "equal_prestarted t prm s prm' \<Longrightarrow> param_eq prm' prm"
  "equal_preconnected t prm s prm' \<Longrightarrow> param_eq prm' prm"
  by (simp_all add: equal_prestarted_def equal_preconnected_def)

lemma popOne_ok:
  assumes "safe h p" "node_of h req = Some n" "owns n" "\<not> stored p req" "req \<noteq> NULL"
  shows "\<exists>r h' p'. popOnePrestartedNode h p req t = Some (r, h', p') \<and> safe h' p' \<and>
      (if r then picks h p h' p' req t Prestarted else h' = h \<and> at p' = at p)"
    "\<exists>r h' p'. popOnePreconnectedNode h p req t = Some (r, h', p') \<and> safe h' p' \<and>
      (if r then picks h p h' p' req t Preconnected else h' = h \<and> at p' = at p)"
  unfolding popOnePrestartedNode_def popOnePreconnectedNode_def
  by (rule pop_one_ok [OF assms]; erule equal_param)+

text \<open>A pop that finds the vectors missing sets them up; then there is nothing to hand out.\<close>

definition empty_type :: "ConnectedPool \<Rightarrow> NlsType \<Rightarrow> bool" where
  "empty_type p t \<longleftrightarrow> (\<forall>k i s. at p t k i = Some s \<longrightarrow> s = new_slot t)"

lemma init_empty:
  assumes inv: "pool_inv h p" and none: "fst (getNumberOfThisTypeNodes t p) = 0 \<or> snd (getNumberOfThisTypeNodes t p) = 0"
  shows "empty_type (initThisNodesPool t p) t"
proof (cases "poolProcess t p")
  case None
  then show ?thesis by (simp add: empty_type_def initThisNodesPool_def at_def)
next
  case (Some pp)
  note sh = process_shapeD(5) [OF inv_shape [OF inv Some]]
  have "length (slots k pp) = 0" for k
    using none sh [of Prestarted k] sh [of Preconnected k] Some
    by (auto simp: getNumberOfThisTypeNodes_def)
  then have "at p t k i = None" for k i using Some by (simp add: at_def)
  then show ?thesis unfolding empty_type_def using at_grow [OF Some] by fastforce
qed

lemma safe_init: "safe h p \<Longrightarrow> safe h (initThisNodesPool t p)"
  by (simp add: safe_def inv_init conn_init)

text \<open>The outcome of a pop: nothing, with the heap as it was, or a slot.\<close>

definition pop_result :: "heap \<Rightarrow> ConnectedPool \<Rightarrow> heap \<Rightarrow> ConnectedPool \<Rightarrow> ptr \<Rightarrow> NlsType \<Rightarrow> kind \<Rightarrow> bool \<Rightarrow> bool" where
  "pop_result h p h' p' req t k r \<longleftrightarrow>
    (if r then picks h p h' p' req t k
     else h' = h \<and> (at p' = at p \<or> (p' = initThisNodesPool t p \<and> empty_type p' t)))"

lemma popNode_ok:
  assumes safe: "safe h p" and n: "node_of h req = Some n" "owns n" and st: "\<not> stored p req" and req: "req \<noteq> NULL"
  shows "\<exists>r h' p'. popPrestartedNode h p req t = Some (r, h', p') \<and> safe h' p' \<and> pop_result h p h' p' req t Prestarted r"
    "\<exists>r h' p'. popPreconnectedNode h p req t = Some (r, h', p') \<and> safe h' p' \<and> pop_result h p h' p' req t Preconnected r"
proof -
  have inv: "pool_inv h p" using safe by (simp add: safe_def)
  obtain a b where ab: "getNumberOfThisTypeNodes t p = (a, b)" by fastforce
  note one = popOne_ok [OF safe n st req, of t]
  show "\<exists>r h' p'. popPrestartedNode h p req t = Some (r, h', p') \<and> safe h' p' \<and> pop_result h p h' p' req t Prestarted r"
    using one(1) safe init_empty [OF inv, of t] safe_init [OF safe, of t] ab req
    by (auto simp: popPrestartedNode_def pop_result_def split: if_splits)
  show "\<exists>r h' p'. popPreconnectedNode h p req t = Some (r, h', p') \<and> safe h' p' \<and> pop_result h p h' p' req t Preconnected r"
    using one(2) safe init_empty [OF inv, of t] safe_init [OF safe, of t] ab req
    by (auto simp: popPreconnectedNode_def pop_result_def split: if_splits)
qed

lemma picks_cong: "at p = at q \<Longrightarrow> picks h p h' p' req t k \<longleftrightarrow> picks h q h' p' req t k"
  by (simp add: picks_def changed_def)

lemma picks_not_empty: "picks h p h' p' req t k \<Longrightarrow> \<not> empty_type p t"
proof -
  assume "picks h p h' p' req t k"
  then obtain i s where "at p t k i = Some s" "canPick s" unfolding picks_def by blast
  moreover have "\<not> canPick (new_slot t)" by (simp add: new_slot_def)
  ultimately show ?thesis unfolding empty_type_def by blast
qed

text \<open>The pool with new slots of a type at most.\<close>

definition only_new :: "NlsType \<Rightarrow> ConnectedPool \<Rightarrow> ConnectedPool \<Rightarrow> bool" where
  "only_new t p p' \<longleftrightarrow> (\<forall>t' k i s. at p' t' k i = Some s \<longrightarrow> at p t' k i = Some s \<or> s = new_slot t)"

lemma only_new_init: "only_new t p (initThisNodesPool t p)"
proof (cases "poolProcess t p")
  case (Some pp)
  then show ?thesis unfolding only_new_def using at_grow [OF Some] by blast
qed (simp add: only_new_def initThisNodesPool_def)

lemma only_new_at: "at p' = at p \<Longrightarrow> only_new t p p'"
  by (simp add: only_new_def)

lemma only_new_trans: "only_new t p q \<Longrightarrow> only_new t q r \<Longrightarrow> only_new t p r"
  unfolding only_new_def by metis

lemma tryToGet_ok:
  assumes safe: "safe h p" and n: "node_of h req = Some n" "owns n" and st: "\<not> stored p req" and req: "req \<noteq> NULL"
  shows "\<exists>r h' p'. tryToGetPreconnection h p req t = Some (r, h', p') \<and> safe h' p' \<and>
    (r = PreNodeStarted \<and> picks h p h' p' req t Prestarted \<or>
     r = PreNodeConnected \<and> picks h p h' p' req t Preconnected \<or>
     r = PreNodeInvalid \<and> h' = h \<and> only_new t p p' \<and> within {} {} p p')"
proof -
  obtain r1 h1 p1 where 1: "popPrestartedNode h p req t = Some (r1, h1, p1)" "safe h1 p1"
    "pop_result h p h1 p1 req t Prestarted r1" using popNode_ok(1) [OF assms] by blast
  show ?thesis
  proof (cases r1)
    case True
    then show ?thesis using 1 by (simp add: tryToGetPreconnection_def pop_result_def)
  next
    case False
    then have h1: "h1 = h" and p1: "at p1 = at p \<or> p1 = initThisNodesPool t p \<and> empty_type p1 t"
      using 1(3) by (simp_all add: pop_result_def)
    have "\<not> stored p1 req"
    proof
      assume "stored p1 req"
      moreover have "within {} {} p p1" using p1 within_at within_init by blast
      ultimately show False using st req by (auto simp: stored_requests within_def)
    qed
    then obtain r2 h2 p2 where 2: "popPreconnectedNode h p1 req t = Some (r2, h2, p2)" "safe h2 p2"
      "pop_result h p1 h2 p2 req t Preconnected r2" using popNode_ok(2) 1(2) n req unfolding h1 by blast
    have eq: "tryToGetPreconnection h p req t = Some (if r2 then PreNodeConnected else PreNodeInvalid, h2, p2)"
      using False 1(1) 2(1) by (simp add: tryToGetPreconnection_def h1)
    show ?thesis
    proof (cases r2)
      case True
      then have "picks h p1 h2 p2 req t Preconnected" using 2(3) by (simp add: pop_result_def)
      then have "picks h p h2 p2 req t Preconnected"
        using p1 picks_not_empty picks_cong [of p1 p h h2 p2 req t Preconnected] by metis
      then show ?thesis using eq True 2(2) by simp
    next
      case r2: False
      then have h2: "h2 = h" and p2: "at p2 = at p1 \<or> p2 = initThisNodesPool t p1 \<and> empty_type p2 t"
        using 2(3) by (simp_all add: pop_result_def)
      have w1: "within {} {} p p1" using p1 within_at within_init by blast
      have w2: "within {} {} p1 p2" using p2 within_at within_init by blast
      have "only_new t p p1" "only_new t p1 p2"
        using p1 p2 only_new_at only_new_init by blast+
      then have "only_new t p p2" by (rule only_new_trans)
      moreover have "within {} {} p p2" by (rule within_trans0 [OF w1 w2])
      ultimately show ?thesis using eq r2 2(2) h2 by auto
    qed
  qed
qed

lemma within_pop:
  assumes sound: "sound h p" and n: "node_of h req = Some n" "owns n" and req: "req \<noteq> NULL" "req \<notin> requests p"
  shows "\<exists>r h' p'. tryToGetPreconnection h p req t = Some (r, h', p') \<and> safe h' p' \<and> within {} {req} p p'"
proof -
  have st: "\<not> stored p req" using req(2) by (simp add: stored_requests)
  from tryToGet_ok [OF sound_safe [OF sound] n st req(1), of t] obtain r h' p' where
    pop: "tryToGetPreconnection h p req t = Some (r, h', p')" "safe h' p'"
    "(\<exists>k. picks h p h' p' req t k) \<or> within {} {} p p'" by blast
  from pop(3) have "within {} {req} p p'"
  proof (elim disjE exE)
    fix k assume "picks h p h' p' req t k"
    then obtain i s where "at p t k i = Some s" "changed p p' t k i (occupy req s)" unfolding picks_def by blast
    then show ?thesis using requestsI by (intro within_changed) (auto simp: occupy_def)
  qed (auto intro: within_at within_weaken)
  then show ?thesis using pop(1,2) by blast
qed

lemma sound_pop:
  assumes "sound h p" "node_of h req = Some n" "owns n" "req \<noteq> NULL" "req \<notin> requests p"
  shows "\<exists>r h' p'. tryToGetPreconnection h p req t = Some (r, h', p') \<and> sound h' p'"
proof -
  from within_pop [OF assms, of t] obtain r h' p' where
    pop: "tryToGetPreconnection h p req t = Some (r, h', p')" "safe h' p'" "within {} {req} p p'" by blast
  have "sound h' p'" by (rule sound_within [OF assms(1) pop(2,3)]) (use assms(5) in auto)
  then show ?thesis using pop(1) by blast
qed

lemma within_move:
  assumes "pushPrestartedNodeFromPreconnected now h p req t = Some (r, h', p')"
  shows "within {} {} p p'"
proof -
  have "within {} {} p (set_poolProcess t (upd_slot Preconnected i clearNode pp') p)"
    if pp: "poolProcess t p = Some pp" and i: "i < length (preconnectedRequests pp)"
      and m: "move_to_prestarted now h pp q n (request (preconnectedRequests pp ! i)) on = Some (r, h', pp')"
    for pp i q n "on" r h' pp'
  proof (cases "first_index free_slot (prestartedRequests pp)")
    case None
    then show ?thesis using m pp i within_clear [OF pp, of i Preconnected] by (simp add: move_to_prestarted_def)
  next
    case (Some j)
    let ?p1 = "set_poolProcess t (upd_slot Preconnected i clearNode pp) p"
    let ?s = "preconnectedRequests pp ! i"
    from m Some obtain prm oprm where
      pp': "pp' = (upd_slot Prestarted j (move_slot now n prm (request ?s) on oprm) pp)\<lparr>work := True\<rparr>"
      by (auto simp: move_to_prestarted_def split: bind_splits)
    have j: "j < length (slots Prestarted pp)" using first_index_less [OF Some] by simp
    let ?pp2 = "upd_slot Preconnected i clearNode pp'"
    have "changed ?p1 (set_poolProcess t ?pp2 ?p1) t Prestarted j
        (move_slot now n prm (request ?s) on oprm (slots Prestarted pp ! j))"
      by (rule changedI [where pp = "upd_slot Preconnected i clearNode pp"]) (use pp j in \<open>simp_all add: pp'\<close>)
    moreover have "set_poolProcess t ?pp2 ?p1 = set_poolProcess t ?pp2 p" by (cases t) simp_all
    ultimately have ch: "changed ?p1 (set_poolProcess t ?pp2 p) t Prestarted j
        (move_slot now n prm (request ?s) on oprm (slots Prestarted pp ! j))" by simp
    have w1: "within {} {} p ?p1" by (rule within_clear [OF pp]) (use i in simp)
    have rq: "request ?s \<in> requests p" by (rule requestsI [of p t Preconnected i]) (use pp i in \<open>simp add: at_def\<close>)
    have "within {request ?s} {} ?p1 (set_poolProcess t ?pp2 p)"
      by (rule within_changed [OF ch]) (simp_all add: move_slot_def)
    from within_trans [OF w1 this] rq show ?thesis by (auto simp: within_def)
  qed
  then show ?thesis
    using assms by (auto simp: pushPrestartedNodeFromPreconnected_def slot_at_def
        split: if_splits option.splits bind_splits)
qed

section \<open>The transition system\<close>

text \<open>
  The steps, with what their callers see to. A request is created outside the pool; it may be
  deleted when it is neither stored nor the user of a slot. Its node notes that the pool is used
  and the time of the last operation at any moment, and its socket while the request is not
  stored. A request asks for a connection while
  it has the handle it was created with, and is stored while it has it and nobody uses it. A
  user gives its connection back by a push that finds the slot. Slots are timed and released
  at any moment, one slot of the release event at a time.
\<close>

inductive pool_step :: "heap \<times> ConnectedPool \<Rightarrow> heap \<times> ConnectedPool \<Rightarrow> bool" where
  create: "env_ok e h p \<Longrightarrow> e_request e \<noteq> NULL \<Longrightarrow>
    pool_step (h, p) (create_request e h t sdk v long, p)"
| destroy: "r \<notin> requests p \<Longrightarrow> r \<notin> users p \<Longrightarrow> delete_request h r = Some h' \<Longrightarrow>
    pool_step (h, p) (h', p)"
| mark: "update_node h r (\<lambda>n. n\<lparr>n_usePreconnection := use, n_last_op := now\<rparr>) = Some h' \<Longrightarrow>
    pool_step (h, p) (h', p)"
| link: "r \<notin> requests p \<Longrightarrow> update_node h r (\<lambda>n. n\<lparr>n_socketFd := fd, n_url := url\<rparr>) = Some h' \<Longrightarrow>
    pool_step (h, p) (h', p)"
| pop: "r \<noteq> NULL \<Longrightarrow> r \<notin> requests p \<Longrightarrow> node_of h r = Some n \<Longrightarrow> owns n \<Longrightarrow>
    tryToGetPreconnection h p r t = Some (st, h', p') \<Longrightarrow> pool_step (h, p) (h', p')"
| store: "r \<notin> requests p \<Longrightarrow> r \<notin> users p \<Longrightarrow> node_of h r = Some n \<Longrightarrow> owns n \<Longrightarrow>
    push_node k now h p r t newNode = Some (b, h', p') \<Longrightarrow> pool_step (h, p) (h', p')"
| give_back: "r \<notin> requests p \<Longrightarrow> node_of h r = Some n \<Longrightarrow> poolProcess t p = Some pp \<Longrightarrow> slots k pp \<noteq> [] \<Longrightarrow>
    existing_slot h k pp n = Some True \<Longrightarrow>
    push_node k now h p r t False = Some (b, h', p') \<Longrightarrow> pool_step (h, p) (h', p')"
| promote: "ready p t \<Longrightarrow> pushPrestartedNodeFromPreconnected now h p r t = Some (b, h', p') \<Longrightarrow>
    pool_step (h, p) (h', p')"
| finish: "finishPushPreNode h p t fd ssl index = Some p' \<Longrightarrow> pool_step (h, p) (h, p')"
| abnormal: "curRequestIsAbnormal h p r t = Some p' \<Longrightarrow> pool_step (h, p) (h, p')"
| forget: "deletePreNodeByRequest h p r t = Some (b, p') \<Longrightarrow> pool_step (h, p) (h, p')"
| discard: "deletePreNodeBySSL h p ssl t = Some (b, h', p') \<Longrightarrow> pool_step (h, p) (h', p')"
| timer: "connectPoolEventCallback h now ping ev_closed p = Some (m, p') \<Longrightarrow> pool_step (h, p) (h, p')"
| release: "at p t k i \<noteq> None \<Longrightarrow> env_ok e h p \<Longrightarrow> release_slot e k t i h p = Some (h', p') \<Longrightarrow>
    pool_step (h, p) (h', p')"

inductive_cases pool_stepE: "pool_step (h, p) s"

definition pool_start :: "heap \<times> ConnectedPool \<Rightarrow> bool" where
  "pool_start s \<longleftrightarrow> heap_ok (fst s) \<and> (\<forall>r n. node_of (fst s) r = Some n \<longrightarrow> n_poolIndex n = -1) \<and>
    (\<exists>m a b. m < 2 ^ 31 \<and> snd s = new_ConnectedPool m a b)"

definition pool_sound :: "heap \<times> ConnectedPool \<Rightarrow> bool" where
  "pool_sound s \<longleftrightarrow> sound (fst s) (snd s)"

lemma sound_start: "pool_start s \<Longrightarrow> pool_sound s"
proof -
  assume "pool_start s"
  then obtain m a b where s: "heap_ok (fst s)" "\<And>r n. node_of (fst s) r = Some n \<Longrightarrow> n_poolIndex n = -1"
    "m < 2 ^ 31" "snd s = new_ConnectedPool m a b" unfolding pool_start_def by blast
  have "pool_inv (fst s) (snd s)"
    unfolding s(4) by (rule pool_inv_new [OF s(1,3)]) (use s(2) in \<open>simp add: indexes_ok_def\<close>)
  moreover have "conn_ok (fst s) (snd s)" unfolding s(4) conn_ok_def by simp
  moreover have "users (snd s) = {}" unfolding s(4) users_def by simp
  ultimately show ?thesis by (simp add: pool_sound_def sound_def safe_def)
qed

lemma sound_create:
  assumes "sound h p" "env_ok e h p" "e_request e \<noteq> NULL"
  shows "sound (create_request e h t sdk v long) p"
proof -
  have ok: "heap_ok h" using sound_inv [OF assms(1)] by (simp add: pool_inv_def)
  note new = create_request_ok [OF ok assms(2,3), of t sdk v long]
  have "node_of h (e_request e) = None" using assms(2,3) by (simp add: env_ok_def node_of_def)
  from safe_more [OF sound_safe [OF assms(1)] new(1) this new(2)]
  have "safe (create_request e h t sdk v long) p" by simp
  then show ?thesis using assms(1) by (simp add: sound_def)
qed

lemma sound_destroy:
  assumes sound: "sound h p" and r: "r \<notin> requests p" "r \<notin> users p" "delete_request h r = Some h'"
  shows "sound h' p"
proof -
  have inv: "pool_inv h p" by (rule sound_inv [OF sound])
  then have ok: "heap_ok h" by (simp add: pool_inv_def)
  have "alive h r"
    using r(3) ok alive_reqs by (auto simp: delete_request_def split: bind_splits)
  from delete_request_ok [OF ok this] obtain h2 where h2: "delete_request h r = Some h2" "heap_ok h2"
    "\<And>r'. node_of h2 r' = (if r' = r then None else node_of h r')" by metis
  have h': "h' = h2" using r(3) h2(1) by simp
  have at: "request s \<noteq> r" "curRequest s \<noteq> r" if "at p t k i = Some s" for t k i s
    using requestsI [OF that] usersI [OF that] r by auto
  have own: "owners_ok h p" using inv by (simp add: pool_inv_def)
  have al: "alive h r' \<Longrightarrow> r' \<noteq> r \<Longrightarrow> alive h' r'" for r' using h2(3) by (simp add: h' alive_def)
  have "owners_ok h' p"
    unfolding owners_ok_def
  proof (intro conjI allI impI)
    show "alive h' (request s)" if "at p t k i = Some s" "request s \<noteq> NULL" for t k i s
      using al owners_okD(1) [OF own that] at(1) [OF that(1)] by simp
    show "alive h' (curRequest s)"
      if "at p t k i = Some s" "status s = live k" "curRequest s \<noteq> NULL" "\<not> curRequestInvalid s" for t k i s
      using al owners_okD(3) [OF own that] at(2) [OF that(1)] by simp
  qed (rule owners_okD(2) [OF own])
  moreover have "indexes_ok h' (maxPreconnectedNumber p)"
    using inv h2(3) unfolding h' pool_inv_def indexes_ok_def by (auto split: if_splits)
  moreover have "conn_ok h' p"
    unfolding conn_ok_def
  proof (intro allI impI)
    fix t k i s assume a: "at p t k i = Some s"
    then have "caches h k s" using sound_conn [OF sound] by (simp add: conn_ok_def)
    then show "caches h' k s" by (rule caches_cong) (use at [OF a] h2(3) h' in auto)
  qed
  ultimately have "safe h' p" using inv h2(2) h' by (simp add: safe_def pool_inv_def)
  then show ?thesis using sound by (simp add: sound_def)
qed

lemma sound_update:
  assumes sound: "sound h p" and upd: "update_node h r f = Some h'"
    and f: "\<And>n. n_sslHandle (f n) = n_sslHandle n \<and> n_nativeSslHandle (f n) = n_nativeSslHandle n \<and>
      n_poolIndex (f n) = n_poolIndex n"
    and sock: "\<And>n. r \<in> requests p \<Longrightarrow> n_socketFd (f n) = n_socketFd n"
  shows "sound h' p"
proof -
  have safe: "safe h p" and ok: "heap_ok h" using sound by (simp_all add: sound_def safe_def pool_inv_def)
  obtain n where n: "node_of h r = Some n" using update_node_SomeD [OF ok upd] by blast
  have own: "owns (f n) \<Longrightarrow> owns n \<and> n_sslHandle (f n) = n_sslHandle n" using f [of n] by (simp add: owns_def)
  obtain h'' where "update_node h r f = Some h''" "heap_ok h''"
    "\<And>r'. node_of h'' r' = (if r' = r then Some (f n) else node_of h r')"
    by (rule update_node_ok [OF ok n, of f]) (use own in blast)+
  then have h': "heap_ok h'" "\<And>r'. node_of h' r' = (if r' = r then Some (f n) else node_of h r')"
    using upd by simp_all
  have "owners_ok h' p"
    using safe n h'(2) by (auto simp: safe_def pool_inv_def alive_def intro: owners_ok_heap)
  moreover have "indexes_ok h' (maxPreconnectedNumber p)"
    using safe n h'(2) f by (auto simp: safe_def pool_inv_def indexes_ok_def split: if_splits)
  moreover have "conn_ok h' p"
    unfolding conn_ok_def
  proof (intro allI impI)
    fix t k i s assume s: "at p t k i = Some s"
    then have "caches h k s" using safe by (simp add: safe_def conn_ok_def)
    then show "caches h' k s"
    proof (rule caches_cong)
      fix m assume "node_of h (request s) = Some m"
      then show "\<exists>m'. node_of h' (request s) = Some m' \<and> same_conn m m'"
        using h'(2) n f sock requestsI [OF s] by (auto simp: same_conn_def)
    qed
  qed
  ultimately have "safe h' p" using safe h'(1) by (simp add: safe_def pool_inv_def)
  then show ?thesis using sound by (simp add: sound_def)
qed

lemma sound_store:
  assumes sound: "sound h p" and r: "r \<notin> requests p" "r \<notin> users p" "node_of h r = Some n" "owns n"
    and push: "push_node k now h p r t newNode = Some (b, h', p')"
  shows "sound h' p'"
proof -
  have "safe h' p'"
    using safe_push [OF sound_safe [OF sound] r(3), of newNode t k now] r(1,4) push
    by (auto simp: stored_requests)
  then show ?thesis
    by (rule sound_within [OF sound _ within_push [OF sound_inv [OF sound] push]]) (use r(2) in auto)
qed

lemma ensure_set_up:
  assumes inv: "pool_inv h p" and pp: "poolProcess t p = Some pp" "slots k pp \<noteq> []"
  shows "ensure_pool t p = p"
proof -
  have "length (slots k' pp) \<noteq> 0" for k'
    using process_shapeD(5) [OF inv_shape [OF inv pp(1)], of k k'] pp(2) by auto
  from this [of Prestarted] this [of Preconnected] show ?thesis
    using pp(1) by (simp add: ensure_pool_def getNumberOfThisTypeNodes_def)
qed

lemma sound_give_back:
  assumes sound: "sound h p" and r: "r \<notin> requests p" "node_of h r = Some n"
    and pp: "poolProcess t p = Some pp" "slots k pp \<noteq> []" and ex: "existing_slot h k pp n = Some True"
    and push: "push_node k now h p r t False = Some (b, h', p')"
  shows "sound h' p'"
proof -
  have ens: "ensure_pool t p = p" by (rule ensure_set_up [OF sound_inv [OF sound] pp])
  have safe: "safe h' p'"
    using safe_push [OF sound_safe [OF sound] r(2), of False t k now] r(1) pp(1) ex push
    by (auto simp: stored_requests ens)
  have "within {} {} p p'"
  proof (cases "r = NULL")
    case True
    then show ?thesis using push by (simp add: push_node_def)
  next
    case False
    have "length (slots k pp) = maxPreconnectedNumber p"
      using ensure_pool_length [OF sound_inv [OF sound], of t pp k] pp(1) ens by simp
    from existing_slot_ex [OF sound_inv [OF sound] pp(1) this r(2)] ex
    have i: "nat (n_poolIndex n) < length (slots k pp)" by auto
    have "p' = set_poolProcess t (upd_slot k (nat (n_poolIndex n)) (refresh_slot (n_last_op n)) pp) p"
      using push False r(2) pp(1) ex ens by (simp add: push_node_def Let_def)
    then show ?thesis using i by (auto intro!: within_upd [OF pp(1)] simp: refresh_slot_def)
  qed
  then show ?thesis by (rule sound_step [OF sound safe])
qed

lemma sound_promote:
  assumes sound: "sound h p" and rdy: "ready p t"
    and move: "pushPrestartedNodeFromPreconnected now h p r t = Some (b, h', p')"
  shows "sound h' p'"
proof (cases "r = NULL")
  case True
  then show ?thesis using move sound by (simp add: pushPrestartedNodeFromPreconnected_def)
next
  case False
  then obtain n where "node_of h r = Some n"
    using move by (auto simp: pushPrestartedNodeFromPreconnected_def split: bind_splits)
  from safe_move [OF sound_safe [OF sound] this rdy, of now] move have "safe h' p'" by auto
  then show ?thesis by (rule sound_step [OF sound _ within_move [OF move]])
qed

lemma sound_abnormal:
  assumes sound: "sound h p" and step: "curRequestIsAbnormal h p r t = Some p'"
  shows "sound h p'"
  by (rule sound_step [OF sound _ within_curRequestIsAbnormal [OF step]])
    (simp add: safe_def inv_curRequestIsAbnormal [OF sound_inv [OF sound] step]
      conn_curRequestIsAbnormal [OF sound_conn [OF sound] step])

lemma sound_forget:
  assumes sound: "sound h p" and step: "deletePreNodeByRequest h p r t = Some (b, p')"
  shows "sound h p'"
  by (rule sound_step [OF sound _ within_deletePreNodeByRequest [OF step]])
    (simp add: safe_def inv_deletePreNodeByRequest [OF sound_inv [OF sound] step]
      conn_deletePreNodeByRequest [OF sound_conn [OF sound] step])

lemma sound_timer:
  assumes sound: "sound h p" and step: "connectPoolEventCallback h now ping c p = Some (m, p')"
  shows "sound h p'"
proof (cases c)
  case True
  then show ?thesis using sound step by (simp add: connectPoolEventCallback_def)
next
  case False
  then obtain X where "timed h p now ping p' X" "safe h p'"
    using connectPoolEventCallback_timed [OF sound_safe [OF sound], of now ping] step by auto
  then show ?thesis using sound_step [OF sound _ within_timed [OF sound_inv [OF sound]]] by blast
qed

lemma sound_release:
  assumes sound: "sound h p" and pos: "at p t k i \<noteq> None" and e: "env_ok e h p"
    and step: "release_slot e k t i h p = Some (h', p')"
  shows "sound h' p'"
proof -
  obtain pp where pp: "poolProcess t p = Some pp" "i < length (slots k pp)"
    using pos at_SomeD by fastforce
  show ?thesis using sound_release_slot [OF sound pp e] step by auto
qed

lemma pool_step_sound:
  assumes "pool_sound s" "pool_step s s'"
  shows "pool_sound s'"
  using assms(2,1)
proof (induction rule: pool_step.induct)
  case (create e h p t sdk v long)
  then show ?case using sound_create by (simp add: pool_sound_def)
next
  case (destroy r p h h')
  then show ?case using sound_destroy by (simp add: pool_sound_def)
next
  case (mark h r use now h' p)
  then have "sound h p" by (simp add: pool_sound_def)
  from sound_update [OF this mark(1)] show ?case by (simp add: pool_sound_def)
next
  case (link r p h fd url h')
  then have "sound h p" by (simp add: pool_sound_def)
  from sound_update [OF this link(2)] link(1) show ?case by (simp add: pool_sound_def)
next
  case (pop r p h n t st h' p')
  then have "sound h p" by (simp add: pool_sound_def)
  from sound_pop [OF this pop(3,4,1,2), of t] pop(5) show ?case by (auto simp: pool_sound_def)
next
  case (store r p h n k now t newNode b h' p')
  then show ?case using sound_store by (simp add: pool_sound_def)
next
  case (give_back r p h n t pp k now b h' p')
  then show ?case using sound_give_back by (simp add: pool_sound_def)
next
  case (promote p t now h r b h' p')
  then show ?case using sound_promote by (simp add: pool_sound_def)
next
  case (finish h p t fd ssl index p')
  then show ?case using sound_finish by (simp add: pool_sound_def)
next
  case (abnormal h p r t p')
  then show ?case using sound_abnormal by (simp add: pool_sound_def)
next
  case (forget h p r t b p')
  then show ?case using sound_forget by (simp add: pool_sound_def)
next
  case (discard h p ssl t b h' p')
  then have "sound h p" by (simp add: pool_sound_def)
  from sound_deletePreNodeBySSL [OF this, of ssl t] discard show ?case by (auto simp: pool_sound_def)
next
  case (timer h now ping c p m p')
  then show ?case using sound_timer by (simp add: pool_sound_def)
next
  case (release p t k i e h h' p')
  then show ?case using sound_release by (simp add: pool_sound_def)
qed

interpretation pool: invariant_system pool_start pool_step pool_sound
  by unfold_locales (rule sound_start, assumption, rule pool_step_sound)

end
