(* ===== verification/PoolTheorems.thy ===== *)
theory PoolTheorems
  imports PoolSystem
begin

text \<open>
  What the connection pool promises, stated for the operations of the code: exclusive
  ownership, what a pop hands out, that a stored connection is found again, what the timer
  releases, and the runs in which the pool does less than it means to.
\<close>

section \<open>A concrete pool\<close>

definition ex_param :: "NlsType \<Rightarrow> string \<Rightarrow> int \<Rightarrow> INlsRequestParam" where
  "ex_param t sdk v = new_INlsRequestParam 0 t sdk v"

definition ex_env :: "nat \<Rightarrow> pool_env" where
  "ex_env i = \<lparr>e_request = 10 * i + 1, e_node = 10 * i + 2, e_ssl = 10 * i + 3, e_uuid = [char_of i], e_created = 5, e_now = 6,
     e_param = ex_param, e_startInner = Success, e_link = True, e_socketFd = int i, e_url = ''u'',
     e_release = (\<lambda>h p r. map_option (\<lambda>h. (h, p)) (delete_request h r))\<rparr>"

definition ex_heap :: heap where
  "ex_heap = \<lparr>reqs = \<lambda>_. None, nodes = \<lambda>_. None, ssls = \<lambda>_. False, closed = []\<rparr>"

text \<open>Requests number 1 to \<open>n\<close> of a type, created one after the other.\<close>

definition ex_name :: "nat \<Rightarrow> string" where
  "ex_name n = (if n = 2 \<or> n = 5 then ''c'' else if n = 3 then ''d'' else ''b'')"

fun ex_requests :: "NlsType \<Rightarrow> nat \<Rightarrow> heap" where
  "ex_requests t 0 = ex_heap"
| "ex_requests t (Suc n) = create_request (ex_env (Suc n)) (ex_requests t n) t (ex_name n) 0 True"

text \<open>The pool operations in sequence, for concrete runs; \<open>None\<close> when one is undefined.\<close>

definition ex_store :: "kind \<Rightarrow> NlsType \<Rightarrow> nat \<Rightarrow> heap \<times> ConnectedPool \<Rightarrow> (heap \<times> ConnectedPool) option" where
  "ex_store k t r s = do {
     (_, h, p) \<leftarrow> push_node k 6 (fst s) (snd s) r t True;
     n \<leftarrow> node_of h r;
     p \<leftarrow> finishPushPreNode h p t (n_socketFd n) (n_sslHandle n) (n_poolIndex n);
     Some (h, p) }"

definition ex_start :: "NlsType \<Rightarrow> nat \<Rightarrow> heap \<times> ConnectedPool" where
  "ex_start t n = (ex_requests t n, new_ConnectedPool 3 1000 2000)"

definition ex_pool :: "heap \<times> ConnectedPool" where
  "ex_pool = the (ex_store Preconnected TypeAsr 11 (ex_start TypeAsr 2))"

lemma ex_fresh:
  "(reqs (ex_requests t n) r \<noteq> None \<longrightarrow> r \<le> 10 * n + 3) \<and> (nodes (ex_requests t n) r \<noteq> None \<longrightarrow> r \<le> 10 * n + 3) \<and>
   (ssls (ex_requests t n) r \<longrightarrow> r \<le> 10 * n + 3)"
  by (induction n) (auto simp: ex_heap_def create_request_def ex_env_def)

lemma ex_env_ok: "users p = {} \<Longrightarrow> env_ok (ex_env (Suc n)) (ex_requests t n) p"
  using ex_fresh [of t n "10 * Suc n + 1"] ex_fresh [of t n "10 * Suc n + 2"] ex_fresh [of t n "10 * Suc n + 3"]
  by (auto simp: env_ok_def ex_env_def)

lemma new_pool_no_users [simp]: "users (new_ConnectedPool m a b) = {}" "requests (new_ConnectedPool m a b) = {}"
  unfolding users_def requests_def by simp_all

lemma ex_heap_ok:
  "heap_ok (ex_requests t n) \<and> (\<forall>r m. node_of (ex_requests t n) r = Some m \<longrightarrow> n_poolIndex m = -1)"
proof (induction n)
  case 0
  then show ?case by (simp add: ex_heap_def heap_ok_def node_of_def)
next
  case (Suc n)
  have e: "env_ok (ex_env (Suc n)) (ex_requests t n) (new_ConnectedPool 0 0 0)" by (rule ex_env_ok) simp
  have e0: "e_request (ex_env (Suc n)) \<noteq> NULL" by (simp add: ex_env_def)
  show ?case
    using create_request_ok [OF _ e e0] Suc by (auto split: if_splits)
qed

lemma ex_start_ok: "pool_start (ex_start t n)"
proof -
  have "\<exists>m a b. m < 2 ^ 31 \<and> new_ConnectedPool 3 1000 2000 = new_ConnectedPool m a b"
    by (intro exI [of _ 3] exI conjI) simp_all
  then show ?thesis using ex_heap_ok [of t n] by (simp add: pool_start_def ex_start_def)
qed

lemma ex_storeD:
  assumes "ex_store k t r s = Some s'"
  obtains b h1 p1 n p2 where "push_node k 6 (fst s) (snd s) r t True = Some (b, h1, p1)"
    "node_of h1 r = Some n" "finishPushPreNode h1 p1 t (n_socketFd n) (n_sslHandle n) (n_poolIndex n) = Some p2"
    "s' = (h1, p2)"
  using assms by (auto simp: ex_store_def split: bind_splits)

text \<open>A reachable state in which the pool stores at most the requests \<open>R\<close> and serves at most \<open>U\<close>.\<close>

definition ex_ok :: "ptr set \<Rightarrow> ptr set \<Rightarrow> heap \<times> ConnectedPool \<Rightarrow> bool" where
  "ex_ok R U s \<longleftrightarrow> (\<exists>t n. pool_step\<^sup>*\<^sup>* (ex_start t n) s) \<and> requests (snd s) \<subseteq> insert NULL R \<and>
    users (snd s) \<subseteq> insert NULL U"

lemma ex_ok_start: "ex_ok {} {} (ex_start t n)"
  using rtranclp.rtrancl_refl [of pool_step "ex_start t n"] unfolding ex_ok_def
  by (intro conjI exI) (auto simp: ex_start_def)

lemma ex_ok_sound: "ex_ok R U s \<Longrightarrow> sound (fst s) (snd s)"
  using pool.reachable_inv [OF ex_start_ok] by (fastforce simp: ex_ok_def pool_sound_def split: prod.splits)

lemma ex_ok_step:
  assumes "ex_ok R U s" "pool_step\<^sup>*\<^sup>* s s'" "within R' U' (snd s) (snd s')"
  shows "ex_ok (R' \<union> R) (U' \<union> U) s'"
proof -
  from assms(1) obtain t n where run: "pool_step\<^sup>*\<^sup>* (ex_start t n) s" unfolding ex_ok_def by blast
  have "requests (snd s) \<subseteq> insert NULL R" "users (snd s) \<subseteq> insert NULL U"
    using assms(1) by (simp_all add: ex_ok_def)
  then have "requests (snd s') \<subseteq> insert NULL (R' \<union> R)" "users (snd s') \<subseteq> insert NULL (U' \<union> U)"
    using assms(3) unfolding within_def by auto
  then show ?thesis using rtranclp_trans [OF run assms(2)] unfolding ex_ok_def by (intro conjI exI)
qed

lemma ex_ok_store:
  assumes ok: "ex_ok R U s" and st: "ex_store k t r s = Some s'" and r: "r \<notin> insert NULL R" "r \<notin> insert NULL U"
    and own: "map_option owns (node_of (fst s) r) = Some True"
  shows "ex_ok (insert r R) U s'"
proof -
  from st obtain b h1 p1 n p2 where s': "push_node k 6 (fst s) (snd s) r t True = Some (b, h1, p1)"
    "node_of h1 r = Some n"
    "finishPushPreNode h1 p1 t (n_socketFd n) (n_sslHandle n) (n_poolIndex n) = Some p2" "s' = (h1, p2)"
    by (rule ex_storeD)
  obtain m where m: "node_of (fst s) r = Some m" "owns m" using own by auto
  have "r \<notin> requests (snd s)" "r \<notin> users (snd s)" using ok r unfolding ex_ok_def by blast+
  then have "pool_step (fst s, snd s) (h1, p1)" by (rule store [OF _ _ m s'(1)])
  moreover have "pool_step (h1, p1) s'" unfolding s'(4) by (rule finish [OF s'(3)])
  ultimately have run: "pool_step\<^sup>*\<^sup>* s s'" by (simp add: converse_rtranclp_into_rtranclp)
  have "within {r} {} (snd s) p1" "within {} {} p1 p2"
    by (rule within_push [OF sound_inv [OF ex_ok_sound [OF ok]] s'(1)], rule within_finishPushPreNode [OF s'(3)])
  then have "within {r} {} (snd s) (snd s')" using s'(4) within_trans [of "{r}" "{}" "snd s" p1 "{}" "{}" p2] by simp
  from ex_ok_step [OF ok run this] show ?thesis by simp
qed

definition ex_pop :: "NlsType \<Rightarrow> ptr \<Rightarrow> heap \<times> ConnectedPool \<Rightarrow>
    (ConnectedStatus \<times> heap \<times> ConnectedPool) option" where
  "ex_pop t r s = tryToGetPreconnection (fst s) (snd s) r t"

lemma ex_ok_pop:
  assumes ok: "ex_ok R U s" and pop: "ex_pop t r s = Some (st, s')" and r: "r \<notin> insert NULL R"
    and own: "map_option owns (node_of (fst s) r) = Some True"
  shows "ex_ok R (insert r U) s'"
proof -
  obtain m where m: "node_of (fst s) r = Some m" "owns m" using own by auto
  have r': "r \<noteq> NULL" "r \<notin> requests (snd s)" using ok r unfolding ex_ok_def by auto
  from pop have s': "tryToGetPreconnection (fst s) (snd s) r t = Some (st, fst s', snd s')"
    by (simp add: ex_pop_def)
  have "within {} {r} (snd s) (snd s')" using within_pop [OF ex_ok_sound [OF ok] m r', of t] s' by auto
  moreover have "pool_step\<^sup>*\<^sup>* s s'" using pool_step.pop [OF r' m s'] by (simp add: r_into_rtranclp)
  ultimately show ?thesis using ex_ok_step [OF ok] by fastforce
qed

text \<open>A run of stores and pops whose guards are checked on the way; it returns the requests that
may be stored and those that may be served.\<close>

datatype ex_op = Store kind ptr | Pop ptr

fun ex_exec :: "NlsType \<Rightarrow> ex_op list \<Rightarrow> ptr list \<times> ptr list \<times> heap \<times> ConnectedPool \<Rightarrow>
    (ptr list \<times> ptr list \<times> heap \<times> ConnectedPool) option" where
  "ex_exec t [] x = Some x"
| "ex_exec t (Store k r # ops) (R, U, s) =
     (if r \<notin> set (NULL # R) \<and> r \<notin> set (NULL # U) \<and> map_option owns (node_of (fst s) r) = Some True then do {
        s \<leftarrow> ex_store k t r s;
        ex_exec t ops (r # R, U, s) }
      else None)"
| "ex_exec t (Pop r # ops) (R, U, s) =
     (if r \<notin> set (NULL # R) \<and> map_option owns (node_of (fst s) r) = Some True then do {
        (_, s) \<leftarrow> ex_pop t r s;
        ex_exec t ops (R, r # U, s) }
      else None)"

lemma ex_exec_ok:
  "ex_exec t ops x = Some (R', U', s') \<Longrightarrow> ex_ok (set (fst x)) (set (fst (snd x))) (snd (snd x)) \<Longrightarrow>
    ex_ok (set R') (set U') s'"
proof (induction t ops x rule: ex_exec.induct)
  case (2 t k r ops R U s)
  then obtain s1 where s1: "ex_store k t r s = Some s1" "ex_exec t ops (r # R, U, s1) = Some (R', U', s')"
    "r \<notin> insert NULL (set R)" "r \<notin> insert NULL (set U)" "map_option owns (node_of (fst s) r) = Some True"
    by (simp split: if_splits bind_splits)
  have "ex_ok (insert r (set R)) (set U) s1" by (rule ex_ok_store [OF _ s1(1,3-5)]) (use 2 in simp)
  then show ?case using 2(1) [OF _ s1(1,2)] s1(3-5) by simp
next
  case (3 t r ops R U s)
  then obtain st s1 where s1: "ex_pop t r s = Some (st, s1)" "ex_exec t ops (R, r # U, s1) = Some (R', U', s')"
    "r \<notin> insert NULL (set R)" "map_option owns (node_of (fst s) r) = Some True"
    by (auto split: if_splits bind_splits)
  have "ex_ok (set R) (insert r (set U)) s1" by (rule ex_ok_pop [OF _ s1(1,3,4)]) (use 3 in simp)
  then show ?case using 3(1) [OF _ s1(1) _ s1(2)] s1(3,4) by simp
qed simp

lemma ex_run:
  assumes "map_option f (ex_exec t ops ([], [], ex_start t n)) = Some y"
  obtains R U s where "f (R, U, s) = y" "ex_ok (set R) (set U) s" "sound (fst s) (snd s)"
proof -
  from assms obtain R U s where x: "ex_exec t ops ([], [], ex_start t n) = Some (R, U, s)" "f (R, U, s) = y" by auto
  have ok: "ex_ok (set R) (set U) s" using ex_exec_ok [OF x(1)] ex_ok_start by simp
  show thesis by (rule that [OF x(2) ok ex_ok_sound [OF ok]])
qed

text \<open>The pool with one established connection, that of request 11.\<close>

lemma ex_pool_ok: "ex_ok {11} {} ex_pool"
proof (rule ex_ok_store [OF ex_ok_start [of TypeAsr 2]])
  have "ex_store Preconnected TypeAsr 11 (ex_start TypeAsr 2) \<noteq> None" by code_simp
  then show "ex_store Preconnected TypeAsr 11 (ex_start TypeAsr 2) = Some ex_pool"
    by (simp add: ex_pool_def)
  show "map_option owns (node_of (fst (ex_start TypeAsr 2)) 11) = Some True" by code_simp
qed simp_all

lemma ex_pool_slot:
  "map_option status (at (snd ex_pool) TypeAsr Preconnected 0) = Some (live Preconnected)"
  by code_simp

section \<open>The invariant of reachable states\<close>

lemma sound_exclusive:
  assumes sound: "sound h p" and s: "at p t k i = Some s" "status s = live k"
    and s': "at p t' k' i' = Some s'" "status s' = live k'" and pos: "(t, k, i) \<noteq> (t', k', i')"
  shows "request s \<noteq> request s' \<and> sslHandle s \<noteq> sslHandle s'"
proof -
  have own: "owners_ok h p" and ok: "heap_ok h" using sound_inv [OF sound] by (simp_all add: pool_inv_def)
  have "request s \<noteq> NULL" using inv_slot [OF sound_inv [OF sound] s(1)] s(2) by (simp add: slot_ok_def)
  then have req: "request s \<noteq> request s'" using owners_okD(2) [OF own s(1) s'(1)] pos by blast
  obtain n where n: "node_of h (request s) = Some n" "n_sslHandle n = sslHandle s" "owns n"
    using sound_conn [OF sound] s unfolding conn_ok_def caches_def by blast
  obtain n' where n': "node_of h (request s') = Some n'" "n_sslHandle n' = sslHandle s'" "owns n'"
    using sound_conn [OF sound] s' unfolding conn_ok_def caches_def by blast
  have "sslHandle s \<noteq> sslHandle s'"
    using ok n n' req unfolding heap_ok_def by metis
  then show ?thesis using req by simp
qed

lemma sound_live_ssl:
  assumes sound: "sound h p" and s: "at p t k i = Some s" "status s = live k"
  shows "alive h (request s) \<and> ssls h (sslHandle s) \<and> sslHandle s \<noteq> NULL"
proof -
  have ok: "heap_ok h" using sound_inv [OF sound] by (simp add: pool_inv_def)
  obtain n where n: "node_of h (request s) = Some n" "n_sslHandle n = sslHandle s" "owns n"
    using sound_conn [OF sound] s unfolding conn_ok_def caches_def by blast
  moreover from this have "ssls h (n_sslHandle n)" using ok unfolding heap_ok_def by blast
  ultimately show ?thesis by (simp add: alive_def owns_def)
qed



end
