(* ===== verification/PoolContracts.thy ===== *)
theory PoolContracts
  imports PoolTheorems
begin

text \<open>
  The contracts of single operations of the connection pool, in any sound state: popping,
  storing and finishing, the timer, the release event and the destructor.
\<close>

section \<open>Popping\<close>

text \<open>C4: asking the pool for a connection is well defined in every sound state, for a living
request that owns its SSL handle and is not stored. It either hands out one slot, which was
live, could be picked, had no user and was prepared with equal parameters (a started
connection is preferred to an established one), and the request then uses that slot's handle
and socket; or it hands out nothing and leaves the heap as it was. The state stays sound.\<close>

theorem tryToGetPreconnection_contract:
  assumes "sound h p" "node_of h req = Some n" "owns n" "req \<noteq> NULL" "req \<notin> requests p"
  shows "\<exists>r h' p'. tryToGetPreconnection h p req t = Some (r, h', p') \<and> sound h' p' \<and>
    (r = PreNodeStarted \<and> picks h p h' p' req t Prestarted \<or>
     r = PreNodeConnected \<and> picks h p h' p' req t Preconnected \<or>
     r = PreNodeInvalid \<and> h' = h)"
proof -
  have st: "\<not> stored p req" using assms(5) by (simp add: stored_requests)
  from tryToGet_ok [OF sound_safe [OF assms(1)] assms(2,3) st assms(4), of t] obtain r h' p' where
    "tryToGetPreconnection h p req t = Some (r, h', p')"
    "r = PreNodeStarted \<and> picks h p h' p' req t Prestarted \<or>
     r = PreNodeConnected \<and> picks h p h' p' req t Preconnected \<or> r = PreNodeInvalid \<and> h' = h" by blast
  moreover from this(1) have "sound h' p'" using sound_pop [OF assms(1-3) assms(4,5), of t] by auto
  ultimately show ?thesis by blast
qed

theorem tryToGetPreconnection_contract_witness:
  "\<exists>r h' p'. tryToGetPreconnection (fst ex_pool) (snd ex_pool) 21 TypeAsr = Some (r, h', p') \<and> sound h' p' \<and>
    picks (fst ex_pool) (snd ex_pool) h' p' 21 TypeAsr Preconnected"
proof -
  have got: "map_option fst (tryToGetPreconnection (fst ex_pool) (snd ex_pool) 21 TypeAsr) = Some PreNodeConnected"
    "map_option owns (node_of (fst ex_pool) 21) = Some True" by code_simp+
  obtain n where n: "node_of (fst ex_pool) 21 = Some n" "owns n" using got(2) by auto
  have "21 \<notin> requests (snd ex_pool)" using ex_pool_ok by (auto simp: ex_ok_def)
  from tryToGetPreconnection_contract [OF ex_ok_sound [OF ex_pool_ok] n _ this, of TypeAsr] got(1)
  show ?thesis by auto
qed

text \<open>A pop finds what is there: nothing is returned only if no slot from the front index on
is live, can be picked and matches.\<close>

lemma pop_one_complete:
  assumes inv: "pool_inv h p" and pp: "poolProcess t p = Some pp"
    and pop: "pop_one k lk eq h p req t = Some (False, h', p')"
    and s: "i < length (slots k pp)" "status (slots k pp ! i) = live k" "canPick (slots k pp ! i)"
      "fst (popListFront (index_list lk pp)) \<le> int i"
    and prm: "getRequestParam h req = Some prm" "getRequestParam h (request (slots k pp ! i)) = Some prm'"
  shows "\<not> eq prm (slots k pp ! i) prm'"
proof -
  obtain idx l where front: "popListFront (index_list lk pp) = (idx, l)" by fastforce
  have idx: "0 \<le> idx" "idx \<le> int (length (slots k pp))"
    using popListFront_range [OF inv_shape [OF inv pp], of lk k] front by simp_all
  have none: "find_pick h k eq req (nat idx) (drop (nat idx) (slots k pp)) = Some None"
    using pop pp front idx by (auto simp: pop_one_def Let_def split: bind_splits option.splits)
  have "slots k pp ! i \<in> set (drop (nat idx) (slots k pp))"
  proof -
    have "nat idx \<le> i" using s(4) front by simp
    then have "slots k pp ! i = drop (nat idx) (slots k pp) ! (i - nat idx)" using s(1) by simp
    then show ?thesis using s(1) \<open>nat idx \<le> i\<close> by (metis diff_less_mono length_drop nth_mem)
  qed
  then show ?thesis using find_pick_NoneD [OF none _ s(2,3) prm] by blast
qed

text \<open>A pop of a started connection comes back empty only when no slot from the least index
of the index list on matches: every live slot at or behind some index of the list that can be
picked was prepared with different parameters. With an empty index list every slot is
considered.\<close>

theorem popOnePrestartedNode_complete:
  assumes "sound h p" "poolProcess t p = Some pp" "popOnePrestartedNode h p req t = Some (False, h', p')"
    and "at p t Prestarted i = Some s" "status s = PreNodeStarted" "canPick s"
    and "prestartedIndexList pp = [] \<or> (\<exists>j\<in>set (prestartedIndexList pp). j \<le> int i)"
    and "getRequestParam h req = Some prm" "getRequestParam h (request s) = Some prm'"
  shows "\<not> equal_prestarted t prm s prm'"
proof -
  have inv: "pool_inv h p" by (rule sound_inv [OF assms(1)])
  have i: "i < length (slots Prestarted pp)" and s: "slots Prestarted pp ! i = s"
    using at_SomeD [OF assms(4)] assms(2) by auto
  have sorted: "sorted (index_list Prestarted pp)" by (rule process_shapeD(2) [OF inv_shape [OF inv assms(2)]])
  have "fst (popListFront (index_list Prestarted pp)) \<le> int i"
  proof (cases "prestartedIndexList pp")
    case (Cons a l)
    then show ?thesis using assms(7) sorted by auto
  qed simp
  then show ?thesis
    using pop_one_complete [OF inv assms(2) assms(3) [unfolded popOnePrestartedNode_def], of i prm prm'] i s assms(5-9)
    by auto
qed

theorem popOnePrestartedNode_complete_witness:
  "\<exists>p s prm prm'. at p TypeTts Prestarted 0 = Some s \<and> canPick s \<and> \<not> equal_prestarted TypeTts prm s prm'"
proof -
  have run: "map_option (\<lambda>(R, U, h, p). (map_option fst (popOnePrestartedNode h p 31 TypeTts),
        map_option (\<lambda>s. (status s, canPick s, getRequestParam h (request s) \<noteq> None))
          (at p TypeTts Prestarted 0), getRequestParam h 31 \<noteq> None,
        map_option prestartedIndexList (poolProcess TypeTts p)))
      (ex_exec TypeTts [Store Prestarted 11] ([], [], ex_start TypeTts 3)) =
    Some (Some False, Some (PreNodeStarted, True, True), True, Some [0])" by code_simp
  obtain h p where sound: "sound h p" and f: "map_option fst (popOnePrestartedNode h p 31 TypeTts) = Some False"
    "map_option (\<lambda>s. (status s, canPick s, getRequestParam h (request s) \<noteq> None))
       (at p TypeTts Prestarted 0) = Some (PreNodeStarted, True, True)"
    "getRequestParam h 31 \<noteq> None" "map_option prestartedIndexList (poolProcess TypeTts p) = Some [0]"
    by (rule ex_run [OF run]) (simp split: prod.splits del: map_option_eq_Some poolProcess.simps)
  obtain h' p' where pop: "popOnePrestartedNode h p 31 TypeTts = Some (False, h', p')" using f(1) by auto
  obtain s prm' where s: "at p TypeTts Prestarted 0 = Some s" "status s = PreNodeStarted" "canPick s"
    "getRequestParam h (request s) = Some prm'" using f(2) by auto
  obtain pp where pp: "poolProcess TypeTts p = Some pp" "prestartedIndexList pp = [0]" using f(4) by auto
  obtain prm where prm: "getRequestParam h 31 = Some prm" using f(3) by auto
  from popOnePrestartedNode_complete [OF sound pp(1) pop s(1-3) _ prm s(4)] pp(2) s show ?thesis by auto
qed

section \<open>Storing\<close>

text \<open>What a push of a new connection that succeeds has done.\<close>

lemma push_new_ok:
  assumes inv: "pool_inv h p" and n: "node_of h r = Some n" and r: "r \<noteq> NULL"
    and push: "push_node k now h p r t True = Some (True, h1, p1)"
  shows "\<exists>i pp prm s0. poolProcess t (ensure_pool t p) = Some pp \<and> i < length (slots k pp) \<and>
    p1 = set_poolProcess t ((upd_slot k i (fill_slot k now r n prm) pp)\<lparr>work := True\<rparr>) (ensure_pool t p) \<and>
    changed (ensure_pool t p) p1 t k i (fill_slot k now r n prm s0) \<and>
    node_of h1 r = Some (n\<lparr>n_poolIndex := int i\<rparr>)"
proof -
  have ok: "heap_ok h" using inv by (simp add: pool_inv_def)
  from push r n obtain pp where pp: "poolProcess t (ensure_pool t p) = Some pp"
    and st: "store_new k now h (ensure_pool t p) r t pp n = Some (True, h1, p1)"
    by (auto simp: push_node_def Let_def split: option.splits)
  from st obtain i prm where i: "first_index free_slot (slots k pp) = Some i"
    and h1: "update_node h r (\<lambda>n. n\<lparr>n_poolIndex := int i\<rparr>) = Some h1"
    and p1: "p1 = set_poolProcess t ((upd_slot k i (fill_slot k now r n prm) pp)\<lparr>work := True\<rparr>) (ensure_pool t p)"
    by (auto simp: store_new_def split: option.splits bind_splits)
  have "changed (ensure_pool t p) p1 t k i (fill_slot k now r n prm (slots k pp ! i))"
    unfolding p1 by (rule changedI [OF pp _ _ first_index_less [OF i]]) simp_all
  then show ?thesis
    using pp p1 first_index_less [OF i] update_node_SomeD [OF ok h1] n by auto
qed

lemma first_index_from_here:
  "i < length xs \<Longrightarrow> P (xs ! i) \<Longrightarrow> first_index_from P i xs = Some i"
  by (simp add: first_index_from_def Cons_nth_drop_Suc [symmetric])

lemma finish_kind_here:
  assumes inv: "pool_inv h p" and pp: "poolProcess t p = Some pp" "i < length (slots k pp)"
    and s: "status (slots k pp ! i) = live k" "same_slot fd ssl (slots k pp ! i)"
  shows "finish_kind k h p t fd ssl i = Some (Some (set_poolProcess t (make_pickable k i pp) p))"
proof -
  have "slots k pp ! i \<in> set (slots k pp)" using pp(2) by simp
  then have "count_live k t p \<noteq> 0" using pp(1) s(1) by (auto simp: count_live_def filter_empty_conv)
  moreover have "getConnectNode h (request (slots k pp ! i)) \<noteq> None"
    using live_node [OF inv at_SomeI [OF pp] s(1)]
    by (auto simp: getConnectNode_def node_of_def split: bind_splits)
  ultimately show ?thesis
    using pp s first_index_from_here [of i "slots k pp" "\<lambda>s. status s = live k \<and> same_slot fd ssl s"]
    by (auto simp: finish_kind_def find_from_def)
qed

lemma finish_kind_nowhere:
  assumes "finish_kind k h p t fd ssl i = Some r"
    "\<And>j s. at p t k j = Some s \<Longrightarrow> status s = live k \<Longrightarrow> sslHandle s \<noteq> ssl"
  shows "r = None"
proof (cases r)
  case (Some p')
  from finish_kind_SomeD [OF assms(1) [unfolded Some]] obtain pp j where
    "poolProcess t p = Some pp" "j < length (slots k pp)" "status (slots k pp ! j) = live k"
    "same_slot fd ssl (slots k pp ! j)" by metis
  then show ?thesis using assms(2) [OF at_SomeI] by (auto simp: same_slot_def)
qed

text \<open>C5: a connection that is stored and finished can be handed out. When a push of a new
connection succeeds, the request's node remembers the index of the slot; finishing with the
node's socket, handle and index then makes exactly this slot pickable, with the request's own
connection in it and without a user, and puts its index on the list; every other slot is as it
was. This holds for both vectors, although finishing looks at the started one first.\<close>

theorem store_then_pickable:
  assumes "sound h p" "r \<noteq> NULL" "r \<notin> requests p" "r \<notin> users p" "node_of h r = Some n" "owns n"
    and "push_node k now h p r t True = Some (True, h1, p1)" "node_of h1 r = Some n1"
    and "finishPushPreNode h1 p1 t (n_socketFd n1) (n_sslHandle n1) (n_poolIndex n1) = Some p2"
  shows "\<exists>i s pp. n_poolIndex n1 = int i \<and> changed (ensure_pool t p) p2 t k i s \<and>
    poolProcess t p2 = Some pp \<and> int i \<in> set (index_list k pp) \<and>
    status s = live k \<and> canPick s \<and> curRequest s = NULL \<and> request s = r \<and>
    sslHandle s = n_sslHandle n \<and> socketFd s = n_socketFd n"
proof -
  have sound1: "sound h1 p1" by (rule sound_store [OF assms(1,3-7)])
  note inv1 = sound_inv [OF sound1]
  from push_new_ok [OF sound_inv [OF assms(1)] assms(5,2,7)] obtain i qq prm s0 where
    qq: "poolProcess t (ensure_pool t p) = Some qq" "i < length (slots k qq)" and
    p1: "p1 = set_poolProcess t ((upd_slot k i (fill_slot k now r n prm) qq)\<lparr>work := True\<rparr>) (ensure_pool t p)" and
    ch: "changed (ensure_pool t p) p1 t k i (fill_slot k now r n prm s0)" and
    n1: "n1 = n\<lparr>n_poolIndex := int i\<rparr>" using assms(8) by auto
  let ?s = "fill_slot k now r n prm s0"
  have at1: "at p1 t k i = Some ?s" using ch by (simp add: changed_def)
  then obtain pp where pp: "poolProcess t p1 = Some pp" "i < length (slots k pp)" "slots k pp ! i = ?s"
    using at_SomeD by blast
  have live: "status ?s = live k" "same_slot (n_socketFd n1) (n_sslHandle n1) ?s"
    by (simp_all add: fill_slot_def same_slot_def n1)
  have here: "finish_kind k h1 p1 t (n_socketFd n1) (n_sslHandle n1) i =
      Some (Some (set_poolProcess t (make_pickable k i pp) p1))"
    by (rule finish_kind_here [OF inv1 pp(1,2)]) (use live pp(3) in simp_all)
  have p2: "p2 = set_poolProcess t (make_pickable k i pp) p1"
  proof (cases k)
    case Prestarted
    then show ?thesis using assms(9) here by (simp add: finishPushPreNode_def n1)
  next
    case Preconnected
    have pre: "sslHandle s' \<noteq> n_sslHandle n1" if "at p1 t Prestarted j = Some s'" "status s' = live Prestarted" for j s'
      using sound_exclusive [OF sound1 at1 live(1) that] Preconnected by (simp add: fill_slot_def n1)
    obtain r' where r': "finish_kind Prestarted h1 p1 t (n_socketFd n1) (n_sslHandle n1) i = Some r'"
      using assms(9) by (auto simp: finishPushPreNode_def n1 split: bind_splits)
    have "r' = None" by (rule finish_kind_nowhere [OF r' pre])
    then show ?thesis using assms(9) here r' Preconnected by (simp add: finishPushPreNode_def n1)
  qed
  let ?s2 = "?s\<lparr>canPick := True, curRequest := NULL, curRequestInvalid := False\<rparr>"
  have "changed p1 p2 t k i ?s2"
    unfolding p2 by (rule changedI [OF pp(1) _ _ pp(2)]) (simp_all add: make_pickable_def pp(3))
  then have "changed (ensure_pool t p) p2 t k i ?s2" using ch by (auto simp: changed_def)
  moreover have "poolProcess t p2 = Some (make_pickable k i pp)" unfolding p2 using pp(1) by simp
  moreover have "int i \<in> set (index_list k (make_pickable k i pp))"
    by (simp add: make_pickable_def insertListInOrder_def)
  ultimately show ?thesis using n1 by (intro exI conjI) (assumption | simp add: fill_slot_def)+
qed

theorem store_then_pickable_witness:
  "\<exists>p2 s. ex_store Preconnected TypeAsr 11 (ex_start TypeAsr 2) = Some p2 \<and>
    at (snd p2) TypeAsr Preconnected 0 = Some s \<and> canPick s \<and> request s = 11"
proof -
  let ?s = "ex_start TypeAsr 2"
  have run: "map_option (\<lambda>(b, h, p). (b, map_option n_poolIndex (node_of h 11)))
      (push_node Preconnected 6 (fst ?s) (snd ?s) 11 TypeAsr True) = Some (True, Some 0)"
    "map_option owns (node_of (fst ?s) 11) = Some True"
    "ex_store Preconnected TypeAsr 11 ?s \<noteq> None" by code_simp+
  obtain n where n: "node_of (fst ?s) 11 = Some n" "owns n" using run(2) by auto
  obtain x where x: "ex_store Preconnected TypeAsr 11 ?s = Some x" using run(3) by auto
  from ex_storeD [OF this] obtain b h1 p1 n1 p2 where st: "push_node Preconnected 6 (fst ?s) (snd ?s) 11 TypeAsr True = Some (b, h1, p1)"
    "node_of h1 11 = Some n1" "finishPushPreNode h1 p1 TypeAsr (n_socketFd n1) (n_sslHandle n1) (n_poolIndex n1) = Some p2"
    "x = (h1, p2)" by metis
  have b: "b" "n_poolIndex n1 = 0" using run(1) st(1,2) by auto
  have none: "11 \<notin> requests (snd ?s)" "11 \<notin> users (snd ?s)" by (simp_all add: ex_start_def)
  from store_then_pickable [OF ex_ok_sound [OF ex_ok_start] _ none n st(1) [unfolded eqTrueI [OF b(1)]] st(2,3)] x st(4) b(2)
  show ?thesis by (auto simp: changed_def)
qed

section \<open>Promoting\<close>

text \<open>Promoting a connection needs a free started slot. When there is none, the call reports
failure but has already cleared the established slot: the request that owns the connection is
no longer stored in the pool, nobody deletes it, and its SSL handle stays allocated.\<close>

theorem promotion_without_slot_leaks:
  assumes "sound h p" "node_of h req = Some n" "req \<noteq> NULL" "0 \<le> n_poolIndex n"
    and "at p t Preconnected (nat (n_poolIndex n)) = Some s" "status s = PreNodeConnected"
    and "node_of h (request s) = Some m" "same_connection m (n_socketFd n) (n_sslHandle n)"
    and "\<forall>j s'. at p t Prestarted j = Some s' \<longrightarrow> \<not> free_slot s'"
  shows "\<exists>p'. pushPrestartedNodeFromPreconnected now h p req t = Some (False, h, p') \<and>
    at p' t Preconnected (nat (n_poolIndex n)) = Some (clearNode s) \<and>
    request s \<notin> requests p' \<and> alive h (request s) \<and> ssls h (sslHandle s)"
proof -
  let ?i = "nat (n_poolIndex n)"
  have inv: "pool_inv h p" by (rule sound_inv [OF assms(1)])
  obtain pp where pp: "poolProcess t p = Some pp" "?i < length (preconnectedRequests pp)"
    "preconnectedRequests pp ! ?i = s" using at_SomeD [OF assms(5)] by auto
  let ?p' = "set_poolProcess t (upd_slot Preconnected ?i clearNode pp) p"
  have max: "length (preconnectedRequests pp) = maxPreconnectedNumber p"
    using process_shapeD(1) [OF inv_shape [OF inv pp(1)], of Preconnected] pp(2) by auto
  have small: "maxPreconnectedNumber p < 2 ^ 31" using inv by (simp add: pool_inv_def pool_shape_def)
  have guard: "index_guard (length (preconnectedRequests pp)) (n_poolIndex n)"
    using index_guard_in_range [of "n_poolIndex n" "maxPreconnectedNumber p"] assms(4) pp(2) max small
    by auto
  have none: "first_index free_slot (prestartedRequests pp) = None"
  proof -
    have "\<not> free_slot x" if "x \<in> set (prestartedRequests pp)" for x
      using assms(9) that at_SomeI [OF pp(1), of _ Prestarted] by (auto simp: in_set_conv_nth)
    then show ?thesis by (simp add: first_index_None_iff)
  qed
  have push: "pushPrestartedNodeFromPreconnected now h p req t = Some (False, h, ?p')"
    using assms(2-4,6-8) pp guard none
    by (simp add: pushPrestartedNodeFromPreconnected_def slot_at_def move_to_prestarted_def)
  have i: "?i < length (slots Preconnected pp)" using pp(2) by simp
  have ch: "changed p ?p' t Preconnected ?i (clearNode s)"
    by (rule changedI [OF pp(1) _ _ i]) (simp_all add: pp(3))
  have req0: "request s \<noteq> NULL" using inv_slot [OF inv assms(5)] assms(6) by (simp add: slot_ok_def)
  have "request s \<notin> requests ?p'"
  proof
    assume "request s \<in> requests ?p'"
    then obtain t' k' j s' where s': "at ?p' t' k' j = Some s'" "request s' = request s"
      unfolding requests_def by blast
    have "(t', k', j) = (t, Preconnected, ?i)"
    proof (rule ccontr)
      assume neq: "(t', k', j) \<noteq> (t, Preconnected, ?i)"
      then have "at p t' k' j = Some s'" using ch s'(1) by (auto simp: changed_def split: if_splits)
      moreover have "owners_ok h p" using inv by (simp add: pool_inv_def)
      ultimately show False using owners_okD(2) [OF _ assms(5)] s'(2) req0 neq by metis
    qed
    then have "s' = clearNode s" using ch s'(1) by (simp add: changed_def)
    then show False using s'(2) req0 by (simp add: clearNode_def)
  qed
  moreover have "at ?p' t Preconnected ?i = Some (clearNode s)" using ch by (simp add: changed_def)
  ultimately show ?thesis
    using push sound_live_ssl [OF assms(1,5)] assms(6) by (intro exI [of _ ?p']) simp
qed

theorem promotion_without_slot_leaks_witness:
  "\<exists>h p p'. pushPrestartedNodeFromPreconnected 7 h p 61 TypeTts = Some (False, h, p') \<and>
    31 \<notin> requests p' \<and> alive h 31 \<and> ssls h 33"
proof -
  have run: "map_option (\<lambda>(R, U, h, p). (map_option (\<lambda>n. (n_poolIndex n, map_option (\<lambda>m. same_connection m (n_socketFd n) (n_sslHandle n)) (node_of h 31)))
          (node_of h 61), map_option (\<lambda>s. (status s, request s, sslHandle s)) (at p TypeTts Preconnected 0),
        map_option (\<lambda>pp. list_all (Not \<circ> free_slot) (prestartedRequests pp)) (poolProcess TypeTts p)))
      (ex_exec TypeTts [Store Prestarted 11, Store Prestarted 21, Store Prestarted 51, Store Preconnected 31, Pop 61]
        ([], [], ex_start TypeTts 6)) =
    Some (Some (0, Some True), Some (PreNodeConnected, 31, 33), Some True)" by code_simp
  obtain h p where sound: "sound h p" and f: "map_option (\<lambda>n. (n_poolIndex n, map_option (\<lambda>m. same_connection m (n_socketFd n) (n_sslHandle n)) (node_of h 31)))
          (node_of h 61) = Some (0, Some True)"
    "map_option (\<lambda>s. (status s, request s, sslHandle s)) (at p TypeTts Preconnected 0) = Some (PreNodeConnected, 31, 33)"
    "map_option (\<lambda>pp. list_all (Not \<circ> free_slot) (prestartedRequests pp)) (poolProcess TypeTts p) = Some True"
    by (rule ex_run [OF run]) (simp split: prod.splits del: map_option_eq_Some poolProcess.simps)
  obtain n m where n: "node_of h 61 = Some n" "n_poolIndex n = 0" "node_of h 31 = Some m"
    "same_connection m (n_socketFd n) (n_sslHandle n)" using f(1) by auto
  obtain s where s: "at p TypeTts Preconnected 0 = Some s" "status s = PreNodeConnected" "request s = 31" "sslHandle s = 33"
    using f(2) by auto
  have full: "\<forall>j s'. at p TypeTts Prestarted j = Some s' \<longrightarrow> \<not> free_slot s'"
    using f(3) by (auto simp: list_all_iff dest!: at_SomeD)
  have i: "at p TypeTts Preconnected (nat (n_poolIndex n)) = Some s" "0 \<le> n_poolIndex n" using s(1) n(2) by simp_all
  from promotion_without_slot_leaks [OF sound n(1) _ i(2,1) s(2) _ _ full, of m 7] n(3,4) s(3,4)
  show ?thesis by auto
qed

section \<open>The timer\<close>

text \<open>When a live slot is marked for release: it is due and has no user, or it is not due and its
PING fails.\<close>

definition expires :: "heap \<Rightarrow> ConnectedPool \<Rightarrow> u64 readings \<Rightarrow> int readings \<Rightarrow> NlsType \<Rightarrow> kind \<Rightarrow> nat \<Rightarrow>
    ConnectedNodeProcess \<Rightarrow> bool" where
  "expires h p now ping t k i s \<longleftrightarrow>
    (if due h (case k of Prestarted \<Rightarrow> prerequestedTimeoutMs p | Preconnected \<Rightarrow> preconnectedTimeoutMs p)
        (now t k i) s
     then curRequest s = NULL else ping t k i \<noteq> Success)"

lemma timer_slot_expires:
  assumes "pool_inv h p" "at p t k i = Some s" "status s = live k"
  shows "\<exists>s'. timer_slot h p now ping t k i s = Some (s', expires h p now ping t k i s) \<and>
    (if expires h p now ping t k i s then expired s s' else s' = s\<lparr>workableTimestamp := last_use h s\<rparr>)"
proof -
  from timer_slot_cases [OF assms, of now ping] obtain s' r where
    r: "timer_slot h p now ping t k i s = Some (s', r)" and
    iff: "r \<longleftrightarrow> (if due h (case k of Prestarted \<Rightarrow> prerequestedTimeoutMs p | Preconnected \<Rightarrow> preconnectedTimeoutMs p)
        (now t k i) s then curRequest s = NULL else ping t k i \<noteq> Success)" and
    s': "if r then expired s s' \<and> (shouldPreconnect s' \<longrightarrow> shouldRelease s')
     else s' = s\<lparr>workableTimestamp := last_use h s\<rparr>" by blast
  have "r = expires h p now ping t k i s" using iff by (simp only: expires_def)
  then show ?thesis using r s' by (cases r) auto
qed

text \<open>C6: the timer marks exactly the slots that expire. In a sound state the callback is well
defined and stays sound; in every type that is in work, a live slot that expires is marked for
release with its request and can no longer be picked, a live slot that does not is only given the
time of its last use (so a connection in use whose PING succeeds is never released, however
long it takes), and all other slots stay as they are. The result, which decides whether the
release event is raised, is the number of slots marked.\<close>

theorem timer_marks_expired:
  assumes "sound h p"
  shows "\<exists>p'. connectPoolEventCallback h now ping False p =
      Some (\<Sum>t\<in>timers. if worked p t then card {i. \<exists>s. at p t Prestarted i = Some s \<and>
          status s = PreNodeStarted \<and> expires h p now ping t Prestarted i s} +
        card {i. \<exists>s. at p t Preconnected i = Some s \<and> status s = PreNodeConnected \<and>
          expires h p now ping t Preconnected i s} else 0, p') \<and> sound h p' \<and>
    (\<forall>t k i s. at p t k i = Some s \<longrightarrow> (\<exists>s'. at p' t k i = Some s' \<and>
      (if t \<in> timers \<and> worked p t \<and> status s = live k
       then (if expires h p now ping t k i s then expired s s' else s' = s\<lparr>workableTimestamp := last_use h s\<rparr>)
       else s' = s)))"
proof -
  have inv: "pool_inv h p" by (rule sound_inv [OF assms])
  obtain p' where p': "connectPoolEventCallback h now ping False p =
      Some (\<Sum>t\<in>timers. if worked p t then marked h p now ping t else 0, p')"
    "timed h p now ping p' (\<lambda>t. t \<in> timers \<and> worked p t)" "safe h p'"
    using connectPoolEventCallback_timed [OF sound_safe [OF assms]] by blast
  have set: "{i. \<exists>s s'. at p t k i = Some s \<and> timer_slot h p now ping t k i s = Some (s', True)} =
      {i. \<exists>s. at p t k i = Some s \<and> status s = live k \<and> expires h p now ping t k i s}" for t k
  proof (intro Collect_cong iffI; elim exE conjE)
    fix i s s' assume a: "at p t k i = Some s" "timer_slot h p now ping t k i s = Some (s', True)"
    then have "status s = live k" by (auto simp: timer_slot_def timeout_slot_dead intro: ccontr)
    then show "\<exists>s. at p t k i = Some s \<and> status s = live k \<and> expires h p now ping t k i s"
      using timer_slot_expires [OF inv a(1), of now ping] a by auto
  next
    fix i s assume a: "at p t k i = Some s" "status s = live k" "expires h p now ping t k i s"
    then show "\<exists>s s'. at p t k i = Some s \<and> timer_slot h p now ping t k i s = Some (s', True)"
      using timer_slot_expires [OF inv a(1,2), of now ping] by auto
  qed
  have m: "marked h p now ping t = card {i. \<exists>s. at p t Prestarted i = Some s \<and>
        status s = PreNodeStarted \<and> expires h p now ping t Prestarted i s} +
      card {i. \<exists>s. at p t Preconnected i = Some s \<and> status s = PreNodeConnected \<and>
        expires h p now ping t Preconnected i s}" for t
    unfolding marked_def set by simp
  have slots: "\<exists>s'. at p' t k i = Some s' \<and>
      (if t \<in> timers \<and> worked p t \<and> status s = live k
       then (if expires h p now ping t k i s then expired s s' else s' = s\<lparr>workableTimestamp := last_use h s\<rparr>)
       else s' = s)" if at: "at p t k i = Some s" for t k i s
  proof (cases "t \<in> timers \<and> worked p t")
    case False
    then show ?thesis using p'(2) at by (auto simp: timed_def)
  next
    case True
    show ?thesis
    proof (cases "status s = live k")
      case dead: False
      then show ?thesis using p'(2) at True by (auto simp: timed_def timer_slot_def timeout_slot_dead)
    next
      case live: True
      then show ?thesis using timer_slot_expires [OF inv at live, of now ping] p'(2) at True
        by (auto simp: timed_def)
    qed
  qed
  have "sound h p'"
    by (rule sound_step [OF assms p'(3) within_timed [OF inv p'(2)]])
  then show ?thesis using p'(1) slots unfolding m by blast
qed

theorem timer_marks_expired_witness:
  "\<exists>p'. connectPoolEventCallback (fst ex_pool) (\<lambda>_ _ _. 6) (\<lambda>_ _ _. 1) False (snd ex_pool) = Some (1, p') \<and>
    sound (fst ex_pool) p' \<and> (\<exists>s. at p' TypeAsr Preconnected 0 = Some s \<and> shouldRelease s)"
proof -
  have run: "map_option fst (connectPoolEventCallback (fst ex_pool) (\<lambda>_ _ _. 6) (\<lambda>_ _ _. 1) False (snd ex_pool)) = Some 1"
    "map_option work (poolProcess TypeAsr (snd ex_pool)) = Some True"
    "map_option (\<lambda>s. (status s, expires (fst ex_pool) (snd ex_pool) (\<lambda>_ _ _. 6) (\<lambda>_ _ _. 1) TypeAsr Preconnected 0 s))
      (at (snd ex_pool) TypeAsr Preconnected 0) = Some (PreNodeConnected, True)" by code_simp+
  obtain s where s: "at (snd ex_pool) TypeAsr Preconnected 0 = Some s" "status s = live Preconnected"
    "expires (fst ex_pool) (snd ex_pool) (\<lambda>_ _ _. 6) (\<lambda>_ _ _. 1) TypeAsr Preconnected 0 s" using run(3) by auto
  have worked: "worked (snd ex_pool) TypeAsr" "TypeAsr \<in> timers" using run(2) by (auto simp: worked_def timers_def)
  from timer_marks_expired [OF ex_ok_sound [OF ex_pool_ok], of "\<lambda>_ _ _. 6" "\<lambda>_ _ _. 1"] obtain p' c where
    p': "connectPoolEventCallback (fst ex_pool) (\<lambda>_ _ _. 6) (\<lambda>_ _ _. 1) False (snd ex_pool) = Some (c, p')"
    "sound (fst ex_pool) p'" "\<exists>s'. at p' TypeAsr Preconnected 0 = Some s' \<and> expired s s'"
    using s worked by meson
  then show ?thesis using run(1) by (auto simp: expired_def)
qed

section \<open>Destruction\<close>

text \<open>Deleting the requests of a vector: each at most once.\<close>

definition owned :: "ConnectedNodeProcess list \<Rightarrow> ptr list" where
  "owned ss = filter (\<lambda>r. r \<noteq> NULL) (map request ss)"

lemma deletePreNode_ok:
  "heap_ok h \<Longrightarrow> (\<forall>r\<in>set (owned ss). alive h r) \<Longrightarrow> distinct (owned ss) \<Longrightarrow>
    \<exists>h'. deletePreNode h ss = Some h' \<and> heap_ok h' \<and>
      (\<forall>r. node_of h' r = (if r \<in> set (owned ss) then None else node_of h r))"
proof (induction ss arbitrary: h)
  case Nil
  then show ?case by (simp add: owned_def)
next
  case (Cons s ss)
  show ?case
  proof (cases "request s = NULL")
    case True
    then show ?thesis using Cons by (simp add: owned_def)
  next
    case False
    then have own: "owned (s # ss) = request s # owned ss" by (simp add: owned_def)
    obtain h1 where h1: "delete_request h (request s) = Some h1" "heap_ok h1"
      "\<And>r'. node_of h1 r' = (if r' = request s then None else node_of h r')"
      by (rule delete_request_ok [OF Cons.prems(1), of "request s"]) (use Cons.prems(2) own in auto)
    have "\<forall>r\<in>set (owned ss). alive h1 r" "distinct (owned ss)" "request s \<notin> set (owned ss)"
      using Cons.prems(2,3) own h1(3) by (auto simp: alive_def)
    with Cons.IH [OF h1(2)] obtain h' where "deletePreNode h1 ss = Some h'" "heap_ok h'"
      "\<forall>r. node_of h' r = (if r \<in> set (owned ss) then None else node_of h1 r)" by blast
    then show ?thesis using False h1 own by auto
  qed
qed

lemma distinct_nonzero:
  "inj_on (\<lambda>i. f (xs ! i)) {i. i < length xs \<and> f (xs ! i) \<noteq> (0::nat)} \<Longrightarrow>
    distinct (filter (\<lambda>r. r \<noteq> 0) (map f xs))"
proof (induction xs)
  case (Cons x xs)
  have inj: "inj_on (\<lambda>i. f (xs ! i)) {i. i < length xs \<and> f (xs ! i) \<noteq> 0}"
  proof (rule inj_onI)
    fix i j assume a: "i \<in> {i. i < length xs \<and> f (xs ! i) \<noteq> 0}" "j \<in> {i. i < length xs \<and> f (xs ! i) \<noteq> 0}"
      "f (xs ! i) = f (xs ! j)"
    then have "Suc i = Suc j" using inj_onD [OF Cons.prems, of "Suc i" "Suc j"] by auto
    then show "i = j" by simp
  qed
  have "f x \<notin> set (filter (\<lambda>r. r \<noteq> 0) (map f xs))" if x: "f x \<noteq> 0"
  proof
    assume "f x \<in> set (filter (\<lambda>r. r \<noteq> 0) (map f xs))"
    then obtain i where "i < length xs" "f (xs ! i) = f x" by (auto simp: in_set_conv_nth)
    then have "Suc i = 0" using inj_onD [OF Cons.prems, of "Suc i" 0] x by auto
    then show False by simp
  qed
  then show ?case using Cons.IH [OF inj] by auto
qed simp

text \<open>A pool that stores living requests, each once; the heap may differ from the one it was
sound in.\<close>

definition stores :: "heap \<Rightarrow> ConnectedPool \<Rightarrow> bool" where
  "stores h p \<longleftrightarrow> heap_ok h \<and>
    (\<forall>t k i s. at p t k i = Some s \<longrightarrow> request s \<noteq> NULL \<longrightarrow> alive h (request s)) \<and>
    (\<forall>t k i s t' k' i' s'. at p t k i = Some s \<longrightarrow> at p t' k' i' = Some s' \<longrightarrow>
      request s \<noteq> NULL \<longrightarrow> request s = request s' \<longrightarrow> (t, k, i) = (t', k', i'))"

lemma sound_stores: "sound h p \<Longrightarrow> stores h p"
  using sound_inv [of h p] by (simp add: stores_def pool_inv_def owners_ok_def)

definition stored_in :: "ConnectedPool \<Rightarrow> NlsType \<Rightarrow> ptr set" where
  "stored_in p t = {r. r \<noteq> NULL \<and> (\<exists>k i s. at p t k i = Some s \<and> request s = r)}"

lemma owned_slots:
  assumes st: "stores h p" and pp: "poolProcess t p = Some pp"
  shows "distinct (owned (slots k pp))" "\<forall>r\<in>set (owned (slots k pp)). alive h r"
    "set (owned (slots Prestarted pp)) \<inter> set (owned (slots Preconnected pp)) = {}"
    "set (owned (slots Prestarted pp)) \<union> set (owned (slots Preconnected pp)) = stored_in p t"
proof -
  have mem0: "r \<in> set (owned ss) \<longleftrightarrow> r \<noteq> NULL \<and> (\<exists>i < length ss. request (ss ! i) = r)" for r ss
    by (induction ss) (auto simp: owned_def less_Suc_eq_0_disj)
  have mem: "r \<in> set (owned (slots k pp)) \<longleftrightarrow>
      r \<noteq> NULL \<and> (\<exists>i < length (slots k pp). at p t k i = Some (slots k pp ! i) \<and> request (slots k pp ! i) = r)" for r k
    unfolding mem0 using at_SomeI [OF pp] by auto
  have "inj_on (\<lambda>i. request (slots k pp ! i)) {i. i < length (slots k pp) \<and> request (slots k pp ! i) \<noteq> NULL}"
  proof (rule inj_onI)
    fix i j assume a: "i \<in> {i. i < length (slots k pp) \<and> request (slots k pp ! i) \<noteq> NULL}"
      "j \<in> {i. i < length (slots k pp) \<and> request (slots k pp ! i) \<noteq> NULL}"
      "request (slots k pp ! i) = request (slots k pp ! j)"
    then have "(t, k, i) = (t, k, j)"
      using st at_SomeI [OF pp, of i k] at_SomeI [OF pp, of j k] unfolding stores_def by blast
    then show "i = j" by simp
  qed
  then show "distinct (owned (slots k pp))" unfolding owned_def by (rule distinct_nonzero)
  have live: "\<And>t k i s. at p t k i = Some s \<Longrightarrow> request s \<noteq> NULL \<Longrightarrow> alive h (request s)"
    and once: "\<And>t k i s t' k' i' s'. at p t k i = Some s \<Longrightarrow> at p t' k' i' = Some s' \<Longrightarrow>
      request s \<noteq> NULL \<Longrightarrow> request s = request s' \<Longrightarrow> (t, k, i) = (t', k', i')"
    using st unfolding stores_def by (simp, metis)
  show "\<forall>r\<in>set (owned (slots k pp)). alive h r"
  proof
    fix r assume "r \<in> set (owned (slots k pp))"
    then obtain i where "r \<noteq> NULL" "at p t k i = Some (slots k pp ! i)" "request (slots k pp ! i) = r"
      using mem by auto
    then show "alive h r" using live [of t k i "slots k pp ! i"] by simp
  qed
  show "set (owned (slots Prestarted pp)) \<inter> set (owned (slots Preconnected pp)) = {}"
  proof (rule equals0I)
    fix r assume "r \<in> set (owned (slots Prestarted pp)) \<inter> set (owned (slots Preconnected pp))"
    then obtain i j where "r \<noteq> NULL" "at p t Prestarted i = Some (slots Prestarted pp ! i)"
      "request (slots Prestarted pp ! i) = r" "at p t Preconnected j = Some (slots Preconnected pp ! j)"
      "request (slots Preconnected pp ! j) = r"
      unfolding Int_iff mem by blast
    then have "(t, Prestarted, i) = (t, Preconnected, j)"
      using once [of t Prestarted i "prestartedRequests pp ! i" t Preconnected j "preconnectedRequests pp ! j"]
      by simp
    then show False by simp
  qed
  show "set (owned (slots Prestarted pp)) \<union> set (owned (slots Preconnected pp)) = stored_in p t"
  proof (intro equalityI subsetI)
    fix r assume "r \<in> stored_in p t"
    then obtain k i s where s: "r \<noteq> NULL" "at p t k i = Some s" "request s = r" by (auto simp: stored_in_def)
    then have "r \<in> set (owned (slots k pp))" using mem pp at_SomeD [OF s(2)] by auto
    then show "r \<in> set (owned (slots Prestarted pp)) \<union> set (owned (slots Preconnected pp))" by (cases k) auto
  next
    fix r assume "r \<in> set (owned (slots Prestarted pp)) \<union> set (owned (slots Preconnected pp))"
    then show "r \<in> stored_in p t" unfolding Un_iff mem stored_in_def by blast
  qed
qed

definition dropped :: "ConnectedPool \<Rightarrow> NlsType \<Rightarrow> ptr set" where
  "dropped p t = {r \<in> stored_in p t. worked p t}"

lemma destroy_type_ok:
  assumes st: "stores h p"
  shows "\<exists>h' p'. destroy_type t h p = Some (h', p') \<and> stores h' p' \<and>
    (\<forall>r. node_of h' r = (if r \<in> dropped p t then None else node_of h r)) \<and>
    (\<forall>t'. t' \<noteq> t \<longrightarrow> poolProcess t' p' = poolProcess t' p)"
proof (cases "worked p t")
  case False
  then show ?thesis using st by (auto simp: destroy_type_def dropped_def worked_def split: option.splits)
next
  case True
  then obtain pp where pp: "poolProcess t p = Some pp" "work pp" by (auto simp: worked_def)
  note own = owned_slots [OF st pp(1)]
  have ok: "heap_ok h" using st by (simp add: stores_def)
  obtain h1 where h1: "deletePreNode h (prestartedRequests pp) = Some h1" "heap_ok h1"
    "\<And>r. node_of h1 r = (if r \<in> set (owned (prestartedRequests pp)) then None else node_of h r)"
    using deletePreNode_ok [OF ok own(2,1) [of Prestarted]] by auto
  have "\<forall>r\<in>set (owned (preconnectedRequests pp)). alive h1 r"
    using own(2) [of Preconnected] own(3) h1(3) by (auto simp: alive_def)
  then obtain h2 where h2: "deletePreNode h1 (preconnectedRequests pp) = Some h2" "heap_ok h2"
    "\<And>r. node_of h2 r = (if r \<in> set (owned (preconnectedRequests pp)) then None else node_of h1 r)"
    using deletePreNode_ok [OF h1(2), of "preconnectedRequests pp"] own(1) [of Preconnected] by auto
  let ?p' = "set_poolProcess t (pp\<lparr>prestartedRequests := [], preconnectedRequests := []\<rparr>) p"
  have node: "node_of h2 r = (if r \<in> dropped p t then None else node_of h r)" for r
    using own(4) h1(3) h2(3) True by (auto simp: dropped_def)
  have at': "at ?p' t' k i = (if t' = t then None else at p t' k i)" for t' k i
    using pp(1) by (cases k) (auto simp: at_def)
  have "stores h2 ?p'"
    unfolding stores_def
  proof (intro conjI allI impI)
    fix t' k i s assume s: "at ?p' t' k i = Some s" "request s \<noteq> NULL"
    then have s': "at p t' k i = Some s" "t' \<noteq> t" using at' by (auto split: if_splits)
    then have "alive h (request s)" using st s(2) unfolding stores_def by metis
    moreover have "request s \<notin> dropped p t"
    proof
      assume "request s \<in> dropped p t"
      then obtain k' i' u where "at p t k' i' = Some u" "request u = request s"
        by (auto simp: dropped_def stored_in_def split: if_splits)
      then show False using st s' s(2) unfolding stores_def by (metis prod.inject)
    qed
    ultimately show "alive h2 (request s)" using node by (simp add: alive_def)
  next
    fix t' k i s t'' k' i' s'
    assume "at ?p' t' k i = Some s" "at ?p' t'' k' i' = Some s'" "request s \<noteq> NULL" "request s = request s'"
    then show "(t', k, i) = (t'', k', i')" using st at' unfolding stores_def by (auto split: if_splits)
  qed (rule h2(2))
  then show ?thesis using pp h1(1) h2(1) node by (auto simp: destroy_type_def)
qed

lemma dropped_cong: "poolProcess t p' = poolProcess t p \<Longrightarrow> dropped p' t = dropped p t"
proof -
  assume a: "poolProcess t p' = poolProcess t p"
  have "at p' t k i = at p t k i" for k i by (simp add: at_def a)
  then show "dropped p' t = dropped p t" by (simp only: dropped_def stored_in_def worked_def a)
qed

lemma dropped_other: "poolProcess t p = None \<Longrightarrow> dropped p t = {}"
  by (simp add: dropped_def worked_def)

lemma destroy_ok:
  assumes "stores h p"
  shows "\<exists>h' p'. destroy_ConnectedPool h p = Some (h', p') \<and> heap_ok h' \<and>
    (\<forall>r. node_of h' r = (if \<exists>t. r \<in> dropped p t then None else node_of h r))"
proof -
  obtain h1 p1 where 1: "destroy_type TypeStreamInputTts h p = Some (h1, p1)" "stores h1 p1"
    "\<And>r. node_of h1 r = (if r \<in> dropped p TypeStreamInputTts then None else node_of h r)"
    "\<And>t. t \<noteq> TypeStreamInputTts \<Longrightarrow> dropped p1 t = dropped p t"
    using destroy_type_ok [OF assms, of TypeStreamInputTts] dropped_cong by metis
  obtain h2 p2 where 2: "destroy_type TypeAsr h1 p1 = Some (h2, p2)" "stores h2 p2"
    "\<And>r. node_of h2 r = (if r \<in> dropped p1 TypeAsr then None else node_of h1 r)"
    "\<And>t. t \<noteq> TypeAsr \<Longrightarrow> dropped p2 t = dropped p1 t"
    using destroy_type_ok [OF 1(2), of TypeAsr] dropped_cong by metis
  obtain h3 p3 where 3: "destroy_type TypeRealTime h2 p2 = Some (h3, p3)" "stores h3 p3"
    "\<And>r. node_of h3 r = (if r \<in> dropped p2 TypeRealTime then None else node_of h2 r)"
    "\<And>t. t \<noteq> TypeRealTime \<Longrightarrow> dropped p3 t = dropped p2 t"
    using destroy_type_ok [OF 2(2), of TypeRealTime] dropped_cong by metis
  obtain h4 p4 where 4: "destroy_type TypeTts h3 p3 = Some (h4, p4)" "stores h4 p4"
    "\<And>r. node_of h4 r = (if r \<in> dropped p3 TypeTts then None else node_of h3 r)"
    using destroy_type_ok [OF 3(2), of TypeTts] by metis
  have some: "(\<exists>t. r \<in> dropped p t) \<longleftrightarrow> r \<in> dropped p TypeStreamInputTts \<or> r \<in> dropped p TypeAsr \<or>
    r \<in> dropped p TypeRealTime \<or> r \<in> dropped p TypeTts" for r
  proof
    assume "\<exists>t. r \<in> dropped p t"
    then obtain t where "r \<in> dropped p t" by blast
    then show "r \<in> dropped p TypeStreamInputTts \<or> r \<in> dropped p TypeAsr \<or>
      r \<in> dropped p TypeRealTime \<or> r \<in> dropped p TypeTts" by (cases t) (simp_all add: dropped_other)
  qed blast
  have "node_of h4 r = (if \<exists>t. r \<in> dropped p t then None else node_of h r)" for r
    using 1(3,4) 2(3,4) 3(3,4) 4(3) unfolding some by simp
  then show ?thesis using 1(1) 2(1) 3(1) 4(1,2) by (auto simp: destroy_ConnectedPool_def stores_def)
qed



end
