(* ===== verification/PoolRuns.thy ===== *)
theory PoolRuns
  imports PoolContracts
begin

text \<open>
  Concrete runs of the connection pool that end in states the pool does not mean to reach. Each
  run is evaluated on the operations of the model; the requests \<open>11\<close>, \<open>21\<close> and \<open>51\<close> have
  equal parameters, so have \<open>31\<close> and \<open>61\<close>, and \<open>41\<close> has its own.
\<close>

text \<open>A pop that finds no match throws the front index away, so that an idle connection
further to the front is missed later. Two started connections wait in slots 0 and 1; after a
request with other parameters has asked in vain, the request that matches slot 0 gets nothing,
although the slot is idle and would have been handed out before.\<close>

theorem pop_loses_front_index:
  "do { s \<leftarrow> ex_store Prestarted TypeTts 11 (ex_start TypeTts 4);
        s \<leftarrow> ex_store Prestarted TypeTts 31 s;
        (unmatched, s') \<leftarrow> ex_pop TypeTts 41 s;
        (later, s') \<leftarrow> ex_pop TypeTts 21 s';
        (before, _) \<leftarrow> ex_pop TypeTts 21 s;
        Some (unmatched, later, before,
          map_option (\<lambda>s. (status s, canPick s, request s)) (at (snd s') TypeTts Prestarted 0)) } =
   Some (PreNodeInvalid, PreNodeInvalid, PreNodeStarted, Some (PreNodeStarted, True, 11))"
  by code_simp

definition ex_asr_run :: "NlsType \<Rightarrow> (ConnectedStatus \<times> heap \<times> ConnectedPool) option" where
  "ex_asr_run t = do {
     s \<leftarrow> ex_store Prestarted t 11 (ex_start t 6);
     s \<leftarrow> ex_store Prestarted t 21 s;
     s \<leftarrow> ex_store Prestarted t 51 s;
     s \<leftarrow> ex_store Preconnected t 31 s;
     ex_pop t 61 s }"

text \<open>For recognizer requests (TypeAsr) the pop of established connections works on the index
list of the started ones. With the same slots and the same requests a transcriber request gets
the established connection in slot 0, and a recognizer request gets nothing.\<close>

theorem asr_pop_uses_wrong_list:
  "map_option fst (ex_asr_run TypeRealTime) = Some PreNodeConnected \<and>
   map_option fst (ex_asr_run TypeAsr) = Some PreNodeInvalid"
  by code_simp

text \<open>A failed PING releases a connection that is being used. A request that was given a
connection keeps the SSL handle of the stored request; when the timer's PING fails, the slot is
marked although its user is set, and the release event deletes the stored request and the
handle, which the user's node still refers to.\<close>

theorem ping_failure_frees_used_handle:
  "do { s \<leftarrow> ex_store Preconnected TypeTts 11 (ex_start TypeTts 2);
        (got, h, p) \<leftarrow> ex_pop TypeTts 21 s;
        (n, p) \<leftarrow> connectPoolEventCallback h (\<lambda>_ _ _. 10) (\<lambda>_ _ _. 1) False p;
        (h', p) \<leftarrow> release_slot (ex_env 3) Preconnected TypeTts 0 h p;
        user \<leftarrow> node_of h' 21;
        Some (got, n, n_sslHandle user, ssls h (n_sslHandle user), ssls h' (n_sslHandle user)) } =
   Some (PreNodeConnected, 1, 13, True, False)"
  by code_simp

text \<open>After a promotion the user's node keeps the index of the old slot, and finishing searches
from it: a connection promoted from slot 1 to slot 0 is not found when it is given back, and its
slot can never be picked. From index 0 it would have been found.\<close>

theorem promotion_leaves_stale_index:
  "do { s \<leftarrow> ex_store Preconnected TypeTts 11 (ex_start TypeTts 6);
        s \<leftarrow> ex_store Preconnected TypeTts 31 s;
        (_, h, p) \<leftarrow> ex_pop TypeTts 61 s;
        (promoted, h, p) \<leftarrow> pushPrestartedNodeFromPreconnected 7 h p 61 TypeTts;
        user \<leftarrow> node_of h 61;
        p1 \<leftarrow> finishPushPreNode h p TypeTts (n_socketFd user) (n_sslHandle user) (n_poolIndex user);
        p2 \<leftarrow> finishPushPreNode h p TypeTts (n_socketFd user) (n_sslHandle user) 0;
        Some (promoted, n_poolIndex user, map_option canPick (at p1 TypeTts Prestarted 0),
          map_option canPick (at p2 TypeTts Prestarted 0)) } =
   Some (True, 1, Some False, Some True)"
  by code_simp

end
