(* ===== verification/PoolRefinement.thy ===== *)
theory PoolRefinement
  imports PoolContracts
begin

text \<open>
  What the pool is for, without slots and lists: a set of idle connections, named by the requests
  that own them, and a relation of connections in use. The steps of the pool implement the
  steps of this specification.
\<close>

section \<open>The specification\<close>

type_synonym spec_state = "ptr set \<times> (ptr \<times> ptr) set"

text \<open>A connection is taken from the idle ones and given back; both sets may lose members (a
connection times out, its owner is forgotten).\<close>

inductive spec_step :: "spec_state \<Rightarrow> spec_state \<Rightarrow> bool" where
  take: "r \<in> I \<Longrightarrow> spec_step (I, B) (I - {r}, insert (r, u) B)"
| give: "spec_step (I, B) (insert r I, B - {r} \<times> UNIV)"
| lose: "I' \<subseteq> I \<Longrightarrow> B' \<subseteq> B \<Longrightarrow> spec_step (I, B) (I', B')"

definition spec_ok :: "spec_state \<Rightarrow> bool" where
  "spec_ok S \<longleftrightarrow> (\<forall>r u. (r, u) \<in> snd S \<longrightarrow> r \<notin> fst S) \<and> single_valued (snd S)"

text \<open>In the specification a connection is idle or has one user.\<close>

lemma spec_step_ok:
  assumes "spec_ok S" "spec_step S S'"
  shows "spec_ok S'"
  using assms(2,1)
proof (induction rule: spec_step.induct)
  case (lose I' I B' B)
  then show ?case using single_valued_subset [of B' B] by (auto simp: spec_ok_def)
qed (auto simp: spec_ok_def single_valued_def)

interpretation spec: invariant_system "\<lambda>S. S = ({}, {})" spec_step spec_ok
  by unfold_locales (simp add: spec_ok_def, rule spec_step_ok)

section \<open>The abstraction\<close>

definition idle :: "ConnectedPool \<Rightarrow> ptr set" where
  "idle p = {r. \<exists>t k i s. at p t k i = Some s \<and> canPick s \<and> request s = r}"

definition busy :: "ConnectedPool \<Rightarrow> (ptr \<times> ptr) set" where
  "busy p = {(r, u). \<exists>t k i s. at p t k i = Some s \<and> status s = live k \<and> request s = r \<and>
    curRequest s = u \<and> u \<noteq> NULL}"

definition pool_abs :: "heap \<times> ConnectedPool \<Rightarrow> spec_state" where
  "pool_abs s = (idle (snd s), busy (snd s))"

lemma idleI: "at p t k i = Some s \<Longrightarrow> canPick s \<Longrightarrow> request s \<in> idle p"
  unfolding idle_def by blast

lemma busyI: "at p t k i = Some s \<Longrightarrow> status s = live k \<Longrightarrow> curRequest s \<noteq> NULL \<Longrightarrow> (request s, curRequest s) \<in> busy p"
  unfolding busy_def by blast

lemma idleE: "r \<in> idle p \<Longrightarrow> (\<And>t k i s. at p t k i = Some s \<Longrightarrow> canPick s \<Longrightarrow> request s = r \<Longrightarrow> P) \<Longrightarrow> P"
  unfolding idle_def by blast

lemma busyE: "(r, u) \<in> busy p \<Longrightarrow> (\<And>t k i s. at p t k i = Some s \<Longrightarrow> status s = live k \<Longrightarrow> request s = r \<Longrightarrow>
    curRequest s = u \<Longrightarrow> u \<noteq> NULL \<Longrightarrow> P) \<Longrightarrow> P"
  unfolding busy_def by blast

definition shrinks :: "ConnectedPool \<Rightarrow> ConnectedPool \<Rightarrow> bool" where
  "shrinks p p' \<longleftrightarrow> idle p' \<subseteq> idle p \<and> busy p' \<subseteq> busy p"

lemma shrinks_refl [simp]: "shrinks p p"
  by (simp add: shrinks_def)

lemma shrinks_trans: "shrinks p q \<Longrightarrow> shrinks q r \<Longrightarrow> shrinks p r"
  by (auto simp: shrinks_def)

lemma shrinks_step: "shrinks p p' \<Longrightarrow> spec_step (pool_abs (h, p)) (pool_abs (h', p'))"
  by (simp add: shrinks_def pool_abs_def spec_step.lose)

text \<open>No slot of \<open>p'\<close> is more available or more used than one of \<open>p\<close>.\<close>

definition tamer :: "kind \<Rightarrow> ConnectedNodeProcess \<Rightarrow> ConnectedNodeProcess \<Rightarrow> bool" where
  "tamer k s s' \<longleftrightarrow> (canPick s' \<longrightarrow> canPick s \<and> request s' = request s) \<and>
    (status s' = live k \<longrightarrow> curRequest s' \<noteq> NULL \<longrightarrow>
      status s = live k \<and> request s' = request s \<and> curRequest s' = curRequest s)"

lemma tamer_refl [simp]: "tamer k s s"
  by (simp add: tamer_def)

lemma shrinksI:
  assumes "\<And>t k i s'. at p' t k i = Some s' \<Longrightarrow> (\<exists>s. at p t k i = Some s \<and> tamer k s s') \<or>
    \<not> canPick s' \<and> (status s' \<noteq> live k \<or> curRequest s' = NULL)"
  shows "shrinks p p'"
  unfolding shrinks_def
proof (intro conjI subsetI)
  fix r assume "r \<in> idle p'"
  then obtain t k i s' where s': "at p' t k i = Some s'" "canPick s'" "request s' = r" by (rule idleE)
  then obtain s where "at p t k i = Some s" "tamer k s s'" using assms [of t k i s'] by auto
  then show "r \<in> idle p" using s' idleI [of p t k i s] by (simp add: tamer_def)
next
  fix x assume "x \<in> busy p'"
  then obtain r u where x: "x = (r, u)" "(r, u) \<in> busy p'" by (cases x) simp
  from x(2) obtain t k i s' where s': "at p' t k i = Some s'" "status s' = live k" "request s' = r"
    "curRequest s' = u" "u \<noteq> NULL" by (rule busyE)
  then obtain s where "at p t k i = Some s" "tamer k s s'" using assms [of t k i s'] by auto
  then show "x \<in> busy p" using s' x busyI [of p t k i s] by (simp add: tamer_def)
qed

lemma shrinks_changed:
  assumes "changed p p' t k i s'" "at p t k i = Some s"
    "tamer k s s' \<or> \<not> canPick s' \<and> (status s' \<noteq> live k \<or> curRequest s' = NULL)"
  shows "shrinks p p'"
proof (rule shrinksI)
  fix t' k' j x assume "at p' t' k' j = Some x"
  then show "(\<exists>y. at p t' k' j = Some y \<and> tamer k' y x) \<or>
      \<not> canPick x \<and> (status x \<noteq> live k' \<or> curRequest x = NULL)"
    using assms by (auto simp: changed_def split: if_splits)
qed

lemma shrinks_upd:
  assumes pp: "poolProcess t p = Some pp" "i < length (slots k pp)"
    and pp': "slots k pp' = (slots k pp)[i := s]" "\<And>k'. k' \<noteq> k \<Longrightarrow> slots k' pp' = slots k' pp"
    and s: "tamer k (slots k pp ! i) s \<or> \<not> canPick s \<and> (status s \<noteq> live k \<or> curRequest s = NULL)"
  shows "shrinks p (set_poolProcess t pp' p)"
  by (rule shrinks_changed [OF changedI [OF pp(1) pp' pp(2)] at_SomeI [OF pp] s])

lemma shrinks_same: "at p' = at p \<Longrightarrow> shrinks p p'"
  by (rule shrinksI) auto

section \<open>The operations\<close>

lemma shrinks_clear:
  "poolProcess t p = Some pp \<Longrightarrow> i < length (slots k pp) \<Longrightarrow>
    shrinks p (set_poolProcess t (upd_slot k i clearNode pp) p)"
  by (rule shrinks_upd [where k = k and i = i]) (auto simp: clearNode_def)

lemma shrinks_only_new: "only_new t p p' \<Longrightarrow> shrinks p p'"
proof (rule shrinksI)
  fix t' k i s' assume "only_new t p p'" "at p' t' k i = Some s'"
  then have "at p t' k i = Some s' \<or> s' = new_slot t" unfolding only_new_def by blast
  then show "(\<exists>s. at p t' k i = Some s \<and> tamer k s s') \<or> \<not> canPick s' \<and> (status s' \<noteq> live k \<or> curRequest s' = NULL)"
    by (auto simp: new_slot_def)
qed

lemma shrinks_ensure: "shrinks p (ensure_pool t p)"
  by (simp add: ensure_pool_def shrinks_only_new [OF only_new_init] split: prod.split)

lemma shrinks_curRequestIsAbnormal:
  assumes "curRequestIsAbnormal h p req t = Some p'"
  shows "shrinks p p'"
proof -
  have "shrinks p (set_poolProcess t (mark_abnormal k i pp) p)" if "find_live k t P p = Some (pp, i)"
    for k P pp i
    using find_live_SomeD [OF that]
    by (intro shrinks_upd [where k = k and i = i]) (auto simp: mark_abnormal_def tamer_def)
  then show ?thesis
    using assms by (auto simp: curRequestIsAbnormal_def Let_def split: bind_splits option.splits)
qed

lemma shrinks_deletePreNodeByRequest:
  "deletePreNodeByRequest h p req t = Some (r, p') \<Longrightarrow> shrinks p p'"
  by (auto simp: deletePreNodeByRequest_def split: bind_splits option.splits
      dest!: match_request_SomeD intro: shrinks_clear)

lemma shrinks_delete_slot:
  "poolProcess t p = Some pp \<Longrightarrow> i < length (slots k pp) \<Longrightarrow> delete_slot k h p t pp i = Some (h', p') \<Longrightarrow>
    shrinks p p'"
  by (auto simp: delete_slot_def Let_def split: bind_splits intro: shrinks_clear)

lemma shrinks_deletePreNodeBySSL:
  "deletePreNodeBySSL h p ssl t = Some (r, h', p') \<Longrightarrow> shrinks p p'"
  by (auto simp: deletePreNodeBySSL_def split: option.splits bind_splits
      dest!: find_live_SomeD intro: shrinks_delete_slot)

lemma shrinks_push:
  assumes inv: "pool_inv h p" and push: "push_node k now h p r t new = Some (b, h', p')"
  shows "shrinks p p'"
proof (cases "r = NULL \<or> poolProcess t (ensure_pool t p) = None")
  case True
  then show ?thesis using push shrinks_ensure [of p t]
    by (auto simp: push_node_def Let_def split: if_splits bind_splits)
next
  case False
  then obtain pp where pp: "poolProcess t (ensure_pool t p) = Some pp" and req: "r \<noteq> NULL" by auto
  from push req pp obtain n ex where n: "node_of h r = Some n"
    "(if new then Some False else existing_slot h k pp n) = Some ex"
    by (auto simp: push_node_def Let_def split: bind_splits)
  have "shrinks (ensure_pool t p) p'"
  proof (cases ex)
    case True
    have "length (slots k pp) = maxPreconnectedNumber (ensure_pool t p)"
      using ensure_pool_length [OF inv pp] by simp
    from existing_slot_ex [OF inv_ensure [OF inv] pp this n(1)] n(2) True
    have "nat (n_poolIndex n) < length (slots k pp)" by (auto split: if_splits)
    then show ?thesis
      using push req pp n True
      by (auto simp: push_node_def Let_def refresh_slot_def tamer_def intro!: shrinks_upd [OF pp])
  next
    case False
    then have "store_new k now h (ensure_pool t p) r t pp n = Some (b, h', p')"
      using push req pp n by (auto simp: push_node_def Let_def)
    then show ?thesis using pp
      by (auto simp: store_new_def fill_slot_def split: option.splits bind_splits
          intro!: shrinks_upd [OF pp, where k = k])
  qed
  then show ?thesis by (rule shrinks_trans [OF shrinks_ensure])
qed

lemma shrinks_move:
  assumes "pushPrestartedNodeFromPreconnected now h p req t = Some (r, h', p')"
  shows "shrinks p p'"
proof -
  have "shrinks p (set_poolProcess t (upd_slot Preconnected i clearNode pp') p)"
    if pp: "poolProcess t p = Some pp" and i: "i < length (preconnectedRequests pp)"
      and m: "move_to_prestarted now h pp q n x on = Some (r, h', pp')"
    for pp i q n x "on" r h' pp'
  proof (cases "first_index free_slot (prestartedRequests pp)")
    case None
    then show ?thesis using m pp i shrinks_clear [OF pp, of i Preconnected] by (simp add: move_to_prestarted_def)
  next
    case (Some j)
    let ?p1 = "set_poolProcess t (upd_slot Preconnected i clearNode pp) p"
    from m Some obtain prm oprm where
      pp': "pp' = (upd_slot Prestarted j (move_slot now n prm x on oprm) pp)\<lparr>work := True\<rparr>"
      by (auto simp: move_to_prestarted_def split: bind_splits)
    have j: "j < length (slots Prestarted pp)" using first_index_less [OF Some] by simp
    let ?pp2 = "upd_slot Preconnected i clearNode pp'"
    have "shrinks ?p1 (set_poolProcess t ?pp2 ?p1)"
      by (rule shrinks_upd [where k = Prestarted and i = j and pp = "upd_slot Preconnected i clearNode pp"
            and s = "move_slot now n prm x on oprm (slots Prestarted pp ! j)"])
        (use pp j in \<open>simp_all add: pp' move_slot_def\<close>)
    moreover have "set_poolProcess t ?pp2 ?p1 = set_poolProcess t ?pp2 p" by (cases t) simp_all
    moreover have "shrinks p ?p1" by (rule shrinks_clear [OF pp]) (use i in simp)
    ultimately show ?thesis using shrinks_trans by metis
  qed
  then show ?thesis
    using assms by (auto simp: pushPrestartedNodeFromPreconnected_def slot_at_def
        split: if_splits option.splits bind_splits)
qed

lemma shrinks_timed:
  assumes "pool_inv h p" "timed h p now ping p' X"
  shows "shrinks p p'"
proof (rule shrinksI)
  fix t k i s' assume "at p' t k i = Some s'"
  from timed_at [OF assms this] show "(\<exists>s. at p t k i = Some s \<and> tamer k s s') \<or>
      \<not> canPick s' \<and> (status s' \<noteq> live k \<or> curRequest s' = NULL)"
    by (auto simp: expired_def tamer_def)
qed

section \<open>Taking and giving\<close>

text \<open>The owner of a slot names the slot.\<close>

lemma owner_unique:
  assumes "pool_inv h p" "at p t k i = Some s" "at p t' k' i' = Some s'" "request s = request s'" "request s \<noteq> NULL"
  shows "(t', k', i') = (t, k, i)"
proof -
  have "owners_ok h p" using assms(1) by (simp add: pool_inv_def)
  from owners_okD(2) [OF this assms(2,3,4,5)] show ?thesis by simp
qed

lemma spec_pop:
  assumes inv: "pool_inv h p" and picks: "picks h p h' p' req t k" and req: "req \<noteq> NULL"
  shows "spec_step (pool_abs (h, p)) (pool_abs (h', p'))"
proof -
  obtain i s where s: "at p t k i = Some s" "status s = live k" "canPick s" "curRequest s = NULL"
    and ch: "changed p p' t k i (occupy req s)" using picks unfolding picks_def by blast
  have r: "request s \<noteq> NULL" using inv_slot [OF inv s(1)] s(2) by (simp add: slot_ok_def)
  note uniq = owner_unique [OF inv s(1) _ _ r]
  have at': "at p' t k i = Some (occupy req s)" using ch by (simp add: changed_def)
  have other: "at p' t' k' j = at p t' k' j" if "(t', k', j) \<noteq> (t, k, i)" for t' k' j
    using ch that by (auto simp: changed_def)
  have "idle p' = idle p - {request s}"
  proof (intro equalityI subsetI)
    fix r assume "r \<in> idle p'"
    then obtain t' k' j x where x: "at p' t' k' j = Some x" "canPick x" "request x = r" by (rule idleE)
    have pos: "(t', k', j) \<noteq> (t, k, i)" using x at' by (auto simp: occupy_def)
    then have "at p t' k' j = Some x" using x(1) other by simp
    then show "r \<in> idle p - {request s}" using x idleI uniq pos by fastforce
  next
    fix r assume "r \<in> idle p - {request s}"
    then obtain t' k' j x where x: "at p t' k' j = Some x" "canPick x" "request x = r" "r \<noteq> request s"
      by (auto elim: idleE)
    then have "(t', k', j) \<noteq> (t, k, i)" using s(1) by auto
    then show "r \<in> idle p'" using x other idleI [of p' t' k' j x] by simp
  qed
  moreover have "busy p' = insert (request s, req) (busy p)"
  proof (intro equalityI subsetI)
    fix y assume "y \<in> busy p'"
    then obtain a u where y: "y = (a, u)" "(a, u) \<in> busy p'" by (cases y) simp
    from y(2) obtain t' k' j x where x: "at p' t' k' j = Some x" "status x = live k'" "request x = a"
      "curRequest x = u" "u \<noteq> NULL" by (rule busyE)
    show "y \<in> insert (request s, req) (busy p)"
    proof (cases "(t', k', j) = (t, k, i)")
      case True
      then show ?thesis using x y at' by (auto simp: occupy_def)
    next
      case False
      then show ?thesis using x y other busyI [of p t' k' j x] by simp
    qed
  next
    fix y assume "y \<in> insert (request s, req) (busy p)"
    then consider "y = (request s, req)" | "y \<in> busy p" by blast
    then show "y \<in> busy p'"
    proof cases
      case 1
      then show ?thesis using busyI [OF at'] s(2) req by (simp add: occupy_def)
    next
      case 2
      then obtain a u where y: "y = (a, u)" "(a, u) \<in> busy p" by (cases y) simp
      from y(2) obtain t' k' j x where x: "at p t' k' j = Some x" "status x = live k'" "request x = a"
        "curRequest x = u" "u \<noteq> NULL" by (rule busyE)
      then have "(t', k', j) \<noteq> (t, k, i)" using s(1,4) by auto
      then show ?thesis using x y other busyI [of p' t' k' j x] by simp
    qed
  qed
  ultimately show ?thesis
    using spec_step.take [OF idleI [OF s(1,3)], of "busy p" req] by (simp add: pool_abs_def)
qed

lemma spec_make_pickable:
  assumes inv: "pool_inv h p" and pp: "poolProcess t p = Some pp" "i < length (slots k pp)"
    and live: "status (slots k pp ! i) = live k"
  shows "spec_step (pool_abs (h, p)) (pool_abs (h, set_poolProcess t (make_pickable k i pp) p))"
proof -
  let ?s = "slots k pp ! i" and ?p' = "set_poolProcess t (make_pickable k i pp) p"
  let ?s' = "?s\<lparr>canPick := True, curRequest := NULL, curRequestInvalid := False\<rparr>"
  have at: "at p t k i = Some ?s" by (rule at_SomeI [OF pp])
  have r: "request ?s \<noteq> NULL" using inv_slot [OF inv at] live by (simp add: slot_ok_def)
  note uniq = owner_unique [OF inv at _ _ r]
  have ch: "changed p ?p' t k i ?s'"
    by (rule changedI [OF pp(1) _ _ pp(2)]) (simp_all add: make_pickable_def)
  have at': "at ?p' t k i = Some ?s'" using ch by (simp add: changed_def)
  have other: "at ?p' t' k' j = at p t' k' j" if "(t', k', j) \<noteq> (t, k, i)" for t' k' j
    using ch that by (auto simp: changed_def)
  have "idle ?p' = insert (request ?s) (idle p)"
  proof (intro equalityI subsetI)
    fix a assume "a \<in> idle ?p'"
    then obtain t' k' j x where x: "at ?p' t' k' j = Some x" "canPick x" "request x = a" by (rule idleE)
    show "a \<in> insert (request ?s) (idle p)"
    proof (cases "(t', k', j) = (t, k, i)")
      case True
      then show ?thesis using x at' by auto
    next
      case False
      then show ?thesis using x other idleI [of p t' k' j x] by simp
    qed
  next
    fix a assume "a \<in> insert (request ?s) (idle p)"
    then consider "a = request ?s" | "a \<in> idle p" "a \<noteq> request ?s" by blast
    then show "a \<in> idle ?p'"
    proof cases
      case 1
      then show ?thesis using idleI [OF at'] by simp
    next
      case 2
      from 2(1) obtain t' k' j x where x: "at p t' k' j = Some x" "canPick x" "request x = a" by (rule idleE)
      then have "(t', k', j) \<noteq> (t, k, i)" using at 2(2) by auto
      then show ?thesis using x other idleI [of ?p' t' k' j x] by simp
    qed
  qed
  moreover have "busy ?p' = busy p - {request ?s} \<times> UNIV"
  proof (intro equalityI subsetI)
    fix y assume "y \<in> busy ?p'"
    then obtain a u where y: "y = (a, u)" "(a, u) \<in> busy ?p'" by (cases y) simp
    from y(2) obtain t' k' j x where x: "at ?p' t' k' j = Some x" "status x = live k'" "request x = a"
      "curRequest x = u" "u \<noteq> NULL" by (rule busyE)
    have pos: "(t', k', j) \<noteq> (t, k, i)" using x at' by auto
    then have "at p t' k' j = Some x" using x(1) other by simp
    then show "y \<in> busy p - {request ?s} \<times> UNIV" using x y pos uniq busyI [of p t' k' j x] by auto
  next
    fix y assume a: "y \<in> busy p - {request ?s} \<times> UNIV"
    then obtain a u where y: "y = (a, u)" "(a, u) \<in> busy p" "a \<noteq> request ?s" by (cases y) auto
    from y(2) obtain t' k' j x where x: "at p t' k' j = Some x" "status x = live k'" "request x = a"
      "curRequest x = u" "u \<noteq> NULL" by (rule busyE)
    then have "(t', k', j) \<noteq> (t, k, i)" using at y(3) by auto
    then show "y \<in> busy ?p'" using x y other busyI [of ?p' t' k' j x] by simp
  qed
  ultimately show ?thesis by (simp add: pool_abs_def spec_step.give)
qed

lemma spec_finish:
  assumes inv: "pool_inv h p" and fin: "finishPushPreNode h p t fd ssl index = Some p'"
  shows "spec_step\<^sup>*\<^sup>* (pool_abs (h, p)) (pool_abs (h', p'))"
proof -
  have abs: "pool_abs (h', p') = pool_abs (h, p')" by (simp add: pool_abs_def)
  consider "p' = p" | k where "\<exists>start. finish_kind k h p t fd ssl start = Some (Some p')"
    using fin by (auto simp: finishPushPreNode_def Let_def split: bind_splits option.splits)
  then show ?thesis
  proof cases
    case (2 k)
    then obtain start where "finish_kind k h p t fd ssl start = Some (Some p')" by blast
    from finish_kind_SomeD [OF this] obtain pp i where
      "poolProcess t p = Some pp" "i < length (slots k pp)" "status (slots k pp ! i) = live k"
      "p' = set_poolProcess t (make_pickable k i pp) p" by metis
    then show ?thesis unfolding abs using spec_make_pickable [OF inv] by blast
  qed (simp add: pool_abs_def)
qed

section \<open>The release event\<close>

abbreviation spec_run :: "heap \<Rightarrow> ConnectedPool \<Rightarrow> heap \<Rightarrow> ConnectedPool \<Rightarrow> bool" where
  "spec_run h p h' p' \<equiv> spec_step\<^sup>*\<^sup>* (pool_abs (h, p)) (pool_abs (h', p'))"

lemma run_shrinks: "shrinks p p' \<Longrightarrow> spec_run h p h' p'"
  by (rule r_into_rtranclp) (rule shrinks_step)

lemma run_heap: "spec_run h p h' p' \<longleftrightarrow> spec_run h2 p h3 p'"
  by (simp add: pool_abs_def)

lemma spec_push_linked:
  assumes sound: "sound h p" and r: "node_of h r = Some n" "owns n" "r \<notin> users p" "r \<notin> requests p"
    and push: "push_linked now h p r t = Some (h', p')"
  shows "spec_run h p h' p'"
proof -
  from push obtain b h1 p1 m where st: "push_node Preconnected now h p r t True = Some (b, h1, p1)"
    and m: "node_of h1 r = Some m"
    and rest: "if b then (\<exists>p2. finishPushPreNode h1 p1 t (n_socketFd m) (n_sslHandle m) (n_poolIndex m) = Some p2 \<and>
        h' = h1 \<and> p' = p2) else (\<exists>c. deletePreNodeBySSL h1 p1 (n_sslHandle m) t = Some (c, h', p'))"
    by (auto simp: push_linked_def pushPreconnectedNode_def split: bind_splits if_splits)
  have sound1: "sound h1 p1" by (rule sound_store [OF sound r(4,3,1,2) st])
  have run1: "spec_run h p h1 p1" by (rule run_shrinks [OF shrinks_push [OF sound_inv [OF sound] st]])
  have "spec_run h1 p1 h' p'"
  proof (cases b)
    case True
    then show ?thesis using rest spec_finish [OF sound_inv [OF sound1]] by auto
  next
    case False
    then show ?thesis using rest shrinks_deletePreNodeBySSL by (auto intro: run_shrinks)
  qed
  with run1 show ?thesis by (rule rtranclp_trans)
qed

lemma spec_preconnect:
  assumes sound: "sound h p" and req: "req = NULL \<or> alive h req" and e: "env_ok e h p"
    and pre: "preconnectNodeByRequest e h p req = Some (h', p')"
  shows "spec_run h p h' p'"
proof (cases "p' = p")
  case True
  then show ?thesis by (simp add: pool_abs_def)
next
  case changed: False
  have req0: "req \<noteq> NULL" using pre changed by (cases "req = NULL") (simp_all add: preconnectNodeByRequest_def)
  then obtain node where node: "node_of h req = Some node" using req by (auto simp: alive_def)
  then obtain prm where prm: "getRequestParam h req = Some prm" using node_param by blast
  have e0: "e_request e \<noteq> NULL" using pre changed req0 node prm
    by (cases "e_request e = NULL") (simp_all add: preconnectNodeByRequest_def Let_def)
  let ?r = "e_request e" and ?t = "p_mode (p_conn prm)"
  let ?h1 = "create_request e h ?t (p_sdkName (p_conn prm)) (p_version prm) (n_isLongConnection node)"
  have sound1: "sound ?h1 p" by (rule sound_create [OF sound e e0])
  have ok: "heap_ok h" using sound_inv [OF sound] by (simp add: pool_inv_def)
  note nodes = create_request_ok(2) [OF ok e e0]
  have rel: "e_release e h2 p r = map_option (\<lambda>h3. (h3, p)) (delete_request h2 r)" for h2 r
    using e e0 by (simp add: env_ok_def)
  from pre req0 node prm e0 changed rel obtain np op h2 h3 where
    "getRequestParam ?h1 ?r = Some np" "set_param ?h1 ?r (param_assign np op) = Some h2"
    and h3: "update_node h2 ?r (\<lambda>n. n\<lparr>n_socketFd := e_socketFd e, n_url := e_url e\<rparr>) = Some h3"
    and push: "push_linked (e_now e) h3 p ?r ?t = Some (h', p')"
    by (auto simp: preconnectNodeByRequest_def Let_def split: if_splits bind_splits)
  note h2 = this(2)
  have al1: "alive ?h1 ?r" using nodes by (simp add: alive_def)
  have ok1: "heap_ok ?h1" using sound_inv [OF sound1] by (simp add: pool_inv_def)
  obtain h2' where "set_param ?h1 ?r (param_assign np op) = Some h2'" "heap_ok h2'" "node_of h2' = node_of ?h1"
    using set_param_ok [OF ok1 al1] by blast
  then have h2ok: "heap_ok h2" "node_of h2 = node_of ?h1" using h2 by simp_all
  let ?f = "\<lambda>n. n\<lparr>n_socketFd := e_socketFd e, n_url := e_url e\<rparr>"
  obtain m where m: "node_of h2 ?r = Some m" "owns m" "n_poolIndex m = -1"
    using nodes h2ok(2) e e0 by (simp add: owns_def env_ok_def)
  obtain h3' where h3': "update_node h2 ?r ?f = Some h3'" "heap_ok h3'"
    "\<And>r'. node_of h3' r' = (if r' = ?r then Some (?f m) else node_of h2 r')"
    by (rule update_node_ok [OF h2ok(1) m(1), of ?f]) (auto simp: owns_def)
  have h3eq: "h3' = h3" using h3 h3'(1) by simp
  have fresh: "node_of h ?r = None" "?r \<notin> users p" using e e0 by (simp_all add: env_ok_def node_of_def)
  have notin: "?r \<notin> requests p"
  proof
    assume "?r \<in> requests p"
    then obtain t k i s where "at p t k i = Some s" "request s = ?r" unfolding requests_def by blast
    then show False using slot_node [OF sound_inv [OF sound]] e0 fresh(1) by fastforce
  qed
  have "safe h3 p"
  proof (rule safe_more [OF sound_safe [OF sound] _ fresh(1)])
    show "heap_ok h3" using h3'(2) h3eq by simp
    show "node_of h3 r' = (if r' = ?r then Some (?f m) else node_of h r')" for r'
      using h3'(3) h2ok(2) nodes h3eq by simp
  qed (use m(3) in simp)
  then have sound3: "sound h3 p" using sound by (simp add: sound_def)
  have "node_of h3 ?r = Some (?f m)" "owns (?f m)" using h3'(3) h3eq m(2) by (simp_all add: owns_def)
  from spec_push_linked [OF sound3 this fresh(2) notin push] show ?thesis using run_heap by blast
qed

lemma spec_release_slot:
  assumes sound: "sound h p" and pp: "poolProcess t p = Some pp" "i < length (slots k pp)"
    and e: "env_ok e h p" and rel: "release_slot e k t i h p = Some (h', p')"
  shows "spec_run h p h' p'"
proof (cases "shouldRelease (slots k pp ! i)")
  case False
  then show ?thesis using pp rel by (simp add: release_slot_def Let_def)
next
  case True
  let ?s = "slots k pp ! i"
  have slot: "slot_ok k ?s" by (rule inv_slot [OF sound_inv [OF sound] at_SomeI [OF pp]])
  let ?p1 = "\<lambda>f. set_poolProcess t (upd_slot k i f pp) p"
  have tame: "shrinks p (?p1 f)" if "f = (\<lambda>s. s\<lparr>shouldRelease := False, shouldPreconnect := False\<rparr>) \<or>
      f = (\<lambda>s. s\<lparr>shouldRelease := False\<rparr>)" for f
    by (rule shrinks_upd [OF pp]) (use that in \<open>auto simp: tamer_def\<close>)
  from rel True pp obtain h1 p1 pp1 where
    mid: "(if shouldPreconnect ?s then preconnectNodeByRequest e h
        (?p1 (\<lambda>s. s\<lparr>shouldRelease := False, shouldPreconnect := False\<rparr>)) (request ?s)
      else Some (h, ?p1 (\<lambda>s. s\<lparr>shouldRelease := False\<rparr>))) = Some (h1, p1)"
    and pp1: "poolProcess t p1 = Some pp1" and p': "p' = set_poolProcess t (upd_slot k i clearNode pp1) p1"
    by (auto simp: release_slot_def Let_def split: bind_splits if_splits)
  have run1: "spec_run h p h1 p1 \<and> (\<exists>R. within R {} p p1)"
  proof (cases "shouldPreconnect ?s")
    case False
    then show ?thesis using mid tame sound_unmark [OF sound pp, of "\<lambda>s. s\<lparr>shouldRelease := False\<rparr>"]
      by (auto intro: run_shrinks)
  next
    case pre: True
    let ?f = "\<lambda>s. s\<lparr>shouldRelease := False, shouldPreconnect := False\<rparr>"
    have 1: "sound h (?p1 ?f)" "within {} {} p (?p1 ?f)" "users (?p1 ?f) \<subseteq> users p"
      using sound_unmark [OF sound pp, of ?f] by blast+
    have al: "request ?s = NULL \<or> alive h (request ?s)"
      using slot_node [OF sound_inv [OF sound] at_SomeI [OF pp]] by (auto simp: alive_def)
    have e1: "env_ok e h (?p1 ?f)" using e 1(3) unfolding env_ok_def by blast
    have m: "preconnectNodeByRequest e h (?p1 ?f) (request ?s) = Some (h1, p1)" using mid pre by simp
    have "spec_run h p h (?p1 ?f)" by (rule run_shrinks [OF tame]) simp
    moreover have "spec_run h (?p1 ?f) h1 p1" by (rule spec_preconnect [OF 1(1) al e1 m])
    moreover obtain R where "within R {} (?p1 ?f) p1" using sound_preconnect [OF 1(1) al e1] m by auto
    ultimately show ?thesis using within_trans0 [OF 1(2)] rtranclp_trans by metis
  qed
  then have "at p1 t k i \<noteq> None" using at_SomeI [OF pp] unfolding within_def by blast
  then have i1: "i < length (slots k pp1)" using pp1 by (auto simp: at_def split: if_splits)
  have "spec_run h1 p1 h' p'" unfolding p' by (rule run_shrinks [OF shrinks_clear [OF pp1 i1]])
  with run1 show ?thesis using rtranclp_trans by metis
qed

section \<open>The simulation\<close>

lemma pool_step_spec:
  assumes "pool_sound s" "pool_step s s'"
  shows "spec_step\<^sup>*\<^sup>* (pool_abs s) (pool_abs s')"
  using assms(2,1)
proof (induction rule: pool_step.induct)
  case (create e h p t sdk v long)
  then show ?case by (simp add: pool_abs_def)
next
  case (destroy r p h h')
  then show ?case by (simp add: pool_abs_def)
next
  case (mark h r use now h' p)
  then show ?case by (simp add: pool_abs_def)
next
  case (link r p h fd url h')
  then show ?case by (simp add: pool_abs_def)
next
  case (pop r p h n t st h' p')
  then have sound: "sound h p" by (simp add: pool_sound_def)
  have "\<not> stored p r" using pop(2) by (simp add: stored_requests)
  from tryToGet_ok [OF sound_safe [OF sound] pop(3,4) this pop(1), of t] pop(5)
  have "(\<exists>k. picks h p h' p' r t k) \<or> only_new t p p'" by auto
  then show ?case using spec_pop [OF sound_inv [OF sound] _ pop(1)] run_shrinks [OF shrinks_only_new] by blast
next
  case (store r p h n k now t newNode b h' p')
  then have "pool_inv h p" by (simp add: pool_sound_def sound_inv)
  from shrinks_push [OF this store(5)] show ?case by (rule run_shrinks)
next
  case (give_back r p h n t pp k now b h' p')
  then have "pool_inv h p" by (simp add: pool_sound_def sound_inv)
  from shrinks_push [OF this give_back(6)] show ?case by (rule run_shrinks)
next
  case (promote p t now h r b h' p')
  then show ?case using shrinks_move by (auto intro: run_shrinks)
next
  case (finish h p t fd ssl index p')
  then show ?case using spec_finish by (auto simp: pool_sound_def dest: sound_inv)
next
  case (abnormal h p r t p')
  then show ?case using shrinks_curRequestIsAbnormal by (auto intro: run_shrinks)
next
  case (forget h p r t b p')
  then show ?case using shrinks_deletePreNodeByRequest by (auto intro: run_shrinks)
next
  case (discard h p ssl t b h' p')
  then show ?case using shrinks_deletePreNodeBySSL by (auto intro: run_shrinks)
next
  case (timer h now ping c p m p')
  then have sound: "sound h p" by (simp add: pool_sound_def)
  show ?case
  proof (cases c)
    case True
    then show ?thesis using timer by (simp add: connectPoolEventCallback_def)
  next
    case False
    then show ?thesis using connectPoolEventCallback_timed [OF sound_safe [OF sound], of now ping] timer
        shrinks_timed [OF sound_inv [OF sound]] by (auto intro: run_shrinks)
  qed
next
  case (release p t k i e h h' p')
  then have sound: "sound h p" by (simp add: pool_sound_def)
  obtain pp where pp: "poolProcess t p = Some pp" "i < length (slots k pp)"
    using release(1) at_SomeD by fastforce
  show ?case by (rule spec_release_slot [OF sound pp release(2,3)])
qed

lemma abs_start: "pool_start s \<Longrightarrow> pool_abs s = ({}, {})"
proof -
  assume "pool_start s"
  then obtain m a b where s: "snd s = new_ConnectedPool m a b" by (auto simp: pool_start_def)
  then show ?thesis unfolding pool_abs_def idle_def busy_def s by simp
qed

lemma pool_run_spec:
  "pool_step\<^sup>*\<^sup>* s0 s \<Longrightarrow> pool_sound s0 \<Longrightarrow> spec_step\<^sup>*\<^sup>* (pool_abs s0) (pool_abs s)"
proof (induction rule: rtranclp_induct)
  case (step s s')
  have "spec_step\<^sup>*\<^sup>* (pool_abs s) (pool_abs s')"
    by (rule pool_step_spec [OF pool.run_inv [OF step(1,4)] step(2)])
  then show ?case using step by simp
qed simp





end
