(* ===== verification/NodeManager.thy ===== *)
theory NodeManager
  imports PoolTheorems
begin

text \<open>
  \<open>transport/nodeManager.cpp\<close>: the registry of requests. It maps every request to its node, the
  client instance that created it, the node's UUID and the last status reported, and every node
  back to its request. The two \<open>std::map\<close>s are Isabelle maps; note that \<open>insert\<close> of the C++ map
  does nothing when the key is there, and \<open>[]=\<close> overwrites. An operation dereferences the request
  or node it is given only where the code does; a dangling pointer makes it \<open>None\<close>. Each
  operation runs under the manager's mutex; only \<open>removeRequestFromInfo\<close> lets go of it, while
  it sleeps, and what the other threads do meanwhile is the parameter \<open>other\<close>. Log output is
  left out.
\<close>

section \<open>Node states\<close>

datatype NodeStatus =
    NodeStatusInvalid | NodeStatusCreated | NodeStatusInvoking | NodeStatusInvoked
    | NodeStatusConnecting | NodeStatusConnected | NodeStatusHandshaking | NodeStatusHandshaked
    | NodeStatusRunning | NodeStatusCancelling | NodeStatusClosing | NodeStatusClosed
    | NodeStatusReleasing | NodeStatusReleased

primrec node_status_code :: "NodeStatus \<Rightarrow> int" where
  "node_status_code NodeStatusInvalid = 0"
| "node_status_code NodeStatusCreated = 1"
| "node_status_code NodeStatusInvoking = 2"
| "node_status_code NodeStatusInvoked = 3"
| "node_status_code NodeStatusConnecting = 4"
| "node_status_code NodeStatusConnected = 5"
| "node_status_code NodeStatusHandshaking = 6"
| "node_status_code NodeStatusHandshaked = 7"
| "node_status_code NodeStatusRunning = 8"
| "node_status_code NodeStatusCancelling = 9"
| "node_status_code NodeStatusClosing = 10"
| "node_status_code NodeStatusClosed = 11"
| "node_status_code NodeStatusReleasing = 12"
| "node_status_code NodeStatusReleased = 13"

text \<open>The states are ordered as the enumeration is; the code compares them as numbers.\<close>

instantiation NodeStatus :: linorder
begin

definition less_eq_NodeStatus :: "NodeStatus \<Rightarrow> NodeStatus \<Rightarrow> bool" where
  "less_eq_NodeStatus s t \<longleftrightarrow> node_status_code s \<le> node_status_code t"

definition less_NodeStatus :: "NodeStatus \<Rightarrow> NodeStatus \<Rightarrow> bool" where
  "less_NodeStatus s t \<longleftrightarrow> node_status_code s < node_status_code t"

instance
proof
  fix s t :: NodeStatus
  assume "s \<le> t" "t \<le> s"
  then show "s = t" by (cases s; cases t) (simp_all add: less_eq_NodeStatus_def)
qed (auto simp: less_eq_NodeStatus_def less_NodeStatus_def)

end

lemma node_status_code_inject [simp]: "node_status_code s = node_status_code t \<longleftrightarrow> s = t"
  using antisym [of s t] by (auto simp: less_eq_NodeStatus_def)

text \<open>\<open>getNodeStatusString\<close> has no case for \<open>NodeStatusReleasing\<close>.\<close>

definition getNodeStatusString :: "int \<Rightarrow> string" where
  "getNodeStatusString st =
    (if st = 0 then ''NodeStatusInvalid''
     else if st = 1 then ''NodeStatusCreated''
     else if st = 2 then ''NodeStatusInvoking''
     else if st = 3 then ''NodeStatusInvoked''
     else if st = 4 then ''NodeStatusConnecting''
     else if st = 5 then ''NodeStatusConnected''
     else if st = 6 then ''NodeStatusHandshaking''
     else if st = 7 then ''NodeStatusHandshaked''
     else if st = 8 then ''NodeStatusRunning''
     else if st = 9 then ''NodeStatusCancelling''
     else if st = 10 then ''NodeStatusClosing''
     else if st = 11 then ''NodeStatusClosed''
     else if st = 13 then ''NodeStatusReleased''
     else ''Unknown'')"

section \<open>The state\<close>

record NodeInfo =
  ni_request :: ptr
  ni_node :: ptr
  ni_instance :: ptr
  ni_uuid :: string
  ni_status :: int

record NlsNodeManager =
  requestListByNode :: "ptr \<Rightarrow> ptr option"
  infoByRequest :: "ptr \<Rightarrow> NodeInfo option"
  manager_timeout_ms :: int

abbreviation (input) StepSleepMs :: int where "StepSleepMs \<equiv> 500"
abbreviation (input) DefaultRemoveTimeout :: int where "DefaultRemoveTimeout \<equiv> 2000"

definition new_NlsNodeManager :: NlsNodeManager where
  "new_NlsNodeManager = \<lparr>requestListByNode = \<lambda>_. None, infoByRequest = \<lambda>_. None,
     manager_timeout_ms = DefaultRemoveTimeout\<rparr>"

section \<open>The operations\<close>

definition new_NodeInfo :: "ptr \<Rightarrow> ptr \<Rightarrow> ptr \<Rightarrow> ConnectNode \<Rightarrow> NodeInfo" where
  "new_NodeInfo req node inst n = \<lparr>ni_request = req, ni_node = node, ni_instance = inst,
     ni_uuid = n_uuid n, ni_status = node_status_code NodeStatusCreated\<rparr>"

definition addRequestIntoInfoWithInstance :: "heap \<Rightarrow> NlsNodeManager \<Rightarrow> ptr \<Rightarrow> ptr \<Rightarrow>
    (int \<times> NlsNodeManager) option" where
  "addRequestIntoInfoWithInstance h m req inst =
    (if inst = NULL then Some (- EventClientEmpty, m)
     else if req = NULL then Some (- RequestEmpty, m)
     else do {
       node \<leftarrow> getConnectNode h req;
       if node = NULL then Some (- NodeEmpty, m)
       else case infoByRequest m req of
         Some info \<Rightarrow>
           if node_status_code NodeStatusCreated < ni_status info \<and>
              ni_status info < node_status_code NodeStatusReleased
           then Some (- InvalidRequest, m)
           else if ni_instance info \<noteq> inst then Some (- InvalidRequest, m)
           else do {
             n \<leftarrow> nodes h node;
             Some (Success, m\<lparr>
               infoByRequest := (infoByRequest m)(req \<mapsto> new_NodeInfo req node inst n),
               requestListByNode := (requestListByNode m)(node \<mapsto> req)\<rparr>) }
       | None \<Rightarrow> do {
           n \<leftarrow> nodes h node;
           Some (Success, m\<lparr>
             infoByRequest := (infoByRequest m)(req \<mapsto> new_NodeInfo req node inst n),
             requestListByNode := (if requestListByNode m node = None
               then (requestListByNode m)(node \<mapsto> req) else requestListByNode m)\<rparr>) } })"

text \<open>The part \<open>checkRequestWithInstance\<close> and \<open>checkRequestExist\<close> share: the request's node is
registered and has the UUID noted.\<close>

definition check_uuid :: "heap \<Rightarrow> NlsNodeManager \<Rightarrow> ptr \<Rightarrow> NodeInfo \<Rightarrow> int option" where
  "check_uuid h m req info = do {
     node \<leftarrow> getConnectNode h req;
     if requestListByNode m node = None then Some (- InvalidRequest)
     else do {
       n \<leftarrow> nodes h node;
       Some (if ni_uuid info \<noteq> n_uuid n then - InvalidRequest else Success) } }"

definition checkRequestWithInstance :: "heap \<Rightarrow> NlsNodeManager \<Rightarrow> ptr \<Rightarrow> ptr \<Rightarrow> int option" where
  "checkRequestWithInstance h m req inst =
    (if inst = NULL then Some (- EventClientEmpty)
     else if req = NULL then Some (- RequestEmpty)
     else case infoByRequest m req of
       Some info \<Rightarrow>
         if ni_instance info \<noteq> inst then Some (- InvalidRequest)
         else check_uuid h m req info
     | None \<Rightarrow> Some (- InvalidRequest))"

text \<open>The status is written through the pointer only when the check succeeds.\<close>

definition checkRequestExist :: "heap \<Rightarrow> NlsNodeManager \<Rightarrow> ptr \<Rightarrow> int \<Rightarrow> (int \<times> int) option" where
  "checkRequestExist h m req st =
    (if req = NULL then Some (- RequestEmpty, st)
     else case infoByRequest m req of
       Some info \<Rightarrow>
         if ni_request info \<noteq> req then Some (- InvalidRequest, st)
         else do {
           ret \<leftarrow> check_uuid h m req info;
           Some (ret, if ret = Success then ni_status info else st) }
     | None \<Rightarrow> Some (- RequestEmpty, st))"

definition checkNodeExist :: "heap \<Rightarrow> NlsNodeManager \<Rightarrow> ptr \<Rightarrow> int \<Rightarrow> (int \<times> int) option" where
  "checkNodeExist h m node st =
    (if node = NULL then Some (- NodeEmpty, st)
     else if requestListByNode m node = None then Some (- NodeEmpty, st)
     else do {
       n \<leftarrow> nodes h node;
       let req = n_request n;
       if req = NULL then Some (- RequestEmpty, st)
       else case infoByRequest m req of
         Some info \<Rightarrow>
           if ni_request info \<noteq> req then Some (- InvalidRequest, st)
           else if ni_uuid info \<noteq> n_uuid n then Some (- InvalidRequest, st)
           else Some (Success, ni_status info)
       | None \<Rightarrow> Some (- RequestEmpty, st) })"

definition updateNodeStatus :: "heap \<Rightarrow> NlsNodeManager \<Rightarrow> ptr \<Rightarrow> int \<Rightarrow> (int \<times> NlsNodeManager) option" where
  "updateNodeStatus h m node st =
    (if node = NULL then Some (- NodeEmpty, m)
     else if requestListByNode m node = None then Some (- NodeEmpty, m)
     else do {
       n \<leftarrow> nodes h node;
       case infoByRequest m (n_request n) of
         Some info \<Rightarrow>
           if ni_uuid info \<noteq> n_uuid n then Some (- InvalidRequest, m)
           else Some (Success, m\<lparr>infoByRequest :=
             (infoByRequest m)(n_request n \<mapsto> info\<lparr>ni_status := st\<rparr>)\<rparr>)
       | None \<Rightarrow> Some (- InvaildNodeStatus, m) })"

subsection \<open>Removing\<close>

text \<open>What the other threads do to the maps during the \<open>k\<close>-th sleep; nobody assigns the timeout.\<close>

type_synonym interference =
  "nat \<Rightarrow> (ptr \<Rightarrow> ptr option) \<times> (ptr \<Rightarrow> NodeInfo option) \<Rightarrow> (ptr \<Rightarrow> ptr option) \<times> (ptr \<Rightarrow> NodeInfo option)"

definition sleep_step :: "interference \<Rightarrow> nat \<Rightarrow> NlsNodeManager \<Rightarrow> NlsNodeManager" where
  "sleep_step other k m =
    (let (l, i) = other k (requestListByNode m, infoByRequest m)
     in m\<lparr>requestListByNode := l, infoByRequest := i\<rparr>)"

lemma sleep_step_timeout [simp]: "manager_timeout_ms (sleep_step other k m) = manager_timeout_ms m"
  by (simp add: sleep_step_def split: prod.split)

definition in_progress :: "NodeInfo \<Rightarrow> bool" where
  "in_progress info \<longleftrightarrow> ni_status info \<noteq> node_status_code NodeStatusCreated \<and>
    ni_status info < node_status_code NodeStatusClosed"

text \<open>The loop that waits for a request in progress; it returns the time waited and the number of
sleeps.\<close>

function wait_loop :: "interference \<Rightarrow> ptr \<Rightarrow> int \<Rightarrow> nat \<Rightarrow> NlsNodeManager \<Rightarrow> NlsNodeManager \<times> int \<times> nat" where
  "wait_loop other req timeout k m =
    (case infoByRequest m req of
       None \<Rightarrow> (m, timeout, k)
     | Some info \<Rightarrow>
         if in_progress info \<and> timeout < manager_timeout_ms m
         then wait_loop other req (timeout + StepSleepMs) (Suc k) (sleep_step other k m)
         else (m, timeout, k))"
  by pat_completeness auto
termination
  by (relation "measure (\<lambda>(other, req, timeout, k, m). nat (manager_timeout_ms m - timeout))") auto

declare wait_loop.simps [simp del]

definition erase_request :: "NlsNodeManager \<Rightarrow> ptr \<Rightarrow> int \<times> NlsNodeManager" where
  "erase_request m req =
    (case infoByRequest m req of
       Some info \<Rightarrow> (Success, m\<lparr>
         requestListByNode := (requestListByNode m)(ni_node info := None),
         infoByRequest := (infoByRequest m)(req := None)\<rparr>)
     | None \<Rightarrow> (- InvalidRequest, m))"

definition removeRequestFromInfo :: "interference \<Rightarrow> NlsNodeManager \<Rightarrow> ptr \<Rightarrow> bool \<Rightarrow> int \<times> NlsNodeManager" where
  "removeRequestFromInfo other m req wait =
    (if req = NULL then (- RequestEmpty, m)
     else erase_request (if wait then fst (wait_loop other req 0 0 m) else m) req)"

definition removeInstanceFromInfo :: "ptr \<Rightarrow> int" where
  "removeInstanceFromInfo inst = Success"

section \<open>Every operation is faithful to a finite map\<close>

text \<open>
  A registry in a heap: both maps agree, every registered request lives, has the node that is
  noted, and this node has the UUID noted and knows its request.
\<close>

definition named :: "heap \<Rightarrow> ptr \<Rightarrow> ptr \<Rightarrow> string \<Rightarrow> bool" where
  "named h r k u \<longleftrightarrow> k \<noteq> NULL \<and> getConnectNode h r = Some k \<and>
    map_option (\<lambda>n. (n_request n, n_uuid n)) (nodes h k) = Some (r, u)"

definition registry_ok :: "heap \<Rightarrow> NlsNodeManager \<Rightarrow> bool" where
  "registry_ok h m \<longleftrightarrow> infoByRequest m NULL = None \<and>
    (\<forall>r i. infoByRequest m r = Some i \<longrightarrow> ni_request i = r \<and> ni_instance i \<noteq> NULL \<and>
      requestListByNode m (ni_node i) = Some r \<and> named h r (ni_node i) (ni_uuid i)) \<and>
    (\<forall>k r. requestListByNode m k = Some r \<longrightarrow> map_option ni_node (infoByRequest m r) = Some k)"

text \<open>What a client sees of the registry: the instance and the status of each request.\<close>

definition registered :: "NlsNodeManager \<Rightarrow> ptr \<Rightarrow> (ptr \<times> int) option" where
  "registered m r = map_option (\<lambda>i. (ni_instance i, ni_status i)) (infoByRequest m r)"

lemma registry_okD:
  assumes "registry_ok h m"
  shows "infoByRequest m NULL = None"
    "infoByRequest m r = Some i \<Longrightarrow> ni_request i = r \<and> ni_instance i \<noteq> NULL \<and>
      requestListByNode m (ni_node i) = Some r \<and> named h r (ni_node i) (ni_uuid i)"
    "requestListByNode m k = Some r \<Longrightarrow> map_option ni_node (infoByRequest m r) = Some k"
  using assms unfolding registry_ok_def by blast+

lemma registered_None [simp]: "registered m r = None \<longleftrightarrow> infoByRequest m r = None"
  by (simp add: registered_def)

lemma registered_SomeE:
  assumes "registered m r = Some x"
  obtains i where "infoByRequest m r = Some i" "x = (ni_instance i, ni_status i)"
  using assms by (auto simp: registered_def)

lemma registered_new [simp]: "registered new_NlsNodeManager = Map.empty"
  by (simp add: registered_def new_NlsNodeManager_def fun_eq_iff)

lemma new_registry_ok: "registry_ok h new_NlsNodeManager"
  by (simp add: registry_ok_def new_NlsNodeManager_def)

text \<open>The node of a request that is not registered is not registered either.\<close>

lemma fresh_node:
  assumes "registry_ok h m" "named h r k u" "infoByRequest m r = None"
  shows "requestListByNode m k = None"
proof (rule ccontr)
  assume "requestListByNode m k \<noteq> None"
  then obtain r' where "requestListByNode m k = Some r'" by auto
  then obtain i where i: "infoByRequest m r' = Some i" "ni_node i = k" using registry_okD(3) [OF assms(1)] by auto
  then have "named h r' k (ni_uuid i)" using registry_okD(2) [OF assms(1)] by blast
  then have "r' = r" using assms(2) by (auto simp: named_def)
  then show False using assms(3) i by simp
qed

lemma check_uuid_ok:
  assumes "registry_ok h m" "infoByRequest m r = Some i"
  shows "check_uuid h m r i = Some Success"
proof -
  have "requestListByNode m (ni_node i) = Some r" "named h r (ni_node i) (ni_uuid i)"
    using registry_okD(2) [OF assms] by simp_all
  then show ?thesis by (auto simp: check_uuid_def named_def)
qed

text \<open>What adding does, in its three outcomes.\<close>

lemma addRequest_ok:
  assumes ok: "registry_ok h m" and named: "named h r k u" and r: "r \<noteq> NULL" "inst \<noteq> NULL"
  shows "\<exists>ret m'. addRequestIntoInfoWithInstance h m r inst = Some (ret, m') \<and> registry_ok h m' \<and>
    (if \<exists>j s. registered m r = Some (j, s) \<and>
        (node_status_code NodeStatusCreated < s \<and> s < node_status_code NodeStatusReleased \<or> j \<noteq> inst)
     then ret = - InvalidRequest \<and> m' = m
     else ret = Success \<and> registered m' = (registered m)(r \<mapsto> (inst, node_status_code NodeStatusCreated)))"
proof -
  obtain n where n: "k \<noteq> NULL" "getConnectNode h r = Some k" "nodes h k = Some n" "n_request n = r" "n_uuid n = u"
    using named by (auto simp: named_def)
  let ?i = "new_NodeInfo r k inst n"
  let ?m = "m\<lparr>infoByRequest := (infoByRequest m)(r \<mapsto> ?i), requestListByNode := (requestListByNode m)(k \<mapsto> r)\<rparr>"
  have reg: "registered ?m = (registered m)(r \<mapsto> (inst, node_status_code NodeStatusCreated))"
    by (auto simp: registered_def new_NodeInfo_def)
  have good: "registry_ok h ?m" if new: "\<forall>i. infoByRequest m r = Some i \<longrightarrow> ni_node i = k"
    "infoByRequest m r = None \<Longrightarrow> requestListByNode m k = None"
    unfolding registry_ok_def
  proof (intro conjI allI impI)
    show "infoByRequest ?m NULL = None" using registry_okD(1) [OF ok] r by simp
  next
    fix r' i' assume i': "infoByRequest ?m r' = Some i'"
    show "ni_request i' = r'" "ni_instance i' \<noteq> NULL" "requestListByNode ?m (ni_node i') = Some r'"
      "named h r' (ni_node i') (ni_uuid i')"
    proof -
      have "ni_node i' \<noteq> k" if "r' \<noteq> r"
      proof
        assume "ni_node i' = k"
        then have "requestListByNode m k = Some r'" using registry_okD(2) [OF ok, of r' i'] i' that by simp
        then show False using registry_okD(2) [OF ok, of r] new that by (cases "infoByRequest m r") auto
      qed
      then show "ni_request i' = r'" "ni_instance i' \<noteq> NULL" "requestListByNode ?m (ni_node i') = Some r'"
        "named h r' (ni_node i') (ni_uuid i')"
        using i' n r named registry_okD(2) [OF ok, of r' i'] by (auto simp: new_NodeInfo_def split: if_splits)
    qed
  next
    fix k' r' assume "requestListByNode ?m k' = Some r'"
    then show "map_option ni_node (infoByRequest ?m r') = Some k'"
      using registry_okD(3) [OF ok, of k' r'] new by (auto simp: new_NodeInfo_def split: if_splits)
  qed
  show ?thesis
  proof (cases "infoByRequest m r")
    case None
    have "requestListByNode m k = None" by (rule fresh_node [OF ok named None])
    then show ?thesis
      using good None n r reg by (auto simp: addRequestIntoInfoWithInstance_def registered_def)
  next
    case (Some i)
    then have "ni_node i = k" using registry_okD(2) [OF ok Some] n(2) by (simp add: named_def)
    then show ?thesis
      using good Some n r reg ok by (auto simp: addRequestIntoInfoWithInstance_def registered_def)
  qed
qed

lemma checkRequestExist_ok:
  assumes "registry_ok h m" "r \<noteq> NULL"
  shows "checkRequestExist h m r st =
    Some (case registered m r of None \<Rightarrow> (- RequestEmpty, st) | Some (j, s) \<Rightarrow> (Success, s))"
  using registry_okD(2) [OF assms(1)] check_uuid_ok [OF assms(1)] assms(2)
  by (auto simp: checkRequestExist_def registered_def split: option.split)

lemma checkRequestWithInstance_ok:
  assumes "registry_ok h m" "r \<noteq> NULL" "inst \<noteq> NULL"
  shows "checkRequestWithInstance h m r inst =
    Some (if \<exists>s. registered m r = Some (inst, s) then Success else - InvalidRequest)"
  using check_uuid_ok [OF assms(1)] assms(2,3)
  by (auto simp: checkRequestWithInstance_def registered_def split: option.split)

lemma checkNodeExist_ok:
  assumes "registry_ok h m" "k \<noteq> NULL"
  shows "checkNodeExist h m k st =
    Some (case requestListByNode m k of None \<Rightarrow> (- NodeEmpty, st)
      | Some r \<Rightarrow> (Success, snd (the (registered m r))))"
proof (cases "requestListByNode m k")
  case (Some r)
  then obtain i where i: "infoByRequest m r = Some i" "ni_node i = k" using registry_okD(3) [OF assms(1)] by auto
  from registry_okD(2) [OF assms(1) i(1)] i(2) have "ni_request i = r" "named h r k (ni_uuid i)" by simp_all
  moreover have "r \<noteq> NULL" using registry_okD(1) [OF assms(1)] i(1) by (cases "r = NULL") simp_all
  ultimately show ?thesis using i Some assms(2) by (auto simp: checkNodeExist_def named_def registered_def)
qed (simp add: checkNodeExist_def assms)

lemma updateNodeStatus_ok:
  assumes ok: "registry_ok h m" and k: "requestListByNode m k = Some r"
  shows "\<exists>m' j s. updateNodeStatus h m k st = Some (Success, m') \<and> registry_ok h m' \<and>
    registered m r = Some (j, s) \<and> registered m' = (registered m)(r \<mapsto> (j, st)) \<and>
    requestListByNode m' = requestListByNode m"
proof -
  obtain i where i: "infoByRequest m r = Some i" "ni_node i = k" using registry_okD(3) [OF ok k] by auto
  have i': "ni_request i = r" "ni_instance i \<noteq> NULL" "named h r k (ni_uuid i)"
    using registry_okD(2) [OF ok i(1)] i(2) by auto
  let ?m = "m\<lparr>infoByRequest := (infoByRequest m)(r \<mapsto> i\<lparr>ni_status := st\<rparr>)\<rparr>"
  have "updateNodeStatus h m k st = Some (Success, ?m)"
    using i i' k by (auto simp: updateNodeStatus_def named_def)
  moreover have "registry_ok h ?m"
    unfolding registry_ok_def
  proof (intro conjI allI impI)
    show "infoByRequest ?m NULL = None" using registry_okD(1) [OF ok] i(1) by (cases "r = NULL") simp_all
  next
    fix r' i' assume "infoByRequest ?m r' = Some i'"
    then show "ni_request i' = r'" "ni_instance i' \<noteq> NULL" "requestListByNode ?m (ni_node i') = Some r'"
      "named h r' (ni_node i') (ni_uuid i')"
      using registry_okD(2) [OF ok, of r' i'] i i' k by (auto split: if_splits)
  next
    fix k' r' assume "requestListByNode ?m k' = Some r'"
    then show "map_option ni_node (infoByRequest ?m r') = Some k'"
      using registry_okD(3) [OF ok, of k' r'] i by auto
  qed
  moreover have "registered ?m = (registered m)(r \<mapsto> (ni_instance i, st))"
    by (auto simp: registered_def)
  ultimately show ?thesis using i(1) by (auto simp: registered_def)
qed

lemma erase_request_ok:
  assumes ok: "registry_ok h m"
  shows "registry_ok h (snd (erase_request m r))"
    "registered (snd (erase_request m r)) = (registered m)(r := None)"
    "fst (erase_request m r) = (if registered m r = None then - InvalidRequest else Success)"
proof -
  show "registry_ok h (snd (erase_request m r))"
  proof (cases "infoByRequest m r")
    case (Some i)
    let ?m = "snd (erase_request m r)"
    have m: "requestListByNode ?m = (requestListByNode m)(ni_node i := None)"
      "infoByRequest ?m = (infoByRequest m)(r := None)" by (simp_all add: erase_request_def Some)
    show ?thesis
      unfolding registry_ok_def m
    proof (intro conjI allI impI)
      show "((infoByRequest m)(r := None)) NULL = None" using registry_okD(1) [OF ok] by simp
    next
      fix r' i' assume "((infoByRequest m)(r := None)) r' = Some i'"
      then have i': "infoByRequest m r' = Some i'" "r' \<noteq> r" by (auto split: if_splits)
      have "ni_node i' \<noteq> ni_node i"
        using registry_okD(2) [OF ok i'(1)] registry_okD(2) [OF ok Some] i'(2) by auto
      then show "ni_request i' = r'" "ni_instance i' \<noteq> NULL"
        "((requestListByNode m)(ni_node i := None)) (ni_node i') = Some r'"
        "named h r' (ni_node i') (ni_uuid i')"
        using registry_okD(2) [OF ok i'(1)] by auto
    next
      fix k r' assume "((requestListByNode m)(ni_node i := None)) k = Some r'"
      then have k: "requestListByNode m k = Some r'" "k \<noteq> ni_node i" by (auto split: if_splits)
      then have "r' \<noteq> r" using registry_okD(3) [OF ok k(1)] Some by auto
      then show "map_option ni_node (((infoByRequest m)(r := None)) r') = Some k"
        using registry_okD(3) [OF ok k(1)] by simp
    qed
  qed (simp add: erase_request_def ok)
  show "registered (snd (erase_request m r)) = (registered m)(r := None)"
    by (auto simp: erase_request_def registered_def split: option.split)
  show "fst (erase_request m r) = (if registered m r = None then - InvalidRequest else Success)"
    by (simp add: erase_request_def split: option.split)
qed

subsection \<open>Other changes of the heap\<close>

lemma registry_ok_heap:
  assumes ok: "registry_ok h m"
    and keep: "\<And>r k u. infoByRequest m r \<noteq> None \<Longrightarrow> named h r k u \<Longrightarrow> named h' r k u"
  shows "registry_ok h' m"
  using registry_okD [OF ok] keep unfolding registry_ok_def by (auto 4 4)

lemma named_node_of: "heap_ok h \<Longrightarrow> named h r k u \<Longrightarrow> \<exists>n. node_of h r = Some n \<and> n_uuid n = u"
  by (auto simp: named_def getConnectNode_def node_of_def)

text \<open>A request may be deleted once it is no longer registered.\<close>

lemma registry_ok_delete:
  assumes ok: "heap_ok h" "registry_ok h m" and del: "delete_request h r = Some h'"
    and r: "infoByRequest m r = None"
  shows "registry_ok h' m"
proof (rule registry_ok_heap [OF ok(2)])
  obtain q n where q: "reqs h r = Some q" "nodes h (r_node q) = Some n"
    and h': "reqs h' = (reqs h)(r := None)" "nodes h' = (nodes h)(r_node q := None)"
    using del by (auto simp: delete_request_def destroy_ConnectNode_def delete_ssl_def closeConnectNode_def
        closesocket_def Let_def split: bind_splits if_splits)
  fix r' k u assume r': "infoByRequest m r' \<noteq> None" and named: "named h r' k u"
  then have "r' \<noteq> r" using r by auto
  moreover from named obtain q' where q': "reqs h r' = Some q'" "r_node q' = k"
    by (auto simp: named_def getConnectNode_def)
  ultimately have "k \<noteq> r_node q" using ok(1) q(1) unfolding heap_ok_def by metis
  then show "named h' r' k u" using named q' \<open>r' \<noteq> r\<close> by (auto simp: named_def getConnectNode_def h')
qed

lemma registry_ok_create:
  assumes "registry_ok h m" "reqs h (e_request e) = None" "nodes h (e_node e) = None"
  shows "registry_ok (create_request e h t sdk v long) m"
proof (rule registry_ok_heap [OF assms(1)])
  fix r k u assume "infoByRequest m r \<noteq> None" "named h r k u"
  then show "named (create_request e h t sdk v long) r k u"
    using assms(2,3) by (auto simp: named_def getConnectNode_def create_request_def)
qed

lemma named_create:
  "e_node e \<noteq> NULL \<Longrightarrow> named (create_request e h t sdk v long) (e_request e) (e_node e) (e_uuid e)"
  by (simp add: named_def getConnectNode_def create_request_def)

section \<open>The interface\<close>

text \<open>
  What the client relies on: adding and removing keep the registry good, and through \<open>lookup\<close> it
  behaves as a finite map. Whatever is done in between, a request is found exactly as last added.
\<close>

datatype 'i registry_op = Register ptr 'i | Unregister ptr

locale request_registry =
  fixes good :: "'m \<Rightarrow> bool"
    and lookup :: "'m \<Rightarrow> ptr \<Rightarrow> 'i option"
    and add :: "'m \<Rightarrow> ptr \<Rightarrow> 'i \<Rightarrow> 'm option"
    and remove :: "'m \<Rightarrow> ptr \<Rightarrow> 'm"
  assumes add_good: "good m \<Longrightarrow> add m r i = Some m' \<Longrightarrow> good m'"
    and add_lookup: "good m \<Longrightarrow> add m r i = Some m' \<Longrightarrow> lookup m' = (lookup m)(r \<mapsto> i)"
    and remove_good: "good m \<Longrightarrow> good (remove m r)"
    and remove_lookup: "good m \<Longrightarrow> lookup (remove m r) = (lookup m)(r := None)"
begin

fun run :: "'i registry_op list \<Rightarrow> 'm \<Rightarrow> 'm option" where
  "run [] m = Some m"
| "run (Register r i # ops) m = do { m \<leftarrow> add m r i; run ops m }"
| "run (Unregister r # ops) m = run ops (remove m r)"

fun map_run :: "'i registry_op list \<Rightarrow> (ptr \<Rightarrow> 'i option) \<Rightarrow> ptr \<Rightarrow> 'i option" where
  "map_run [] f = f"
| "map_run (Register r i # ops) f = map_run ops (f(r \<mapsto> i))"
| "map_run (Unregister r # ops) f = map_run ops (f(r := None))"

lemma run_good: "run ops m = Some m' \<Longrightarrow> good m \<Longrightarrow> good m'"
  by (induction ops m rule: run.induct) (auto intro: add_good remove_good split: bind_splits)

lemma run_lookup: "run ops m = Some m' \<Longrightarrow> good m \<Longrightarrow> lookup m' = map_run ops (lookup m)"
proof (induction ops m rule: run.induct)
  case (2 r i ops m)
  then obtain m1 where "add m r i = Some m1" "run ops m1 = Some m'" by (auto split: bind_splits)
  then show ?case using 2 add_good add_lookup by fastforce
qed (simp_all add: remove_good remove_lookup)

lemma remove_add: "good m \<Longrightarrow> add m r i = Some m' \<Longrightarrow> lookup (remove m' r) = (lookup m)(r := None)"
  by (simp add: remove_lookup add_good add_lookup)

lemma remove_twice: "good m \<Longrightarrow> lookup (remove (remove m r) r) = lookup (remove m r)"
  by (simp add: remove_lookup remove_good)

end

text \<open>The client's view of the operations: adding a living request for an instance, and removing.\<close>

definition register_request :: "heap \<Rightarrow> NlsNodeManager \<Rightarrow> ptr \<Rightarrow> ptr \<times> int \<Rightarrow> NlsNodeManager option" where
  "register_request h m r i =
    (case addRequestIntoInfoWithInstance h m r (fst i) of
       Some (ret, m') \<Rightarrow> if ret = Success \<and> snd i = node_status_code NodeStatusCreated \<and>
           (\<exists>k u. named h r k u) then Some m' else None
     | None \<Rightarrow> None)"

lemma register_requestD:
  assumes "registry_ok h m" "register_request h m r i = Some m'"
  shows "registry_ok h m' \<and> registered m' = (registered m)(r \<mapsto> i)"
proof -
  from assms(2) obtain k u where a: "addRequestIntoInfoWithInstance h m r (fst i) = Some (Success, m')"
    "snd i = node_status_code NodeStatusCreated" "named h r k u"
    by (auto simp: register_request_def split: option.splits if_splits)
  then have "r \<noteq> NULL" "fst i \<noteq> NULL" by (auto simp: addRequestIntoInfoWithInstance_def split: if_splits)
  then have "registry_ok h m' \<and> registered m' = (registered m)(r \<mapsto> (fst i, snd i))"
    using addRequest_ok [OF assms(1) a(3), of "fst i"] a(1,2) by (auto split: if_splits)
  then show ?thesis by simp
qed

interpretation registry: request_registry "registry_ok h" registered "register_request h"
    "\<lambda>m r. snd (erase_request m r)" for h
  by unfold_locales (simp_all add: register_requestD erase_request_ok)

section \<open>What the registry promises\<close>

text \<open>C21: a request is found exactly while it is registered. Adding a living request that is not
registered for a client instance succeeds and makes it known to this instance, and only to it,
with status created; a new status reported for its node is what the checks by request and by
node then return; after removing it no check succeeds any more, and the registration of every
other request is as before. No check follows the pointer of a request that is not registered,
so that a pointer to a deleted request is refused rather than dereferenced.\<close>

theorem registry_lookup:
  assumes "registry_ok h m" "named h r k u" "r \<noteq> NULL" "inst \<noteq> NULL" "registered m r = None"
  shows "\<exists>m1 m2. addRequestIntoInfoWithInstance h m r inst = Some (Success, m1) \<and>
    updateNodeStatus h m1 k st = Some (Success, m2) \<and>
    checkRequestExist h m r st0 = Some (- RequestEmpty, st0) \<and>
    checkRequestExist h m1 r st0 = Some (Success, node_status_code NodeStatusCreated) \<and>
    checkRequestExist h m2 r st0 = Some (Success, st) \<and> checkNodeExist h m2 k st0 = Some (Success, st) \<and>
    checkRequestWithInstance h m2 r j = Some (if j = NULL then - EventClientEmpty
      else if j = inst then Success else - InvalidRequest) \<and>
    removeRequestFromInfo other m2 r False = (Success, snd (erase_request m2 r)) \<and>
    registered (snd (erase_request m2 r)) = registered m \<and>
    (\<forall>r'. r' \<noteq> r \<longrightarrow> registered m2 r' = registered m r')"
proof -
  have k: "k \<noteq> NULL" using assms(2) by (simp add: named_def)
  obtain m1 where m1: "addRequestIntoInfoWithInstance h m r inst = Some (Success, m1)" "registry_ok h m1"
    "registered m1 = (registered m)(r \<mapsto> (inst, node_status_code NodeStatusCreated))"
    using addRequest_ok [OF assms(1-4)] assms(5) by auto
  have "infoByRequest m1 r \<noteq> None" using m1(3) registered_None [of m1 r] by simp
  then obtain i where i: "infoByRequest m1 r = Some i" by auto
  from registry_okD(2) [OF m1(2) i] have "requestListByNode m1 (ni_node i) = Some r" "ni_node i = k"
    using assms(2) by (auto simp: named_def)
  then have list: "requestListByNode m1 k = Some r" by simp
  from updateNodeStatus_ok [OF m1(2) this, of st] obtain m2 where m2:
    "updateNodeStatus h m1 k st = Some (Success, m2)" "registry_ok h m2"
    "registered m2 = (registered m)(r \<mapsto> (inst, st))" "requestListByNode m2 k = Some r"
    using m1(3) list by auto
  have "registered (snd (erase_request m2 r)) = registered m"
    using erase_request_ok(2) [OF m2(2), of r] m2(3) assms(5) by (simp add: fun_upd_idem)
  moreover have "removeRequestFromInfo other m2 r False = (Success, snd (erase_request m2 r))"
    using erase_request_ok(3) [OF m2(2), of r] m2(3) assms(3)
    by (simp add: removeRequestFromInfo_def prod_eq_iff del: registered_None)
  moreover have "checkRequestWithInstance h m2 r j = Some (if j = NULL then - EventClientEmpty
      else if j = inst then Success else - InvalidRequest)"
    using checkRequestWithInstance_ok [OF m2(2) assms(3), of j] m2(3)
    by (cases "j = NULL") (auto simp: checkRequestWithInstance_def)
  ultimately show ?thesis
    using m1(1,3) m2(1,3,4) checkRequestExist_ok [OF assms(1,3)] checkRequestExist_ok [OF m1(2) assms(3)]
      checkRequestExist_ok [OF m2(2) assms(3)] checkNodeExist_ok [OF m2(2) k] assms(5)
    by (auto simp del: registered_None)
qed

theorem registry_lookup_witness:
  "\<exists>m1 m2. addRequestIntoInfoWithInstance (ex_requests TypeAsr 1) new_NlsNodeManager 11 5 = Some (Success, m1) \<and>
    updateNodeStatus (ex_requests TypeAsr 1) m1 12 8 = Some (Success, m2) \<and>
    checkNodeExist (ex_requests TypeAsr 1) m2 12 0 = Some (Success, 8)"
proof -
  have named: "named (ex_requests TypeAsr 1) 11 12 [char_of (1 :: nat)]" by code_simp
  have "registered new_NlsNodeManager 11 = None" by simp
  from registry_lookup [OF new_registry_ok named _ _ this, of 5 8 0] show ?thesis by fastforce
qed

text \<open>The waiting loop: it ends, and how.\<close>

definition interferes_well :: "heap \<Rightarrow> interference \<Rightarrow> bool" where
  "interferes_well h other \<longleftrightarrow> (\<forall>k m. registry_ok h m \<longrightarrow> registry_ok h (sleep_step other k m))"

lemma wait_loop_ok:
  "wait_loop other r timeout k m = (m', waited, n) \<Longrightarrow> interferes_well h other \<Longrightarrow> registry_ok h m \<Longrightarrow>
    registry_ok h m' \<and> k \<le> n \<and> waited = timeout + StepSleepMs * int (n - k) \<and>
    (waited = timeout \<or> waited < manager_timeout_ms m + StepSleepMs) \<and>
    (manager_timeout_ms m \<le> waited \<or> (\<forall>i. infoByRequest m' r = Some i \<longrightarrow> \<not> in_progress i))"
proof (induction other r timeout k m rule: wait_loop.induct)
  case (1 other r timeout k m)
  show ?case
  proof (cases "\<exists>i. infoByRequest m r = Some i \<and> in_progress i \<and> timeout < manager_timeout_ms m")
    case False
    then have "wait_loop other r timeout k m = (m, timeout, k)"
      by (auto simp: wait_loop.simps [of other r timeout k m] split: option.split)
    then show ?thesis using 1(2-4) False by auto
  next
    case True
    then have rec: "wait_loop other r timeout k m =
        wait_loop other r (timeout + StepSleepMs) (Suc k) (sleep_step other k m)"
      by (auto simp: wait_loop.simps [of other r timeout k m])
    have ok: "registry_ok h (sleep_step other k m)" using 1(3,4) by (simp add: interferes_well_def)
    obtain i where i: "infoByRequest m r = Some i" "in_progress i \<and> timeout < manager_timeout_ms m"
      using True by blast
    have rec: "wait_loop other r (timeout + StepSleepMs) (Suc k) (sleep_step other k m) = (m', waited, n)"
      using rec 1(2) by simp
    have ih: "registry_ok h m' \<and> Suc k \<le> n \<and>
        waited = timeout + StepSleepMs + StepSleepMs * int (n - Suc k) \<and>
        (waited = timeout + StepSleepMs \<or> waited < manager_timeout_ms m + StepSleepMs) \<and>
        (manager_timeout_ms m \<le> waited \<or> (\<forall>i. infoByRequest m' r = Some i \<longrightarrow> \<not> in_progress i))"
      by (rule 1(1) [OF i rec 1(3) ok, unfolded sleep_step_timeout])
    then have "k < n" by linarith
    then have "n - k = Suc (n - Suc k)" by linarith
    then have "waited = timeout + StepSleepMs * int (n - k)" using ih by simp
    moreover have "waited < manager_timeout_ms m + StepSleepMs" using ih True by auto
    ultimately show ?thesis using ih \<open>k < n\<close> by (intro conjI) (blast | linarith)+
  qed
qed

text \<open>C22: removing a request with \<open>wait\<close> ends whatever the other threads do while it sleeps, after
less than the timeout plus one step of 500 ms (so after at most four sleeps with the default of
2000 ms). It either waited until the request was not in progress any more or gave up after the
timeout and removes it by force; in both cases the request is not registered afterwards, every
other registration is as the other threads left it, and the result tells whether the request
was still there to be removed.\<close>

theorem removeRequestFromInfo_ends:
  assumes "registry_ok h m" "r \<noteq> NULL" "interferes_well h other" "0 \<le> manager_timeout_ms m"
  shows "\<exists>m1 n. wait_loop other r 0 0 m = (m1, StepSleepMs * int n, n) \<and> registry_ok h m1 \<and>
    StepSleepMs * int n < manager_timeout_ms m + StepSleepMs \<and>
    (manager_timeout_ms m \<le> StepSleepMs * int n \<or>
      (\<forall>i. infoByRequest m1 r = Some i \<longrightarrow> \<not> in_progress i)) \<and>
    (\<exists>m2. removeRequestFromInfo other m r True =
        (if registered m1 r = None then - InvalidRequest else Success, m2) \<and>
      registered m2 = (registered m1)(r := None) \<and> registry_ok h m2)"
proof -
  obtain m1 waited n where w: "wait_loop other r 0 0 m = (m1, waited, n)" by (cases "wait_loop other r 0 0 m") auto
  from wait_loop_ok [OF w assms(3,1)] have m1: "registry_ok h m1" "waited = StepSleepMs * int n"
    "waited = 0 \<or> waited < manager_timeout_ms m + StepSleepMs"
    "manager_timeout_ms m \<le> waited \<or> (\<forall>i. infoByRequest m1 r = Some i \<longrightarrow> \<not> in_progress i)" by auto
  have "removeRequestFromInfo other m r True = erase_request m1 r"
    using assms(2) w by (simp add: removeRequestFromInfo_def)
  then show ?thesis
    using w m1 assms(4) erase_request_ok [OF m1(1), of r] by (auto simp: prod_eq_iff simp del: registered_None)
qed

theorem removeRequestFromInfo_ends_witness:
  "\<exists>m1 n. wait_loop (\<lambda>_ x. x) 11 0 0 new_NlsNodeManager = (m1, 500 * int n, n) \<and> n \<le> 4"
proof -
  have "interferes_well ex_heap (\<lambda>_ x. x)" by (simp add: interferes_well_def sleep_step_def)
  from removeRequestFromInfo_ends [OF new_registry_ok _ this, of 11] show ?thesis
    by (fastforce simp: new_NlsNodeManager_def)
qed

text \<open>Deleting a request that is still registered breaks the registry. Afterwards the check by
request follows the deleted pointer; and when the allocator hands the address out again for a new
request, whatever its node, the registry refuses it with an error as long as the old status was
between created and released, so that the client's factory cannot create the request.\<close>

theorem stale_registration:
  assumes "heap_ok h" "registry_ok h m" "registered m r = Some (inst, s)"
    and "node_status_code NodeStatusCreated < s" "s < node_status_code NodeStatusReleased"
    and "delete_request h r = Some h'" "e_request e = r" "e_node e \<noteq> NULL" "inst' \<noteq> NULL"
  shows "checkRequestExist h' m r st = None \<and>
    addRequestIntoInfoWithInstance (create_request e h' t sdk v long) m r inst' = Some (- InvalidRequest, m)"
proof -
  obtain i where i: "infoByRequest m r = Some i" "inst = ni_instance i" "s = ni_status i"
    by (rule registered_SomeE [OF assms(3)]) auto
  have "ni_request i = r" using registry_okD(2) [OF assms(2) i(1)] by simp
  moreover have r: "r \<noteq> NULL" using registry_okD(1) [OF assms(2)] i(1) by (cases "r = NULL") simp_all
  moreover have "reqs h' r = None"
    using assms(6) by (auto simp: delete_request_def split: bind_splits)
  ultimately have "checkRequestExist h' m r st = None"
    using i(1) by (simp add: checkRequestExist_def check_uuid_def getConnectNode_def)
  moreover have "getConnectNode (create_request e h' t sdk v long) r = Some (e_node e)"
    using assms(7) by (simp add: getConnectNode_def create_request_def)
  ultimately show ?thesis
    using i assms(4,5,8,9) r by (simp add: addRequestIntoInfoWithInstance_def)
qed

theorem stale_registration_witness:
  "\<exists>m h'. registered m 11 = Some (5, 8) \<and> delete_request (ex_requests TypeAsr 1) 11 = Some h' \<and>
    checkRequestExist h' m 11 0 = None \<and>
    addRequestIntoInfoWithInstance (create_request (ex_env 1) h' TypeAsr [] 0 True) m 11 5 =
      Some (- InvalidRequest, m)"
proof -
  let ?h = "ex_requests TypeAsr 1"
  have named: "named ?h 11 12 [char_of (1 :: nat)]" by code_simp
  obtain m1 where m1: "addRequestIntoInfoWithInstance ?h new_NlsNodeManager 11 5 = Some (Success, m1)"
    "registry_ok ?h m1" "registered m1 = [11 \<mapsto> (5, 1)]"
    using addRequest_ok [OF new_registry_ok named, of 5] by auto
  have "infoByRequest m1 11 \<noteq> None" using m1(3) registered_None [of m1 11] by simp
  then obtain i where i: "infoByRequest m1 11 = Some i" by auto
  obtain m where m: "registry_ok ?h m" "registered m 11 = Some (5, 8)"
    using updateNodeStatus_ok [OF m1(2), of "ni_node i" 11 8] registry_okD(2) [OF m1(2) i] m1(3) by auto
  have "delete_request ?h 11 \<noteq> None" by code_simp
  then obtain h' where h': "delete_request ?h 11 = Some h'" by auto
  have ok: "heap_ok ?h" using ex_heap_ok by blast
  have e: "e_request (ex_env 1) = 11" "e_node (ex_env 1) \<noteq> NULL" by (simp_all add: ex_env_def)
  from stale_registration [OF ok m _ _ h' e, of 5 0 TypeAsr "[]" 0 True] m(2) h' show ?thesis by auto
qed

end
