(* ===== verification/NlsClient.thy ===== *)
theory NlsClient
  imports NodeManager
begin

text \<open>
  \<open>framework/common/nlsClientImpl.cpp\<close>: the factory and the release of requests, which tie the
  node manager and the connection pool together. The world of the client is the heap, the pool
  (\<open>None\<close> when it is not enabled) and the node manager. The two locks (the try-lock of the
  release guard, which goes on when it fails, and the manager's mutex) and the statements that
  only touch the event loop of a node that is deleted right after (\<open>delAllEvents\<close>,
  \<open>updateDestroyStatus\<close>, \<open>_releasingFlag\<close>) have no counterpart here.
\<close>

type_synonym world = "heap \<times> ConnectedPool option \<times> NlsNodeManager"

section \<open>Creating\<close>

text \<open>\<open>create...RequestImpl\<close>: a request that the registry refuses is deleted again.\<close>

definition createRequestImpl :: "pool_env \<Rightarrow> ptr \<Rightarrow> NlsType \<Rightarrow> string \<Rightarrow> int \<Rightarrow> bool \<Rightarrow> world \<Rightarrow>
    (ptr \<times> world) option" where
  "createRequestImpl e inst type sdk version isLong = (\<lambda>(h, pool, m).
    if e_request e = NULL then Some (NULL, h, pool, m)
    else do {
      let h = create_request e h type sdk version isLong;
      (ret, m) \<leftarrow> addRequestIntoInfoWithInstance h m (e_request e) inst;
      if ret \<noteq> Success then do {
        h \<leftarrow> delete_request h (e_request e);
        Some (NULL, h, pool, m) }
      else Some (e_request e, h, pool, m) })"

section \<open>Releasing\<close>

text \<open>What the pool is asked before the request goes: does its connection belong to the pool, has
it been marked abnormal, and does the pool store the request itself?\<close>

definition pool_query :: "heap \<Rightarrow> ConnectedPool option \<Rightarrow> ptr \<Rightarrow> NlsType \<Rightarrow> ConnectNode \<Rightarrow>
    (bool \<times> bool \<times> bool) option" where
  "pool_query h pool req type n =
    (case pool of
       Some p \<Rightarrow> if n_usePreconnection n then sslBelongToPool h p req type False False
         else Some (False, False, False)
     | None \<Rightarrow> Some (False, False, False))"

text \<open>What is done with the pool after it has gone.\<close>

definition leave_pool :: "heap \<Rightarrow> ConnectedPool option \<Rightarrow> ptr \<Rightarrow> NlsType \<Rightarrow> ConnectNode \<Rightarrow> bool \<Rightarrow> bool \<Rightarrow>
    (heap \<times> ConnectedPool option) option" where
  "leave_pool h pool req type n sslInConnectedPool oriRequestIsAbnormal =
    (case pool of
       None \<Rightarrow> Some (h, None)
     | Some p \<Rightarrow>
         if sslInConnectedPool then
           (if oriRequestIsAbnormal then do {
              (_, h, p) \<leftarrow> deletePreNodeBySSL h p (n_sslHandle n) type;
              Some (h, Some p) }
            else do {
              p \<leftarrow> finishPushPreNode h p type (n_socketFd n) (n_sslHandle n) (n_poolIndex n);
              Some (h, Some p) })
         else do {
           (_, p) \<leftarrow> deletePreNodeByRequest h p req type;
           Some (h, Some p) })"

definition releaseRequest :: "ptr \<Rightarrow> world \<Rightarrow> world option" where
  "releaseRequest req = (\<lambda>(h, pool, m).
    if req = NULL then Some (h, pool, m)
    else do {
      node \<leftarrow> getConnectNode h req;
      if node = NULL then Some (h, pool, m)
      else do {
        (ret, st) \<leftarrow> checkRequestExist h m req (node_status_code NodeStatusInvalid);
        if ret \<noteq> Success then Some (h, pool, m)
        else do {
          n \<leftarrow> nodes h node;
          (ret, st) \<leftarrow> checkRequestExist h m req st;
          if ret \<noteq> Success then Some (h, pool, m)
          else do {
            prm \<leftarrow> getRequestParam h req;
            let type = p_mode (p_conn prm);
            (sslInConnectedPool, oriRequestIsAbnormal, inPool) \<leftarrow> pool_query h pool req type n;
            let (ret, m) = removeRequestFromInfo (\<lambda>_ x. x) m req False;
            h \<leftarrow> (if ret = Success \<and> \<not> inPool then delete_request h req else Some h);
            (h, pool) \<leftarrow> leave_pool h pool req type n sslInConnectedPool oriRequestIsAbnormal;
            Some (h, pool, m) } } } })"

text \<open>\<open>release...RequestImpl\<close>: the request must be this instance's. \<open>cancel\<close> stands for the test of the
node's state and the call of the request's \<open>cancel\<close>, which belong to the event machine.\<close>

definition releaseRequestImpl :: "(world \<Rightarrow> world option) \<Rightarrow> ptr \<Rightarrow> ptr \<Rightarrow> world \<Rightarrow> world option" where
  "releaseRequestImpl cancel inst req = (\<lambda>(h, pool, m).
    if req = NULL then Some (h, pool, m)
    else do {
      ret \<leftarrow> checkRequestWithInstance h m req inst;
      if ret \<noteq> Success then Some (h, pool, m)
      else do {
        w \<leftarrow> cancel (h, pool, m);
        releaseRequest req w } })"

section \<open>A release is a step of the pool\<close>

text \<open>A live slot of the request that \<open>P\<close> singles out by its handle is found where it is.\<close>

lemma find_own:
  assumes sound: "sound h p" and s: "at p t k i = Some s" "status s = live k"
    and P: "P s" "\<And>s'. P s' \<Longrightarrow> sslHandle s' = sslHandle s"
  shows "\<exists>pp. poolProcess t p = Some pp \<and> i < length (slots k pp) \<and> slots k pp ! i = s \<and>
    find_live k' t P p = (if k' = k then Some (pp, i) else None)"
proof -
  have only: "k' = k \<and> j = i" if "at p t k' j = Some s'" "status s' = live k'" "P s'" for k' j s'
    using sound_exclusive [OF sound s that(1,2)] P(2) [OF that(3)] by fastforce
  obtain pp where pp: "poolProcess t p = Some pp" "i < length (slots k pp)" "slots k pp ! i = s"
    using at_SomeD [OF s(1)] by auto
  have "find_live k' t P p = (if k' = k then Some (pp, i) else None)"
  proof (cases "find_live k' t P p")
    case None
    then show ?thesis using s P(1) find_live_None_iff [of k' t P p] by auto
  next
    case (Some x)
    obtain qq j where x: "x = (qq, j)" by fastforce
    from find_live_SomeD [OF Some [unfolded x]] only pp(1) show ?thesis using Some x by force
  qed
  then show ?thesis using pp by blast
qed

text \<open>What is registered and not stored in the pool.\<close>

lemma find_none:
  assumes sound: "sound h p" and r: "r \<notin> requests p" "node_of h r = Some n" "owns n"
  shows "find_live k t (same_slot fd (n_sslHandle n)) p = None"
proof -
  have "sslHandle s \<noteq> n_sslHandle n" if s: "at p t k i = Some s" "status s = live k" for i s
  proof
    assume e: "sslHandle s = n_sslHandle n"
    obtain m where m: "node_of h (request s) = Some m" "n_sslHandle m = sslHandle s" "owns m"
      using sound_conn [OF sound] s unfolding conn_ok_def caches_def by blast
    have "heap_ok h" using sound_inv [OF sound] by (simp add: pool_inv_def)
    then have "request s = r" using m r(2,3) e unfolding heap_ok_def by metis
    then show False using requestsI [OF s(1)] r(1) by simp
  qed
  then show ?thesis by (metis find_live_None_iff same_slot_def)
qed

lemma find_request_none:
  "r \<notin> requests p \<Longrightarrow> find_live k t (\<lambda>s. r = request s) p = None"
  by (auto simp: find_live_None_iff dest: requestsI)

text \<open>Every slot that stores \<open>r\<close> is live, of the type of the request, and its node uses the pool.\<close>

definition kept_well :: "heap \<Rightarrow> ConnectedPool \<Rightarrow> ptr \<Rightarrow> bool" where
  "kept_well h p r \<longleftrightarrow> (\<forall>t k i s. at p t k i = Some s \<longrightarrow> request s = r \<longrightarrow> status s = live k \<and>
    map_option n_usePreconnection (node_of h r) = Some True \<and>
    map_option (\<lambda>prm. p_mode (p_conn prm)) (getRequestParam h r) = Some t)"

lemma release_not_stored:
  assumes sound: "sound h p" and n: "node_of h r = Some n" "owns n" and r: "r \<notin> requests p" "r \<notin> users p"
  shows "\<exists>h'. pool_query h (Some p) r t n = Some (False, False, False) \<and> delete_request h r = Some h' \<and>
    leave_pool h' (Some p) r t n False False = Some (h', Some p) \<and> pool_step (h, p) (h', p) \<and> \<not> alive h' r"
proof -
  have ok: "heap_ok h" using sound_inv [OF sound] by (simp add: pool_inv_def)
  have "alive h r" using n by (simp add: alive_def)
  from delete_request_ok [OF ok this] obtain h' where h': "delete_request h r = Some h'"
    "\<And>r'. node_of h' r' = (if r' = r then None else node_of h r')" by metis
  have "pool_query h (Some p) r t n = Some (False, False, False)"
    using n find_none [OF sound r(1) n] by (simp add: pool_query_def sslBelongToPool_def)
  moreover have "leave_pool h' (Some p) r t n False False = Some (h', Some p)"
    using find_request_none [OF r(1)]
    by (simp add: leave_pool_def deletePreNodeByRequest_def match_request_def)
  ultimately show ?thesis using h' destroy [OF r h'(1)] by (auto simp: alive_def)
qed

lemma release_stored:
  assumes sound: "sound h p" and n: "node_of h r = Some n" and s: "at p t k i = Some s" "request s = r"
    and kept: "status s = live k" "n_usePreconnection n"
  shows "\<exists>h' p'. pool_query h (Some p) r t n = Some (True, isAbnormal s, True) \<and>
    leave_pool h (Some p) r t n True (isAbnormal s) = Some (h', Some p') \<and> pool_step (h, p) (h', p') \<and>
    (if isAbnormal s then delete_request h r = Some h' else h' = h)"
proof -
  obtain m where m: "node_of h (request s) = Some m" "n_sslHandle m = sslHandle s" "n_socketFd m = socketFd s"
    using sound_conn [OF sound] s(1) kept(1) unfolding conn_ok_def caches_def by blast
  then have same: "n_sslHandle n = sslHandle s" "n_socketFd n = socketFd s" using n s(2) by simp_all
  have r: "r \<noteq> NULL" using inv_slot [OF sound_inv [OF sound] s(1)] kept(1) s(2) by (simp add: slot_ok_def)
  obtain pp where pp: "poolProcess t p = Some pp" "i < length (slots k pp)" "slots k pp ! i = s"
    using at_SomeD [OF s(1)] by auto
  have found: "find_live k' t P p = (if k' = k then Some (pp, i) else None)"
    if "P s" "\<And>s'. P s' \<Longrightarrow> sslHandle s' = sslHandle s" for k' P
    using find_own [where P = P, OF sound s(1) kept(1) that, of k'] pp(1) by simp
  have slot: "find_live k' t (same_slot (n_socketFd n) (n_sslHandle n)) p = (if k' = k then Some (pp, i) else None)" for k'
    by (rule found) (use same in \<open>simp_all add: same_slot_def\<close>)
  have query: "pool_query h (Some p) r t n = Some (True, isAbnormal s, True)"
    using n kept(2) pp(3) slot s(2) by (cases k) (simp_all add: pool_query_def sslBelongToPool_def Let_def)
  show ?thesis
  proof (cases "isAbnormal s")
    case False
    have idx: "n_poolIndex n < int (maxPreconnectedNumber p)"
      using sound_inv [OF sound] n by (fastforce simp: pool_inv_def indexes_ok_def)
    obtain p' where p': "finishPushPreNode h p t (n_socketFd n) (n_sslHandle n) (n_poolIndex n) = Some p'"
      using finish_defined [OF sound_inv [OF sound] idx] by blast
    then show ?thesis using query False pool_step.finish [OF p'] by (simp add: leave_pool_def)
  next
    case True
    have found: "find_live k' t (\<lambda>s'. sslHandle s' = n_sslHandle n) p = (if k' = k then Some (pp, i) else None)" for k'
      by (rule found) (use same in simp_all)
    obtain h' where h': "delete_slot k h p t pp i = Some (h', set_poolProcess t (upd_slot k i clearNode pp) p)"
      using sound_delete_slot [OF sound pp(1,2)] by blast
    have del: "delete_request h r = Some h'"
      using h' pp(3) s(2) r by (auto simp: delete_slot_def Let_def split: bind_splits)
    have "deletePreNodeBySSL h p (n_sslHandle n) t = Some (True, h', set_poolProcess t (upd_slot k i clearNode pp) p)"
      using found h' by (cases k) (simp_all add: deletePreNodeBySSL_def)
    then show ?thesis using query True del pool_step.discard by (auto simp: leave_pool_def)
  qed
qed

text \<open>The release of a registered request, once the checks have passed.\<close>

lemma release_eq:
  assumes "registry_ok h m" "infoByRequest m r = Some info" "node_of h r = Some n" "getRequestParam h r = Some prm"
  shows "releaseRequest r (h, Some p, m) = do {
      (b, ab, inPool) \<leftarrow> pool_query h (Some p) r (p_mode (p_conn prm)) n;
      h \<leftarrow> (if \<not> inPool then delete_request h r else Some h);
      (h, pool) \<leftarrow> leave_pool h (Some p) r (p_mode (p_conn prm)) n b ab;
      Some (h, pool, snd (erase_request m r)) }"
    "r \<noteq> NULL" "getConnectNode h r \<noteq> Some NULL" "getConnectNode h r \<noteq> None"
proof -
  show r: "r \<noteq> NULL" using registry_okD(1) [OF assms(1)] assms(2) by (cases "r = NULL") simp_all
  have "named h r (ni_node info) (ni_uuid info)" using registry_okD(2) [OF assms(1,2)] by blast
  then have k: "getConnectNode h r = Some (ni_node info)" "ni_node info \<noteq> NULL" "nodes h (ni_node info) = Some n"
    using assms(3) by (auto simp: named_def getConnectNode_def node_of_def)
  then show "getConnectNode h r \<noteq> Some NULL" "getConnectNode h r \<noteq> None" by simp_all
  have "checkRequestExist h m r st = Some (Success, ni_status info)" for st
    using checkRequestExist_ok [OF assms(1) r, of st] assms(2) by (simp add: registered_def)
  moreover obtain m' where "erase_request m r = (Success, m')"
    using erase_request_ok(3) [OF assms(1), of r] assms(2) by (cases "erase_request m r") simp
  ultimately show "releaseRequest r (h, Some p, m) = do {
      (b, ab, inPool) \<leftarrow> pool_query h (Some p) r (p_mode (p_conn prm)) n;
      h \<leftarrow> (if \<not> inPool then delete_request h r else Some h);
      (h, pool) \<leftarrow> leave_pool h (Some p) r (p_mode (p_conn prm)) n b ab;
      Some (h, pool, snd (erase_request m r)) }"
    using r k assms(4) by (simp add: releaseRequest_def removeRequestFromInfo_def Let_def)
qed

text \<open>A second release: refused, or undefined when the request has been deleted.\<close>

lemma release_again:
  assumes "registry_ok h m" "registered m r = None" "r \<noteq> NULL" "getConnectNode h r \<noteq> Some NULL"
  shows "releaseRequest r (h, pool, m) = (if getConnectNode h r = None then None else Some (h, pool, m))"
  using assms(3,4) checkRequestExist_ok [OF assms(1,3)] assms(2)
  by (auto simp: releaseRequest_def split: option.split)

text \<open>Whether a stored request outlives its release.\<close>

definition outlives :: "ConnectedPool \<Rightarrow> ptr \<Rightarrow> bool" where
  "outlives p r \<longleftrightarrow> (\<exists>t k i s. at p t k i = Some s \<and> request s = r \<and> \<not> isAbnormal s)"

lemma outlives_stored:
  assumes sound: "sound h p" and s: "at p t k i = Some s" "request s = r" "r \<noteq> NULL"
  shows "outlives p r \<longleftrightarrow> \<not> isAbnormal s"
proof -
  have own: "owners_ok h p" using sound_inv [OF sound] by (simp add: pool_inv_def)
  have "u = s" if "at p t' k' j = Some u" "request u = r" for t' k' j u
  proof -
    have "(t', k', j) = (t, k, i)" using owners_okD(2) [OF own that(1) s(1)] that(2) s(2,3) by simp
    then show ?thesis using that(1) s(1) by simp
  qed
  then show ?thesis using s unfolding outlives_def by metis
qed

lemma release_core:
  assumes "sound h p" "registry_ok h m" "infoByRequest m r = Some info"
    and "node_of h r = Some n" "owns n" "r \<notin> users p" "kept_well h p r"
  shows "\<exists>h' p'. releaseRequest r (h, Some p, m) = Some (h', Some p', snd (erase_request m r)) \<and>
    pool_step (h, p) (h', p') \<and>
    (if outlives p r then h' = h else delete_request h r = Some h')"
proof -
  obtain prm where prm: "getRequestParam h r = Some prm" using node_param [OF assms(4)] by blast
  define t where "t = p_mode (p_conn prm)"
  note eq = release_eq(1) [OF assms(2,3,4) prm, of p, folded t_def]
    and r = release_eq(2) [OF assms(2,3,4) prm]
  show ?thesis
  proof (cases "r \<in> requests p")
    case False
    then have "\<not> outlives p r" using requestsI unfolding outlives_def by blast
    then show ?thesis using release_not_stored [OF assms(1,4,5) False assms(6), of t] eq by auto
  next
    case True
    then obtain t' k i s where s: "at p t' k i = Some s" "request s = r" unfolding requests_def by blast
    have kept: "status s = live k" "n_usePreconnection n" "t' = t"
      using assms(7) s assms(4) prm unfolding kept_well_def t_def by fastforce+
    have out: "outlives p r \<longleftrightarrow> \<not> isAbnormal s" by (rule outlives_stored [OF assms(1) s r])
    obtain h' p' where "pool_query h (Some p) r t n = Some (True, isAbnormal s, True)"
      "leave_pool h (Some p) r t n True (isAbnormal s) = Some (h', Some p')" "pool_step (h, p) (h', p')"
      "if isAbnormal s then delete_request h r = Some h' else h' = h"
      using release_stored [OF assms(1,4) _ s(2) kept(1,2)] s(1) kept(3) by blast
    then show ?thesis using eq out by auto
  qed
qed


definition ex_kept :: "(heap \<times> ConnectedPool) option" where
  "ex_kept = do {
     h \<leftarrow> update_node (ex_requests TypeTts 1) 11 (\<lambda>n. n\<lparr>n_usePreconnection := True, n_last_op := 5\<rparr>);
     (_, h, p) \<leftarrow> push_node Prestarted 6 h (new_ConnectedPool 3 1000 2000) 11 TypeTts True;
     Some (h, p) }"

lemma ex_kept_ok:
  assumes "ex_kept = Some (h, p)"
  shows "sound h p" "users p \<subseteq> {NULL}"
proof -
  let ?p0 = "new_ConnectedPool 3 1000 2000"
  obtain h1 b where h1: "update_node (ex_requests TypeTts 1) 11 (\<lambda>n. n\<lparr>n_usePreconnection := True, n_last_op := 5\<rparr>) = Some h1"
    and push: "push_node Prestarted 6 h1 ?p0 11 TypeTts True = Some (b, h, p)"
    using assms by (auto simp: ex_kept_def split: bind_splits)
  have own: "map_option owns (do { h \<leftarrow> update_node (ex_requests TypeTts 1) 11
      (\<lambda>n. n\<lparr>n_usePreconnection := True, n_last_op := 5\<rparr>); node_of h 11 }) = Some True" by code_simp
  then obtain n where n: "node_of h1 11 = Some n" "owns n" using h1 by auto
  have start: "sound (ex_requests TypeTts 1) ?p0"
    using ex_ok_sound [OF ex_ok_start [of TypeTts 1]] by (simp add: ex_start_def)
  have s1: "sound h1 ?p0" by (rule sound_update [OF start h1]) simp_all
  show sound: "sound h p" by (rule sound_store [OF s1 _ _ n push]) simp_all
  show "users p \<subseteq> {NULL}" using within_push [OF sound_inv [OF s1] push] by (auto simp: within_def)
qed


section \<open>Runs of the client\<close>

text \<open>A request of the concrete pool as the client sees it: created through the factory, registered
for the client instance 5, its node using the pool.\<close>

definition ex_client :: "NlsType \<Rightarrow> nat \<Rightarrow> world option" where
  "ex_client t n = do {
     (r, w) \<leftarrow> createRequestImpl (ex_env n) 5 t [] 0 True (ex_heap, None, new_NlsNodeManager);
     let (h, _, m) = w;
     h \<leftarrow> update_node h r (\<lambda>n. n\<lparr>n_usePreconnection := True, n_last_op := 5\<rparr>);
     Some (h, Some (new_ConnectedPool 3 1000 2000), m) }"

text \<open>A client's request is stored in the pool when its conversation is over.\<close>

definition ex_close :: "NlsType \<Rightarrow> ptr \<Rightarrow> world \<Rightarrow> world option" where
  "ex_close t r = (\<lambda>(h, pool, m). do {
     p \<leftarrow> pool;
     (_, h, p) \<leftarrow> pushPrestartedNode 6 h p r t True;
     Some (h, Some p, m) })"

text \<open>The timer, at a time and with all PINGs well.\<close>

definition ex_timer :: "u64 \<Rightarrow> world \<Rightarrow> world option" where
  "ex_timer now = (\<lambda>(h, pool, m). do {
     p \<leftarrow> pool;
     (_, p) \<leftarrow> connectPoolEventCallback h (\<lambda>_ _ _. now) (\<lambda>_ _ _. Success) False p;
     Some (h, Some p, m) })"

definition ex_release :: "NlsType \<Rightarrow> nat \<Rightarrow> world \<Rightarrow> world option" where
  "ex_release t n = (\<lambda>(h, pool, m). do {
     p \<leftarrow> pool;
     (h, p) \<leftarrow> release_slot (ex_env n) Prestarted t 0 h p;
     Some (h, Some p, m) })"


end
