(* ===== verification/NodeIO.thy ===== *)
theory NodeIO
  imports WebSocketHttp
begin

text \<open>
  The input and output of \<open>ConnectNode\<close> (\<open>transport/connectNode.cpp\<close>): sending the output
  buffers, receiving into the read buffer, the handshake's response, and the loop that cuts the
  received bytes into WebSocket frames. An \<open>evbuffer\<close> is the list of its bytes. What the system
  calls return is a parameter: \<open>incoming\<close> holds the results of the reads to come (a negative one is
  \<open>None\<close>; when none is left a read returns 0), of which a read takes at most what it asks for;
  \<open>alloc n\<close> tells whether an allocation of \<open>n\<close> bytes succeeds. What happens to a frame outside
  this file (the callback, whether the client instance and the request still exist) is the
  environment of that frame. Times, counters and log output are left out.
\<close>

abbreviation (input) NodeFrameSize :: nat where "NodeFrameSize \<equiv> 2048"

section \<open>Sockets\<close>

text \<open>\<open>send\<close> and \<open>recv\<close> return a count or a negative value; \<open>retriable\<close> is the test of the error
code the system left.\<close>

definition socketWrite :: "int \<Rightarrow> bool \<Rightarrow> int" where
  "socketWrite wLen retriable =
    (if wLen < 0 then if retriable then Success else - SocketWriteFailed else wLen)"

definition socketRead :: "int \<Rightarrow> bool \<Rightarrow> int" where
  "socketRead rLen retriable =
    (if rLen \<le> 0 then if retriable then Success else - SocketReadFailed else rLen)"

text \<open>\<open>nlsSend\<close>: nothing is written for an empty frame; else \<open>write\<close> is what the TLS or socket
layer returns for the bytes.\<close>

definition nlsSend :: "(byte list \<Rightarrow> int) \<Rightarrow> byte list \<Rightarrow> int" where
  "nlsSend write frame = (if frame = [] then 0 else write frame)"

text \<open>One call of \<open>nlsSendFrame\<close>: the result, the bytes left in the buffer and the bytes the peer
has got. \<open>writeEvent\<close> tells whether the node has its write event.\<close>

definition nlsSendFrame :: "(byte list \<Rightarrow> int) \<Rightarrow> bool \<Rightarrow> byte list \<Rightarrow> int \<times> byte list \<times> byte list" where
  "nlsSendFrame write writeEvent eventBuffer =
    (if eventBuffer = [] then (0, eventBuffer, [])
     else
       let buffer = take NodeFrameSize eventBuffer;
           sLen = nlsSend write buffer
       in if sLen < 0 then (- NlsSendFailed, eventBuffer, [])
          else
            let rest = drop (nat sLen) eventBuffer
            in if 0 < length rest \<and> \<not> writeEvent then (- EventEmpty, rest, take (nat sLen) eventBuffer)
               else (int (length rest), rest, take (nat sLen) eventBuffer))"

section \<open>Receiving\<close>

record NodeIO =
  readEvBuffer :: "byte list"
  webSocket :: WebSocketTcp
  io_wsType :: WebSocketHeaderType
  incoming :: "byte list option list"
  delivered :: "(byte \<times> byte list option) list"

definition nlsReceive :: "nat \<Rightarrow> NodeIO \<Rightarrow> int \<times> NodeIO" where
  "nlsReceive max_size io =
    (case incoming io of
       [] \<Rightarrow> (0, io)
     | None # rs \<Rightarrow> (- ReadFailed, io\<lparr>incoming := rs\<rparr>)
     | Some bs # rs \<Rightarrow>
         let got = take max_size bs; left = drop max_size bs
         in (int (length got), io\<lparr>readEvBuffer := readEvBuffer io @ got,
               incoming := (if left = [] then rs else Some left # rs)\<rparr>))"

subsection \<open>The handshake\<close>

text \<open>The response is given to \<open>responsePackage\<close> as characters; a successful one empties the read
buffer, whatever follows it.\<close>

definition gatewayResponse :: "(nat \<Rightarrow> bool) \<Rightarrow> NodeIO \<Rightarrow> (int \<times> NodeIO) option" where
  "gatewayResponse alloc io =
    (if \<not> alloc ReadBufferSize then Some (- MallocFailed, io)
     else
       let (read_len, io) = nlsReceive ReadBufferSize io
       in if read_len < 0 then Some (- NlsReceiveFailed, io)
          else if read_len = 0 then Some (- NlsReceiveEmpty, io)
          else
            let frameSize = length (readEvBuffer io)
            in if ReadBufferSize < frameSize \<and> \<not> alloc (frameSize + 1) then Some (- ReallocFailed, io)
               else do {
                 (ret, ws) \<leftarrow> responsePackage (webSocket io)
                   (map (\<lambda>b. char_of (unat b)) (readEvBuffer io)) (of_nat frameSize);
                 let io = io\<lparr>webSocket := ws\<rparr>;
                 Some (ret, if ret = 0 then io\<lparr>readEvBuffer := drop frameSize (readEvBuffer io)\<rparr> else io) })"

subsection \<open>The frame loop\<close>

text \<open>What frame number \<open>k\<close> meets: is the node being released, what does its handler
(\<open>parseFrame\<close>) return, does the node still have its client instance, and what does the node
manager say of it afterwards?\<close>

record frame_env =
  f_releasing :: bool
  f_parse :: int
  f_instance :: bool
  f_check :: int

text \<open>What the handler is given: the type and, through the data pointer, the payload.\<close>

definition frame_view :: "byte list \<Rightarrow> WebSocketFrame \<Rightarrow> byte \<times> byte list option" where
  "frame_view frame fr =
    (frame_type fr, map_option (\<lambda>off. take (unat (data_length fr)) (drop off frame)) (data fr))"

text \<open>A frame that has been received: handed over and drained. \<open>Inl\<close> is a \<open>break\<close> with its result,
\<open>Inr\<close> the result and the size of the rest.\<close>

definition handle_frame :: "frame_env \<Rightarrow> byte list \<Rightarrow> WebSocketFrame \<Rightarrow> NodeIO \<Rightarrow> (int + int \<times> u64) \<times> NodeIO" where
  "handle_frame e frame wsFrame io =
    (if f_releasing e then (Inl (- InvalidStatusWhenReleasing), io)
     else
       let wsFrame = (if opCode (io_wsType io) = PONG then wsFrame\<lparr>frame_type := opCode (io_wsType io)\<rparr>
             else wsFrame);
           io = io\<lparr>delivered := delivered io @ [frame_view frame wsFrame]\<rparr>
       in if f_parse e \<noteq> 0 then (Inl (f_parse e), io)
          else if \<not> f_instance e then (Inl (- EventClientEmpty), io)
          else if f_check e \<noteq> Success then (Inl (f_check e), io)
          else
            let n = data_length wsFrame + ucast (headerSize (io_wsType io))
            in (Inr (sint (ucast n :: 32 word), of_nat (length (readEvBuffer io)) - n),
                io\<lparr>readEvBuffer := drop (unat n) (readEvBuffer io)\<rparr>))"

fun incoming_bytes :: "byte list option list \<Rightarrow> nat" where
  "incoming_bytes [] = 0"
| "incoming_bytes (None # rs) = incoming_bytes rs"
| "incoming_bytes (Some bs # rs) = length bs + incoming_bytes rs"

lemma nlsReceive_bytes:
  "length (readEvBuffer (snd (nlsReceive n io))) + incoming_bytes (incoming (snd (nlsReceive n io))) =
    length (readEvBuffer io) + incoming_bytes (incoming io)"
  by (auto simp: nlsReceive_def Let_def split: list.split option.split)

lemma nlsReceive_bytesD:
  "(r, io') = nlsReceive n io \<Longrightarrow>
    length (readEvBuffer io') + incoming_bytes (incoming io') = length (readEvBuffer io) + incoming_bytes (incoming io)"
  using nlsReceive_bytes [of n io] by (metis snd_conv)

lemma handle_frame_less:
  "(Inr (ret, cur), io') = handle_frame e frame fr io \<Longrightarrow> 0 < ret \<Longrightarrow> readEvBuffer io \<noteq> [] \<Longrightarrow>
    length (readEvBuffer io') < length (readEvBuffer io) \<and> incoming io' = incoming io"
proof -
  assume h: "(Inr (ret, cur), io') = handle_frame e frame fr io" and ret: "0 < ret" and ne: "readEvBuffer io \<noteq> []"
  obtain n :: u64 where n: "ret = sint (ucast n :: 32 word)" "readEvBuffer io' = drop (unat n) (readEvBuffer io)"
    "incoming io' = incoming io"
    using h [symmetric] by (auto simp: handle_frame_def Let_def split: if_splits)
  have "n \<noteq> 0" using n(1) ret by auto
  then have "0 < unat n" by (simp add: unat_gt_0)
  then show ?thesis using n(2,3) ne by simp
qed

text \<open>
  \<open>do { ... } while (eLoop)\<close>. In the case of a header that is not complete the code reads again and
  says \<open>continue\<close>, which in a \<open>do\<close> loop goes to the condition: the loop goes on only if a frame
  has been received before in this call.
\<close>

function response_loop :: "(nat \<Rightarrow> bool) \<Rightarrow> (nat \<Rightarrow> frame_env) \<Rightarrow> nat \<Rightarrow> bool \<Rightarrow> NodeIO \<Rightarrow> (int \<times> NodeIO) option" where
  "response_loop alloc env tryAgain eLoop io =
    (let frame = readEvBuffer io; frameSize = length frame
     in if frameSize = 0 then Some (0, io)
        else if ReadBufferSize < frameSize \<and> \<not> alloc (frameSize + 1) then Some (- ReallocFailed, io)
        else case receiveFullWebSocketFrame (webSocket io) frame (of_nat frameSize) (io_wsType io) empty_frame of
          None \<Rightarrow> None
        | Some (recv_ret, ws, frame, wsType, wsFrame) \<Rightarrow>
            let io = io\<lparr>webSocket := ws, io_wsType := wsType\<rparr>
            in if recv_ret = Success then
                 (case handle_frame (env (length (delivered io))) frame wsFrame io of
                    (Inl ret, io) \<Rightarrow> Some (ret, io)
                  | (Inr (ret, cur_data_size), io) \<Rightarrow>
                      if 0 < ret \<and> 0 < cur_data_size then response_loop alloc env 3 True io
                      else Some (ret, io))
               else if recv_ret = - InvalidWsFrameHeaderSize \<or> recv_ret = - InvalidWsFrameHeaderBody then
                 (if 0 < tryAgain then
                    (let (read_len, io) = nlsReceive ReadBufferSize io
                     in if read_len < 0 then Some (- NlsReceiveFailed, io)
                        else if eLoop then response_loop alloc env (tryAgain - 1) eLoop io
                        else Some (0, io))
                  else Some (0, io))
               else Some (0, io))"
  by pat_completeness auto
termination
proof (relation "measures [\<lambda>(alloc, env, tryAgain, eLoop, io).
      length (readEvBuffer io) + incoming_bytes (incoming io), \<lambda>(alloc, env, tryAgain, eLoop, io). tryAgain]",
    goal_cases)
  case 2
  then show ?case by (auto dest: handle_frame_less)
next
  case 3
  then show ?case by (auto dest: nlsReceive_bytesD)
qed simp

declare response_loop.simps [simp del]

definition webSocketResponse :: "(nat \<Rightarrow> bool) \<Rightarrow> bool \<Rightarrow> (nat \<Rightarrow> frame_env) \<Rightarrow> NodeIO \<Rightarrow> (int \<times> NodeIO) option" where
  "webSocketResponse alloc releasing env io =
    (if releasing then Some (- InvalidStatusWhenReleasing, io)
     else if \<not> alloc ReadBufferSize then Some (0, io)
     else
       let (read_len, io) = nlsReceive ReadBufferSize io
       in if read_len < 0 then Some (- NlsReceiveFailed, io)
          else if read_len = 0 then Some (0, io)
          else response_loop alloc env 3 False io)"

section \<open>Streams of frames\<close>

text \<open>Data frames as a server sends them, small enough for the \<open>int\<close> the loop returns, and the bytes
a node has and will get.\<close>

definition data_frame :: "byte \<times> byte list \<Rightarrow> bool" where
  "data_frame f \<longleftrightarrow> fst f \<in> {CONTINUATION, TEXT_FRAME, BINARY_FRAME} \<and> snd f \<noteq> [] \<and>
    length (rfc_encode (fst f) (snd f)) < 2 ^ 31"

definition stream_of :: "(byte \<times> byte list) list \<Rightarrow> byte list" where
  "stream_of fs = concat (map (\<lambda>f. rfc_encode (fst f) (snd f)) fs)"

lemma stream_of_simps [simp]: "stream_of [] = []" "stream_of (f # fs) = rfc_encode (fst f) (snd f) @ stream_of fs"
  by (simp_all add: stream_of_def)

fun arriving :: "byte list option list \<Rightarrow> byte list" where
  "arriving [] = []"
| "arriving (None # rs) = arriving rs"
| "arriving (Some bs # rs) = bs @ arriving rs"

definition pending :: "NodeIO \<Rightarrow> byte list" where
  "pending io = readEvBuffer io @ arriving (incoming io)"

lemma nlsReceive_pending:
  assumes "nlsReceive n io = (r, io')"
  shows "pending io' = pending io" "webSocket io' = webSocket io" "io_wsType io' = io_wsType io"
    "delivered io' = delivered io" "\<exists>got. readEvBuffer io' = readEvBuffer io @ got"
  using assms by (auto simp: nlsReceive_def pending_def Let_def split: list.splits option.splits)

text \<open>The receiver stands in front of the bytes of \<open>fs\<close>: the bytes pending are the beginning of their
stream, and on the buffer or more of the stream the receiver does what a fresh one does.\<close>

definition fresh_for :: "byte list \<Rightarrow> nat \<Rightarrow> WebSocketTcp \<Rightarrow> WebSocketHeaderType \<Rightarrow> bool" where
  "fresh_for stream lo ws h \<longleftrightarrow> (\<exists>ws0 h0. rStatus ws0 = WsHeadSize \<and>
    (\<forall>m. lo \<le> m \<longrightarrow> m \<le> length stream \<longrightarrow>
      receiveFullWebSocketFrame ws (take m stream) (of_nat m) h empty_frame =
      receiveFullWebSocketFrame ws0 (take m stream) (of_nat m) h0 empty_frame))"

definition synced :: "(byte \<times> byte list) list \<Rightarrow> NodeIO \<Rightarrow> bool" where
  "synced fs io \<longleftrightarrow> list_all data_frame fs \<and> length (stream_of fs) < 2 ^ 64 \<and>
    (\<exists>more. pending io @ more = stream_of fs) \<and>
    fresh_for (stream_of fs) (length (readEvBuffer io)) (webSocket io) (io_wsType io)"

lemma fresh_forI: "rStatus ws = WsHeadSize \<Longrightarrow> fresh_for stream lo ws h"
  unfolding fresh_for_def by blast

lemma fresh_for_mono: "fresh_for stream lo ws h \<Longrightarrow> lo \<le> lo' \<Longrightarrow> fresh_for stream lo' ws h"
  unfolding fresh_for_def by (meson order_trans)

lemma synced_receive:
  assumes "synced fs io" "nlsReceive n io = (r, io')"
  shows "synced fs io'"
proof -
  from nlsReceive_pending [OF assms(2)] obtain got where got: "readEvBuffer io' = readEvBuffer io @ got"
    and eq: "pending io' = pending io" "webSocket io' = webSocket io" "io_wsType io' = io_wsType io" by blast
  have "length (readEvBuffer io) \<le> length (readEvBuffer io')" using got by simp
  from fresh_for_mono [OF _ this] show ?thesis using assms(1) eq by (simp add: synced_def)
qed

text \<open>The receiver on a synced buffer: the first frame, when it is there, or a complaint.\<close>

lemma synced_step:
  assumes "synced (f # fs) io"
  defines "b \<equiv> readEvBuffer io" and "sh \<equiv> server_header (fst f) (length (snd f))"
  defines "r \<equiv> receiveFullWebSocketFrame (webSocket io) b (of_nat (length b)) (io_wsType io) empty_frame"
  shows "length (rfc_encode (fst f) (snd f)) \<le> length b \<Longrightarrow>
      \<exists>ws. rStatus ws = WsHeadSize \<and> r = Some (Success, ws, b, sh, server_frame (fst f) (snd f))"
    "length b < length (rfc_encode (fst f) (snd f)) \<Longrightarrow>
      \<exists>ret ws h. ret < 0 \<and> r = Some (ret, ws, b, h, empty_frame) \<and>
        synced (f # fs) (io\<lparr>webSocket := ws, io_wsType := h\<rparr>)"
proof -
  let ?s = "stream_of (f # fs)" and ?t = "length (rfc_encode (fst f) (snd f))"
  obtain more where more: "pending io @ more = ?s" using assms(1) by (auto simp: synced_def)
  then have b: "take (length b) ?s = b" "length b \<le> length ?s"
    unfolding more [symmetric] by (simp_all add: b_def pending_def)
  have small: "length ?s < 2 ^ 64" using assms(1) by (simp add: synced_def)
  have f: "fst f \<in> {CONTINUATION, TEXT_FRAME, BINARY_FRAME}" "snd f \<noteq> []" "length (snd f) < 2 ^ 63"
    using assms(1) by (auto simp: synced_def data_frame_def length_rfc_encode)
  obtain ws0 h0 where ws0: "rStatus ws0 = WsHeadSize"
    "\<And>m. length b \<le> m \<Longrightarrow> m \<le> length ?s \<Longrightarrow>
      receiveFullWebSocketFrame (webSocket io) (take m ?s) (of_nat m) (io_wsType io) empty_frame =
      receiveFullWebSocketFrame ws0 (take m ?s) (of_nat m) h0 empty_frame"
    using assms(1) unfolding synced_def fresh_for_def b_def by blast
  have r: "r = receiveFullWebSocketFrame ws0 b (of_nat (length b)) h0 empty_frame"
    using ws0(2) [OF order_refl b(2)] b(1) unfolding r_def by simp
  have u: "unat (of_nat (length b) :: u64) = length b" using b(2) small by (simp add: unat_of_nat take_bit_eq_mod)
  show "\<exists>ws. rStatus ws = WsHeadSize \<and> r = Some (Success, ws, b, sh, server_frame (fst f) (snd f))"
    if le: "?t \<le> length b"
  proof -
    have bs: "b = rfc_encode (fst f) (snd f) @ take (length b - ?t) (stream_of fs)" using b(1) le by simp
    have pos: "0 < length (snd f)" using f(2) by simp
    have lens: "unat (headerSize sh) < unat (of_nat (length b) :: u64)"
      "unat (headerSize sh) + length (snd f) \<le> unat (of_nat (length b) :: u64)"
      using le pos unfolding length_rfc_encode sh_def u by linarith+
    from server_receive(2) [OF f(1,3) ws0(1) bs refl, folded sh_def, OF lens] show ?thesis
      unfolding r sh_def using ws0(1) by (intro exI [of _ ws0]) simp
  qed
  show "\<exists>ret ws h. ret < 0 \<and> r = Some (ret, ws, b, h, empty_frame) \<and>
        synced (f # fs) (io\<lparr>webSocket := ws, io_wsType := h\<rparr>)"
    if lt: "length b < ?t"
  proof -
    have s: "?s = rfc_encode (fst f) (snd f) @ stream_of fs" by simp
    have "unat (of_nat (length b) :: u64) \<le> unat (headerSize sh) \<or>
        unat (of_nat (length b) :: u64) < unat (headerSize sh) + length (snd f)"
      using lt u by (simp add: length_rfc_encode sh_def)
    from server_receive(1) [OF f(1,3) ws0(1) s refl, folded sh_def, OF this, of h0]
    obtain ret ws h where neg: "ret < 0"
      "receiveFullWebSocketFrame ws0 ?s (of_nat (length b)) h0 empty_frame = Some (ret, ws, ?s, h, empty_frame)"
      by blast
    have rb: "receiveFullWebSocketFrame ws0 b (of_nat (length b)) h0 empty_frame = Some (ret, ws, b, h, empty_frame)"
      by (rule receive_negative_cong [OF neg(2,1) ws0(1)]) (use b u in simp_all)
    have "fresh_for ?s (length b) ws h"
      unfolding fresh_for_def
    proof (intro exI conjI allI impI)
      fix m assume m: "length b \<le> m" "m \<le> length ?s"
      have "receiveFullWebSocketFrame ws0 (take (length b) ?s) (of_nat (length b)) h0 empty_frame =
          Some (ret, ws, b, h, empty_frame)" using rb b(1) by simp
      from receive_prefix [OF b(2) small ws0(1) this neg(1) m]
      show "receiveFullWebSocketFrame ws (take m ?s) (of_nat m) h empty_frame =
          receiveFullWebSocketFrame ws0 (take m ?s) (of_nat m) h0 empty_frame" .
    qed (rule ws0(1))
    then have "synced (f # fs) (io\<lparr>webSocket := ws, io_wsType := h\<rparr>)"
      using assms(1) by (simp add: synced_def pending_def b_def)
    then show ?thesis using neg(1) rb r by blast
  qed
qed

text \<open>A frame is handed over whole, and exactly its bytes are drained.\<close>

lemma handle_server_frame:
  assumes f: "data_frame f" and b: "readEvBuffer io = rfc_encode (fst f) (snd f) @ rest"
    and len: "length (readEvBuffer io) < 2 ^ 64"
    and h: "io_wsType io = server_header (fst f) (length (snd f))"
    and e: "\<not> f_releasing e" "f_parse e = 0" "f_instance e" "f_check e = Success"
  shows "\<exists>ret cur. handle_frame e (readEvBuffer io) (server_frame (fst f) (snd f)) io =
    (Inr (ret, cur), io\<lparr>delivered := delivered io @ [(fst f, Some (snd f))], readEvBuffer := rest\<rparr>) \<and>
    ret = int (length (rfc_encode (fst f) (snd f))) \<and> 0 < ret \<and> (0 < cur \<longleftrightarrow> rest \<noteq> [])"
proof -
  let ?sh = "server_header (fst f) (length (snd f))" and ?fr = "server_frame (fst f) (snd f)"
  let ?t = "length (rfc_encode (fst f) (snd f))"
  define n where "n = data_length ?fr + ucast (headerSize ?sh)"
  have small: "length (snd f) < 2 ^ 63" "?t < 2 ^ 31" using f by (auto simp: data_frame_def length_rfc_encode)
  have op: "fst f \<noteq> PONG" "opCode ?sh = fst f" using f by (auto simp: data_frame_def server_header_def)
  have len_fr: "data_length ?fr = of_nat (length (snd f))" "data_length ?fr = N ?sh"
    by (simp_all add: server_frame_def server_header_def)
  have nt: "unat n = ?t"
    using unat_frame_total [OF small(1), of "fst f"] len_fr by (simp add: n_def length_rfc_encode add.commute)
  have view: "frame_view (readEvBuffer io) ?fr = (fst f, Some (snd f))"
  proof -
    have "unat (data_length ?fr) = length (snd f)"
      using small(1) by (simp add: server_frame_def unat_of_nat take_bit_eq_mod)
    moreover have "drop (unat (headerSize ?sh)) (rfc_encode (fst f) (snd f)) = snd f"
      by (simp add: rfc_encode_def rfc_length_def unat_server_headerSize)
    ultimately show ?thesis using b by (simp add: frame_view_def server_frame_def length_rfc_encode)
  qed
  have "unat (ucast n :: 32 word) = ?t"
    using nt small(2) by (simp add: unsigned_ucast_eq take_bit_nat_eq_self_iff)
  then have u: "uint (ucast n :: 32 word) = int ?t" by (simp only: uint_nat)
  have ret: "sint (ucast n :: 32 word) = int ?t"
    using small(2) unfolding sint_uint u by (simp add: signed_take_bit_int_eq_self)
  have cur: "0 < of_nat (length (readEvBuffer io)) - n \<longleftrightarrow> rest \<noteq> []"
  proof -
    have "unat (of_nat (length (readEvBuffer io)) :: u64) = length (readEvBuffer io)"
      using len by (simp add: unat_of_nat take_bit_eq_mod)
    then have "of_nat (length (readEvBuffer io)) = n \<longleftrightarrow> length (readEvBuffer io) = ?t"
      using nt by (auto simp: word_unat_eq_iff)
    then have "of_nat (length (readEvBuffer io)) - n = 0 \<longleftrightarrow> rest = []" using b by auto
    then show ?thesis by (simp add: word_gt_0)
  qed
  have "0 < ?t" by (simp add: rfc_encode_def)
  then show ?thesis
    using e op view ret cur nt b h unfolding n_def
    by (simp add: handle_frame_def Let_def)
qed

definition good_env :: "frame_env \<Rightarrow> bool" where
  "good_env e \<longleftrightarrow> \<not> f_releasing e \<and> f_parse e = 0 \<and> f_instance e \<and> f_check e = Success"

text \<open>The first frame of \<open>fs\<close> is not all there.\<close>

definition starved :: "(byte \<times> byte list) list \<Rightarrow> NodeIO \<Rightarrow> bool" where
  "starved fs io \<longleftrightarrow> (case fs of [] \<Rightarrow> True
    | f # _ \<Rightarrow> length (readEvBuffer io) < length (rfc_encode (fst f) (snd f)))"

text \<open>What a call does with the frames \<open>fs\<close>: it has delivered the first \<open>k\<close> of them.\<close>

definition progress :: "(byte \<times> byte list) list \<Rightarrow> NodeIO \<Rightarrow> nat \<Rightarrow> NodeIO \<Rightarrow> bool" where
  "progress fs io k io' \<longleftrightarrow> k \<le> length fs \<and>
    delivered io' = delivered io @ map (\<lambda>f. (fst f, Some (snd f))) (take k fs) \<and>
    pending io = stream_of (take k fs) @ pending io' \<and> synced (drop k fs) io'"

lemma synced_nil: "synced [] io \<Longrightarrow> readEvBuffer io = []"
  by (auto simp: synced_def pending_def)

lemma progress_0: "progress fs io 0 io' \<longleftrightarrow> delivered io' = delivered io \<and> pending io' = pending io \<and> synced fs io'"
  by (auto simp: progress_def)

lemma progress_Suc:
  assumes "delivered io1 = delivered io @ [(fst f, Some (snd f))]" "pending io = rfc_encode (fst f) (snd f) @ pending io1"
    "progress fs io1 k io'"
  shows "progress (f # fs) io (Suc k) io'"
  using assms by (simp add: progress_def)

text \<open>One frame in front of the buffer.\<close>

lemma loop_frame:
  assumes s: "synced (f # fs) io" and le: "length (rfc_encode (fst f) (snd f)) \<le> length (readEvBuffer io)"
    and e: "good_env (env (length (delivered io)))" and alloc: "\<forall>n. alloc n"
  shows "\<exists>io1. delivered io1 = delivered io @ [(fst f, Some (snd f))] \<and> incoming io1 = incoming io \<and>
    pending io = rfc_encode (fst f) (snd f) @ pending io1 \<and> synced fs io1 \<and>
    response_loop alloc env tryAgain eLoop io =
      (if readEvBuffer io1 \<noteq> [] then response_loop alloc env 3 True io1
       else Some (int (length (rfc_encode (fst f) (snd f))), io1))"
proof -
  let ?b = "readEvBuffer io" and ?enc = "rfc_encode (fst f) (snd f)"
  obtain ws where ws: "rStatus ws = WsHeadSize"
    "receiveFullWebSocketFrame (webSocket io) ?b (of_nat (length ?b)) (io_wsType io) empty_frame =
      Some (Success, ws, ?b, server_header (fst f) (length (snd f)), server_frame (fst f) (snd f))"
    using synced_step(1) [OF s le] by blast
  obtain more where more: "pending io @ more = stream_of (f # fs)" using s by (auto simp: synced_def)
  then have "take (length ?b) (stream_of (f # fs)) = ?b" unfolding more [symmetric] by (simp add: pending_def)
  then have "take (length ?enc) ?b = ?enc" using le
    by (metis append_eq_conv_conj min.absorb1 stream_of_simps(2) take_take)
  then obtain rest where b: "?b = ?enc @ rest" by (metis append_take_drop_id)
  have small: "length (stream_of (f # fs)) < 2 ^ 64" "list_all data_frame (f # fs)" using s by (simp_all add: synced_def)
  have "length ?b \<le> length (stream_of (f # fs))" unfolding more [symmetric] by (simp add: pending_def)
  then have len: "length ?b < 2 ^ 64" using small(1) by linarith
  let ?io = "io\<lparr>webSocket := ws, io_wsType := server_header (fst f) (length (snd f))\<rparr>"
  define io1 where "io1 = ?io\<lparr>delivered := delivered io @ [(fst f, Some (snd f))], readEvBuffer := rest\<rparr>"
  obtain ret cur where h: "handle_frame (env (length (delivered io))) ?b (server_frame (fst f) (snd f)) ?io =
      (Inr (ret, cur), io1)" "ret = int (length ?enc)" "0 < ret" "0 < cur \<longleftrightarrow> rest \<noteq> []"
  proof -
    have f: "data_frame f" using small(2) by simp
    have io: "readEvBuffer ?io = ?enc @ rest" "length (readEvBuffer ?io) < 2 ^ 64"
      "io_wsType ?io = server_header (fst f) (length (snd f))" using b len by simp_all
    note e' = e [unfolded good_env_def]
    have "io1 = ?io\<lparr>delivered := delivered ?io @ [(fst f, Some (snd f))], readEvBuffer := rest\<rparr>" by (simp add: io1_def)
    then show thesis
      using handle_server_frame [OF f io e' [THEN conjunct1] e' [THEN conjunct2, THEN conjunct1]
          e' [THEN conjunct2, THEN conjunct2, THEN conjunct1] e' [THEN conjunct2, THEN conjunct2, THEN conjunct2]] that
      by auto
  qed
  have "?b \<noteq> []" using le by (auto simp: rfc_encode_def)
  then have loop: "response_loop alloc env tryAgain eLoop io =
      (if readEvBuffer io1 \<noteq> [] then response_loop alloc env 3 True io1 else Some (int (length ?enc), io1))"
    using ws(2) h alloc by (simp add: response_loop.simps [of alloc env tryAgain eLoop io] Let_def io1_def)
  have pend: "pending io = ?enc @ pending io1" using b by (simp add: pending_def io1_def)
  have "synced fs io1"
    using small more pend ws(1) by (auto simp: synced_def io1_def intro: fresh_forI)
  then show ?thesis using loop pend by (intro exI [of _ io1]) (simp add: io1_def)
qed

text \<open>A frame that is not all there.\<close>

lemma loop_short:
  assumes s: "synced (f # fs) io" and lt: "length (readEvBuffer io) < length (rfc_encode (fst f) (snd f))"
    and ne: "readEvBuffer io \<noteq> []" and alloc: "\<forall>n. alloc n"
  shows "\<exists>io2. synced (f # fs) io2 \<and> readEvBuffer io2 = readEvBuffer io \<and> incoming io2 = incoming io \<and>
    delivered io2 = delivered io \<and>
    (response_loop alloc env tryAgain eLoop io = Some (0, io2) \<or>
     0 < tryAgain \<and> response_loop alloc env tryAgain eLoop io =
       (let (read_len, io3) = nlsReceive ReadBufferSize io2
        in if read_len < 0 then Some (- NlsReceiveFailed, io3)
           else if eLoop then response_loop alloc env (tryAgain - 1) eLoop io3
           else Some (0, io3)))"
proof -
  let ?b = "readEvBuffer io"
  obtain ret ws h where r: "ret < 0" "receiveFullWebSocketFrame (webSocket io) ?b (of_nat (length ?b)) (io_wsType io)
      empty_frame = Some (ret, ws, ?b, h, empty_frame)" "synced (f # fs) (io\<lparr>webSocket := ws, io_wsType := h\<rparr>)"
    using synced_step(2) [OF s lt] by blast
  let ?io = "io\<lparr>webSocket := ws, io_wsType := h\<rparr>"
  have "response_loop alloc env tryAgain eLoop io = (if (ret = - InvalidWsFrameHeaderSize \<or> ret = - InvalidWsFrameHeaderBody) \<and> 0 < tryAgain
      then (let (read_len, io3) = nlsReceive ReadBufferSize ?io
        in if read_len < 0 then Some (- NlsReceiveFailed, io3)
           else if eLoop then response_loop alloc env (tryAgain - 1) eLoop io3
           else Some (0, io3)) else Some (0, ?io))"
    using r(1,2) ne alloc by (simp add: response_loop.simps [of alloc env tryAgain eLoop io] Let_def)
  then show ?thesis using r(3) by (intro exI [of _ ?io]) (auto split: if_splits)
qed

definition served :: "(byte \<times> byte list) list \<Rightarrow> NodeIO \<Rightarrow> bool \<Rightarrow> (int \<times> NodeIO) option \<Rightarrow> bool" where
  "served fs io full res \<longleftrightarrow> (\<exists>ret io' k. res = Some (ret, io') \<and> progress fs io k io' \<and>
    (0 \<le> ret \<or> ret = - NlsReceiveFailed) \<and>
    (full \<longrightarrow> ret = - NlsReceiveFailed \<or> starved (drop k fs) io'))"

lemma served_stop:
  "synced fs io' \<Longrightarrow> pending io' = pending io \<Longrightarrow> delivered io' = delivered io \<Longrightarrow> 0 \<le> ret \<or> ret = - NlsReceiveFailed \<Longrightarrow>
    (full \<Longrightarrow> ret = - NlsReceiveFailed \<or> starved fs io') \<Longrightarrow> served fs io full (Some (ret, io'))"
  unfolding served_def using progress_0 by (intro exI [of _ ret] exI [of _ io'] exI [of _ 0]) auto

lemma served_from:
  "pending io1 = pending io \<Longrightarrow> delivered io1 = delivered io \<Longrightarrow> served fs io1 full res \<Longrightarrow> served fs io full res"
  by (simp add: served_def progress_def)

lemma served_Suc:
  assumes "delivered io1 = delivered io @ [(fst f, Some (snd f))]" "pending io = rfc_encode (fst f) (snd f) @ pending io1"
    "served fs io1 True res"
  shows "served (f # fs) io full res"
  using assms(3) progress_Suc [OF assms(1,2)] unfolding served_def by (metis drop_Suc_Cons)

lemma starved_empty: "readEvBuffer io = [] \<Longrightarrow> starved fs io"
  by (simp add: starved_def rfc_encode_def split: list.split)

lemma loop_served:
  assumes env: "\<forall>k. good_env (env k)" and alloc: "\<forall>n. alloc n"
  shows "synced fs io \<Longrightarrow> served fs io (eLoop \<or> \<not> starved fs io) (response_loop alloc env tryAgain eLoop io)"
proof (induction fs arbitrary: io eLoop tryAgain)
  case Nil
  then have "readEvBuffer io = []" by (rule synced_nil)
  then show ?case using Nil starved_empty by (auto simp: response_loop.simps intro!: served_stop)
next
  case (Cons f fs)
  let ?enc = "rfc_encode (fst f) (snd f)"
  note outer = Cons.IH
  from Cons.prems show ?case
  proof (induction tryAgain arbitrary: io rule: less_induct)
    case (less tryAgain io)
    consider "readEvBuffer io = []" | "length ?enc \<le> length (readEvBuffer io)"
      | "readEvBuffer io \<noteq> []" "length (readEvBuffer io) < length ?enc" by linarith
    then show ?case
    proof cases
      case 1
      then show ?thesis using less.prems starved_empty by (auto simp: response_loop.simps intro!: served_stop)
    next
      case 2
      have e: "good_env (env (length (delivered io)))" using env by simp
      from loop_frame [where env = env and tryAgain = tryAgain and eLoop = eLoop, OF less.prems 2 e alloc]
      obtain io1 where io1:
        "delivered io1 = delivered io @ [(fst f, Some (snd f))]" "pending io = ?enc @ pending io1" "synced fs io1"
        "response_loop alloc env tryAgain eLoop io = (if readEvBuffer io1 \<noteq> [] then response_loop alloc env 3 True io1
          else Some (int (length ?enc), io1))" by blast
      have "served fs io1 True (response_loop alloc env tryAgain eLoop io)"
        using outer [OF io1(3), of True 3] io1(3,4) starved_empty [of io1 fs] by (auto intro!: served_stop)
      then show ?thesis by (rule served_Suc [OF io1(1,2)])
    next
      case 3
      then have starved: "starved (f # fs) io" by (simp add: starved_def)
      from loop_short [where env = env and tryAgain = tryAgain and eLoop = eLoop, OF less.prems 3(2,1) alloc]
      obtain io2 where io2: "synced (f # fs) io2"
        "readEvBuffer io2 = readEvBuffer io" "incoming io2 = incoming io" "delivered io2 = delivered io"
        "response_loop alloc env tryAgain eLoop io = Some (0, io2) \<or>
         0 < tryAgain \<and> response_loop alloc env tryAgain eLoop io =
           (let (read_len, io3) = nlsReceive ReadBufferSize io2
            in if read_len < 0 then Some (- NlsReceiveFailed, io3)
               else if eLoop then response_loop alloc env (tryAgain - 1) eLoop io3
               else Some (0, io3))" by blast
      have p2: "pending io2 = pending io" using io2 by (simp add: pending_def)
      obtain read_len io3 where io3: "nlsReceive ReadBufferSize io2 = (read_len, io3)" by fastforce
      note r3 = nlsReceive_pending [OF io3]
      have s3: "synced (f # fs) io3" by (rule synced_receive [OF io2(1) io3])
      from io2(5) show ?thesis
      proof (elim disjE conjE)
        assume "response_loop alloc env tryAgain eLoop io = Some (0, io2)"
        then show ?thesis using io2 p2 starved by (auto simp: starved_def intro!: served_stop)
      next
        assume pos: "0 < tryAgain" and loop: "response_loop alloc env tryAgain eLoop io =
           (let (read_len, io3) = nlsReceive ReadBufferSize io2
            in if read_len < 0 then Some (- NlsReceiveFailed, io3)
               else if eLoop then response_loop alloc env (tryAgain - 1) eLoop io3
               else Some (0, io3))"
        consider "read_len < 0" | "0 \<le> read_len" "eLoop" | "0 \<le> read_len" "\<not> eLoop" by linarith
        then show ?thesis
        proof cases
          case 2
          have "served (f # fs) io3 True (response_loop alloc env (tryAgain - 1) eLoop io3)"
            using less.IH [of "tryAgain - 1" io3] pos s3 2(2) by simp
          then show ?thesis using 2 loop io3 r3 p2 io2(4) by (auto intro: served_from)
        qed (use loop io3 r3 s3 p2 io2(4) starved in \<open>auto intro!: served_stop\<close>)
      qed
    qed
  qed
qed

text \<open>C7: receiving delivers the frames of the stream in order, each once and whole, however the bytes
arrive. Take a node whose pending bytes (buffered or still to be read, in pieces of any size,
with failing reads in between) are the beginning of a stream of data frames. A call of
\<open>webSocketResponse\<close> returns (its loop ends), has handed a number of frames from the front to the
handler with exactly their types and payloads, has drained exactly their bytes, and leaves the
node ready for the rest of the stream. It returns a negative result only when a read failed; and
when its first read completes the first frame, it stops only after a failed read or when no
complete frame is left in the buffer.\<close>

theorem webSocketResponse_delivers:
  assumes "synced fs io" "\<forall>k. good_env (env k)" "\<forall>n. alloc n"
  shows "\<exists>ret io' k. webSocketResponse alloc False env io = Some (ret, io') \<and> k \<le> length fs \<and>
    delivered io' = delivered io @ map (\<lambda>f. (fst f, Some (snd f))) (take k fs) \<and>
    pending io = stream_of (take k fs) @ pending io' \<and> synced (drop k fs) io' \<and>
    (0 \<le> ret \<or> ret = - NlsReceiveFailed) \<and>
    (0 < fst (nlsReceive ReadBufferSize io) \<and> \<not> starved fs (snd (nlsReceive ReadBufferSize io)) \<longrightarrow>
      ret = - NlsReceiveFailed \<or> starved (drop k fs) io')"
proof -
  obtain n io1 where io1: "nlsReceive ReadBufferSize io = (n, io1)" by fastforce
  note r = nlsReceive_pending [OF io1]
  have s1: "synced fs io1" by (rule synced_receive [OF assms(1) io1])
  have "served fs io1 (\<not> starved fs io1) (response_loop alloc env 3 False io1)"
    using loop_served [OF assms(2,3) s1, of False 3] by simp
  then have loop: "served fs io (\<not> starved fs io1) (response_loop alloc env 3 False io1)"
    by (rule served_from [OF r(1,4)])
  have "served fs io (0 < n \<and> \<not> starved fs io1) (webSocketResponse alloc False env io)"
  proof (cases "0 < n")
    case True
    then show ?thesis using loop assms(3) io1 by (simp add: webSocketResponse_def)
  next
    case False
    then have "webSocketResponse alloc False env io = Some (if n < 0 then - NlsReceiveFailed else 0, io1)"
      using assms(3) io1 by (simp add: webSocketResponse_def)
    then show ?thesis using False s1 r(1,4) by (auto intro!: served_stop)
  qed
  then show ?thesis using io1 by (auto simp: served_def progress_def)
qed

definition ex_io :: "byte list option list \<Rightarrow> NodeIO" where
  "ex_io reads = \<lparr>readEvBuffer = [], webSocket = WebSocketTcp_init, io_wsType = header_init,
     incoming = reads, delivered = []\<rparr>"

definition ex_frame_env :: "nat \<Rightarrow> frame_env" where
  "ex_frame_env k = \<lparr>f_releasing = False, f_parse = 0, f_instance = True, f_check = Success\<rparr>"

lemma ex_io_synced:
  "list_all data_frame fs \<Longrightarrow> length (stream_of fs) < 2 ^ 64 \<Longrightarrow> arriving reads @ beyond = stream_of fs \<Longrightarrow>
    synced fs (ex_io reads)"
  by (auto simp: synced_def ex_io_def pending_def WebSocketTcp_init_def intro: fresh_forI)

text \<open>Two frames in three reads: the first call delivers the first frame and keeps the beginning of the
second.\<close>

theorem webSocketResponse_delivers_witness:
  "\<exists>ret io' k. webSocketResponse (\<lambda>_. True) False ex_frame_env
      (ex_io [Some [0x81, 2, 0x68, 0x69, 0x82], Some [1], Some [7]]) = Some (ret, io') \<and> k \<le> 2 \<and>
    delivered io' = map (\<lambda>f. (fst f, Some (snd f))) (take k [(1, [0x68, 0x69]), (2, [7])])"
proof -
  let ?fs = "[(1, [0x68, 0x69]), (2, [7])] :: (byte \<times> byte list) list"
  let ?io = "ex_io [Some [0x81, 2, 0x68, 0x69, 0x82], Some [1], Some [7]]"
  have enc: "rfc_encode 1 [0x68, 0x69] = [0x81, 2, 0x68, 0x69]" "rfc_encode 2 [7] = [0x82, 1, 7]"
    by (simp_all add: rfc_encode_def rfc_length_def)
  have "synced ?fs ?io" by (rule ex_io_synced [where beyond = "[]"]) (simp_all add: enc data_frame_def)
  moreover have "\<forall>k. good_env (ex_frame_env k)" by (simp add: good_env_def ex_frame_env_def)
  ultimately obtain ret io' k where r: "webSocketResponse (\<lambda>_. True) False ex_frame_env ?io = Some (ret, io')"
    "k \<le> length ?fs" "delivered io' = delivered ?io @ map (\<lambda>f. (fst f, Some (snd f))) (take k ?fs)"
    using webSocketResponse_delivers [of ?fs ?io ex_frame_env "\<lambda>_. True"] by blast
  have "k \<le> 2" "delivered ?io = []" using r(2) by (simp_all add: ex_io_def)
  then show ?thesis using r(1,3) by (intro exI [of _ ret] exI [of _ io'] exI [of _ k]) simp
qed

text \<open>Bytes that complete a frame can be left lying. When the first read of a call ends inside a
frame's header, the loop reads once more, but its \<open>continue\<close> leaves the loop: the frame that has
just been completed is not looked at, the call reports success with nothing delivered, and the
next calls return at once as long as the peer sends nothing more. The same bytes in one read are
delivered.\<close>

theorem response_retry_stalls:
  "do { (ret1, io) \<leftarrow> webSocketResponse (\<lambda>_. True) False ex_frame_env (ex_io [Some [0x81], Some [2, 0x68, 0x69]]);
        (ret2, io) \<leftarrow> webSocketResponse (\<lambda>_. True) False ex_frame_env io;
        Some (ret1, ret2, readEvBuffer io, incoming io, delivered io) } =
     Some (0, 0, [0x81, 2, 0x68, 0x69], [], []) \<and>
   do { (ret1, io) \<leftarrow> webSocketResponse (\<lambda>_. True) False ex_frame_env (ex_io [Some [0x81, 2, 0x68, 0x69]]);
        Some (ret1, readEvBuffer io, delivered io) } = Some (4, [], [(1, Some [0x68, 0x69])])"
proof (rule conjI)
  show "do { (ret1, io) \<leftarrow> webSocketResponse (\<lambda>_. True) False ex_frame_env (ex_io [Some [0x81], Some [2, 0x68, 0x69]]);
        (ret2, io) \<leftarrow> webSocketResponse (\<lambda>_. True) False ex_frame_env io;
        Some (ret1, ret2, readEvBuffer io, incoming io, delivered io) } =
     Some (0, 0, [0x81, 2, 0x68, 0x69], [], [])"
    by (simp add: webSocketResponse_def ex_io_def nlsReceive_def response_loop.simps receive_defs
        decodeHeaderSizeWebSocketFrame_def WebSocketTcp_init_def)
  show "do { (ret1, io) \<leftarrow> webSocketResponse (\<lambda>_. True) False ex_frame_env (ex_io [Some [0x81, 2, 0x68, 0x69]]);
        Some (ret1, readEvBuffer io, delivered io) } = Some (4, [], [(1, Some [0x68, 0x69])])"
    by (simp add: webSocketResponse_def ex_io_def nlsReceive_def response_loop.simps receive_defs
        decodeHeaderSizeWebSocketFrame_def decodeHeaderBodyWebSocketFrame_def decodeFrameBodyWebSocketFrame_def
        WebSocketTcp_init_def header_init_def empty_frame_def handle_frame_def frame_view_def ex_frame_env_def)
qed

section \<open>Sending all of it\<close>

text \<open>Calls of \<open>nlsSendFrame\<close> one after the other, one for each behaviour of the layer below: what the
peer has got and what is left.\<close>

fun send_run :: "(byte list \<Rightarrow> int) list \<Rightarrow> byte list \<Rightarrow> byte list \<times> byte list" where
  "send_run [] buf = ([], buf)"
| "send_run (w # ws) buf =
     (let (ret, rest, sent) = nlsSendFrame w True buf; (sent', left) = send_run ws rest in (sent @ sent', left))"

lemma nlsSendFrame_split:
  "nlsSendFrame w e buf = (ret, rest, sent) \<Longrightarrow> sent @ rest = buf"
  by (auto simp: nlsSendFrame_def Let_def split: if_splits)

lemma nlsSendFrame_less:
  assumes "nlsSendFrame w e buf = (ret, rest, sent)" "buf \<noteq> []" "\<forall>b. b \<noteq> [] \<longrightarrow> 0 < w b"
  shows "length rest < length buf"
proof -
  have "take NodeFrameSize buf \<noteq> []" using assms(2) by simp
  then have "0 < nlsSend w (take NodeFrameSize buf)" using assms(3) by (simp add: nlsSend_def)
  then show ?thesis using assms(1,2) by (auto simp: nlsSendFrame_def Let_def split: if_splits)
qed

text \<open>C23: the output buffer is sent completely and in order. Whatever the layer below accepts of each
piece of at most 2048 bytes (all of it, a part, nothing, or an error), the bytes the peer has got
followed by those still in the buffer are the bytes that were to be sent; and if every call is
able to send something, as many calls as there are bytes empty the buffer.\<close>

theorem nlsSendFrame_in_order:
  assumes "\<forall>w\<in>set ws. \<forall>b. w b \<le> int (length b)"
  shows "fst (send_run ws buf) @ snd (send_run ws buf) = buf \<and>
    ((\<forall>w\<in>set ws. \<forall>b. b \<noteq> [] \<longrightarrow> 0 < w b) \<and> length buf \<le> length ws \<longrightarrow> snd (send_run ws buf) = [])"
  using assms
proof (induction ws arbitrary: buf)
  case (Cons w ws)
  obtain ret rest sent where r: "nlsSendFrame w True buf = (ret, rest, sent)" by (metis prod_cases3)
  have ih: "fst (send_run ws rest) @ snd (send_run ws rest) = rest \<and>
      ((\<forall>w\<in>set ws. \<forall>b. b \<noteq> [] \<longrightarrow> 0 < w b) \<and> length rest \<le> length ws \<longrightarrow> snd (send_run ws rest) = [])"
    using Cons by simp
  have "length rest \<le> length ws" if "length buf \<le> length (w # ws)" "\<forall>b. b \<noteq> [] \<longrightarrow> 0 < w b"
    using nlsSendFrame_less [OF r _ that(2)] nlsSendFrame_split [OF r] that(1) by (cases "buf = []") auto
  then show ?case using ih r nlsSendFrame_split [OF r] by (auto split: prod.splits)
qed simp

theorem nlsSendFrame_in_order_witness:
  "snd (send_run [\<lambda>b. if b = [] then 0 else 1, \<lambda>b. int (length b), \<lambda>b. int (length b)] [1, 2, 3]) = []"
  using nlsSendFrame_in_order [of "[\<lambda>b. if b = [] then 0 else 1, \<lambda>b. int (length b), \<lambda>b. int (length b)]"
      "[1, 2, 3]"] by (auto simp: Suc_le_eq)

end
