(* ===== verification/RequestParam.thy ===== *)
theory RequestParam
  imports NlsObjects WebSocketHttp
begin

text \<open>
  What a request is told by its user and tells the service: the setters and the commands of
  \<open>framework/item/iNlsRequestParam.cpp\<close> and of the classes derived from it (\<open>framework/feature\<close>). The
  class of an object is given by its mode. Texts of commands are made by the JSON writer; the random
  identifiers a command draws are the argument \<open>u\<close>, in the order in which they are drawn.
\<close>

section \<open>Construction\<close>

definition set_header :: "string \<Rightarrow> json \<Rightarrow> INlsRequestParam \<Rightarrow> INlsRequestParam" where
  "set_header k v p = p\<lparr>p_text := (p_text p)\<lparr>p_header := set_member k v (p_header (p_text p))\<rparr>\<rparr>"

definition set_payload :: "string \<Rightarrow> json \<Rightarrow> INlsRequestParam \<Rightarrow> INlsRequestParam" where
  "set_payload k v p = p\<lparr>p_text := (p_text p)\<lparr>p_payload := set_member k v (p_payload (p_text p))\<rparr>\<rparr>"

definition set_context :: "string \<Rightarrow> json \<Rightarrow> INlsRequestParam \<Rightarrow> INlsRequestParam" where
  "set_context k v p = p\<lparr>p_text := (p_text p)\<lparr>p_context := set_member k v (p_context (p_text p))\<rparr>\<rparr>"

definition remove_payload :: "string \<Rightarrow> INlsRequestParam \<Rightarrow> INlsRequestParam" where
  "remove_payload k p = p\<lparr>p_text := (p_text p)\<lparr>p_payload := remove_member k (p_payload (p_text p))\<rparr>\<rparr>"

text \<open>The constructors of the derived classes.\<close>

definition new_RequestParam :: "u64 \<Rightarrow> NlsType \<Rightarrow> string \<Rightarrow> int \<Rightarrow> INlsRequestParam" where
  "new_RequestParam garbage mode sdkName version =
    (let p = new_INlsRequestParam garbage mode sdkName (if mode = TypeTts then version else 0);
         name = (\<lambda>t. set_header ''namespace'' (JString t));
         task = (\<lambda>t f p. p\<lparr>p_speech := (p_speech p)\<lparr>p_task := t, p_function := f\<rparr>\<rparr>)
     in case mode of
       TypeAsr \<Rightarrow> name ''SpeechRecognizer'' p
     | TypeRealTime \<Rightarrow> name ''SpeechTranscriber'' p
     | TypeTts \<Rightarrow> name (if version = 0 then ''SpeechSynthesizer'' else ''SpeechLongSynthesizer'') p
     | TypeStreamInputTts \<Rightarrow> name ''FlowingSpeechSynthesizer'' p
     | TypeDialog \<Rightarrow> set_payload ''session_id'' (JString [])
         (if version = 0 then name ''DialogAssistant'' p
          else set_header ''enable_multi_group'' (JBool True) (name ''DialogAssistant.v2'' p))
     | TypeDashScopeFunAsrRealTime \<Rightarrow> task ''asr'' ''recognition'' p
     | TypeDashScopeParaformerRealTime \<Rightarrow> task ''asr'' ''recognition''
         (p\<lparr>p_speech := (p_speech p)\<lparr>punctuationPredictionEnabled := True, inverseTextNormalizationEnabled := True\<rparr>\<rparr>)
     | TypeDashSceopCosyVoiceStreamInputTts \<Rightarrow> task ''tts'' ''SpeechSynthesizer'' p
     | _ \<Rightarrow> p)"

section \<open>Setters\<close>

text \<open>The setters of the base class, one constructor each.\<close>

datatype setting =
    SetToken string | SetTokenExpirationTime u64 | SetAPIKey string | SetUrl string
  | SetNlsRequestType NlsRequestType | SetTimeout int | SetEnableRecvTimeout bool | SetRecvTimeout int
  | SetSendTimeout int | SetOutputFormat string | SetEnableOnMessage bool | SetEnableContinued bool
  | SetTaskId string
  | SetAppKey string | SetFormat string | SetSampleRate int | SetModel string | SetHeartbeat bool
  | SetSemanticPunctuationEnabled bool | SetMultiThresholdModeEnabled bool | SetMaxSentenceSilence int
  | SetIntermediateResult bool | SetPunctuationPrediction bool | SetTextNormalization bool
  | SetCustomizationId string | SetVocabularyId string | SetSentenceDetection bool
  | SetEnableWakeWordVerification bool | SetVoice string | SetSsmlEnabled bool
  | SetWordTimestampEnabled bool | SetAigcTagEnabled bool | SetSessionId string

abbreviation (input) on_conn :: "(connection_param \<Rightarrow> connection_param) \<Rightarrow> INlsRequestParam \<Rightarrow> INlsRequestParam" where
  "on_conn f p \<equiv> p\<lparr>p_conn := f (p_conn p)\<rparr>"

abbreviation (input) on_text :: "(text_param \<Rightarrow> text_param) \<Rightarrow> INlsRequestParam \<Rightarrow> INlsRequestParam" where
  "on_text f p \<equiv> p\<lparr>p_text := f (p_text p)\<rparr>"

abbreviation (input) on_speech :: "(speech_param \<Rightarrow> speech_param) \<Rightarrow> INlsRequestParam \<Rightarrow> INlsRequestParam" where
  "on_speech f p \<equiv> p\<lparr>p_speech := f (p_speech p)\<rparr>"

abbreviation (input) on_derived :: "(derived_param \<Rightarrow> derived_param) \<Rightarrow> INlsRequestParam \<Rightarrow> INlsRequestParam" where
  "on_derived f p \<equiv> p\<lparr>p_derived := f (p_derived p)\<rparr>"

text \<open>The inline setters of the header file.\<close>

definition apply_inline :: "setting \<Rightarrow> INlsRequestParam \<Rightarrow> INlsRequestParam" where
  "apply_inline st p = (case st of
     SetToken t \<Rightarrow> on_text (\<lambda>x. x\<lparr>p_token := t\<rparr>) p
   | SetTokenExpirationTime n \<Rightarrow> p\<lparr>p_tokenExpirationTime := n\<rparr>
   | SetAPIKey t \<Rightarrow> on_text (\<lambda>x. x\<lparr>p_apikey := t\<rparr>) p
   | SetUrl t \<Rightarrow> on_conn (\<lambda>x. x\<lparr>p_url := t\<rparr>) p
   | SetNlsRequestType r \<Rightarrow> on_conn (\<lambda>x. x\<lparr>requestType := r\<rparr>) p
   | SetTimeout n \<Rightarrow> on_conn (\<lambda>x. x\<lparr>p_timeout := n\<rparr>) p
   | SetEnableRecvTimeout b \<Rightarrow> on_conn (\<lambda>x. x\<lparr>enableRecvTimeout := b\<rparr>) p
   | SetRecvTimeout n \<Rightarrow> on_conn (\<lambda>x. x\<lparr>recvTimeout := n\<rparr>) p
   | SetSendTimeout n \<Rightarrow> on_conn (\<lambda>x. x\<lparr>sendTimeout := n\<rparr>) p
   | SetOutputFormat t \<Rightarrow> on_conn (\<lambda>x. x\<lparr>outputFormat := t\<rparr>) p
   | SetEnableOnMessage b \<Rightarrow> on_conn (\<lambda>x. x\<lparr>enableOnMessage := b\<rparr>) p
   | SetEnableContinued b \<Rightarrow> on_conn (\<lambda>x. x\<lparr>enableReconnect := b\<rparr>) p
   | SetTaskId t \<Rightarrow> on_text (\<lambda>x. x\<lparr>p_taskId := t\<rparr>) p
   | _ \<Rightarrow> p)"

definition apply_setting :: "setting \<Rightarrow> INlsRequestParam \<Rightarrow> INlsRequestParam" where
  "apply_setting st p = (case st of
     SetAppKey t \<Rightarrow> set_header ''appkey'' (JString t) (on_conn (\<lambda>x. x\<lparr>appKey := t\<rparr>) p)
   | SetFormat t \<Rightarrow> set_payload ''format'' (JString t) (on_conn (\<lambda>x. x\<lparr>p_format := t\<rparr>) p)
   | SetSampleRate n \<Rightarrow> set_payload ''sample_rate'' (JInt n) (on_conn (\<lambda>x. x\<lparr>sampleRate := n\<rparr>) p)
   | SetModel t \<Rightarrow> on_text (\<lambda>x. x\<lparr>p_model := t\<rparr>) p
   | SetHeartbeat b \<Rightarrow> on_speech (\<lambda>x. x\<lparr>heartbeat := b\<rparr>) p
   | SetSemanticPunctuationEnabled b \<Rightarrow> on_speech (\<lambda>x. x\<lparr>semanticPunctuationEnabled := b\<rparr>) p
   | SetMultiThresholdModeEnabled b \<Rightarrow> on_speech (\<lambda>x. x\<lparr>multiThresholdModeEnabled := b\<rparr>) p
   | SetMaxSentenceSilence n \<Rightarrow> on_speech (\<lambda>x. x\<lparr>maxSentenceSilence := n\<rparr>) p
   | SetIntermediateResult b \<Rightarrow> set_payload ''enable_intermediate_result'' (JBool b) p
   | SetPunctuationPrediction b \<Rightarrow> set_payload ''enable_punctuation_prediction'' (JBool b)
       (on_speech (\<lambda>x. x\<lparr>punctuationPredictionEnabled := b\<rparr>) p)
   | SetTextNormalization b \<Rightarrow> set_payload ''enable_inverse_text_normalization'' (JBool b)
       (on_speech (\<lambda>x. x\<lparr>inverseTextNormalizationEnabled := b\<rparr>) p)
   | SetCustomizationId t \<Rightarrow> set_payload ''customization_id'' (JString t) p
   | SetVocabularyId t \<Rightarrow> set_payload ''vocabulary_id'' (JString t) (on_speech (\<lambda>x. x\<lparr>vocabularyId := t\<rparr>) p)
   | SetSentenceDetection b \<Rightarrow> set_payload ''enable_semantic_sentence_detection'' (JBool b) p
   | SetEnableWakeWordVerification b \<Rightarrow> set_payload ''enable_wake_word_verification'' (JBool b)
       (on_conn (\<lambda>x. x\<lparr>enableWakeWord := b\<rparr>) p)
   | SetVoice t \<Rightarrow> set_payload ''voice'' (JString t) (on_speech (\<lambda>x. x\<lparr>voice := t\<rparr>) p)
   | SetSsmlEnabled b \<Rightarrow> on_speech (\<lambda>x. x\<lparr>enableSsml := b\<rparr>) p
   | SetWordTimestampEnabled b \<Rightarrow> on_speech (\<lambda>x. x\<lparr>wordTimestampEnabled := b\<rparr>) p
   | SetAigcTagEnabled b \<Rightarrow> on_speech (\<lambda>x. x\<lparr>enableAigcTag := b\<rparr>) p
   | SetSessionId t \<Rightarrow> set_payload ''session_id'' (JString t) p
   | _ \<Rightarrow> apply_inline st p)"

text \<open>\<open>setPayloadParam\<close> and \<open>setContextParam\<close> take a JSON object as text; members without a name are left out.\<close>

definition merge_members :: "members \<Rightarrow> members \<Rightarrow> members" where
  "merge_members new ms = fold (\<lambda>(k, v) ms. if k = [] then ms else set_member k v ms) new ms"

definition parse_object :: "reader \<Rightarrow> string \<Rightarrow> int + members" where
  "parse_object rd text =
    (case rd text of
       None \<Rightarrow> Inl (- JsonParseFailed)
     | Some (JObject ms) \<Rightarrow> Inr ms
     | Some _ \<Rightarrow> Inl (- JsonObjectError))"

definition setPayloadParam :: "reader \<Rightarrow> string \<Rightarrow> INlsRequestParam \<Rightarrow> int \<times> INlsRequestParam" where
  "setPayloadParam rd text p =
    (case parse_object rd text of
       Inl code \<Rightarrow> (code, p)
     | Inr ms \<Rightarrow> (Success, on_text (\<lambda>x. x\<lparr>p_payload := merge_members ms (p_payload x)\<rparr>) p))"

definition setContextParam :: "reader \<Rightarrow> string \<Rightarrow> INlsRequestParam \<Rightarrow> int \<times> INlsRequestParam" where
  "setContextParam rd text p =
    (case parse_object rd text of
       Inl code \<Rightarrow> (code, p)
     | Inr ms \<Rightarrow> (Success, on_text (\<lambda>x. x\<lparr>p_context := merge_members ms (p_context x)\<rparr>) p))"

definition AppendHttpHeader :: "string \<Rightarrow> string \<Rightarrow> INlsRequestParam \<Rightarrow> INlsRequestParam" where
  "AppendHttpHeader k v p = on_text (\<lambda>x. x\<lparr>p_httpHeader := set_member k (JString v) (p_httpHeader x)\<rparr>) p"

definition asString :: "json \<Rightarrow> string" where
  "asString v = (case v of JString t \<Rightarrow> t | _ \<Rightarrow> [])"

definition GetHttpHeader :: "INlsRequestParam \<Rightarrow> string \<times> INlsRequestParam" where
  "GetHttpHeader p =
    (let text = concat (map (\<lambda>(k, v). if k = [] then [] else k @ '': '' @ asString v @ CRLF)
         (p_httpHeader (p_text p)))
     in (text, on_text (\<lambda>x. x\<lparr>p_httpHeaderString := text\<rparr>) p))"

text \<open>The setters of the derived classes.\<close>

definition bytes_of :: "string \<Rightarrow> byte list" where
  "bytes_of t = map (\<lambda>c. of_nat (of_char c)) t"

datatype recognizer_setting = SetEnableVoiceDetection bool | SetMaxStartSilence int | SetMaxEndSilence int
  | SetAudioAddress string

primrec apply_recognizer :: "recognizer_setting \<Rightarrow> INlsRequestParam \<Rightarrow> INlsRequestParam" where
  "apply_recognizer (SetEnableVoiceDetection b) p = set_payload ''enable_voice_detection'' (JBool b) p"
| "apply_recognizer (SetMaxStartSilence n) p = set_payload ''max_start_silence'' (JInt n) p"
| "apply_recognizer (SetMaxEndSilence n) p = set_payload ''max_end_silence'' (JInt n) p"
| "apply_recognizer (SetAudioAddress t) p = set_payload ''audio_address'' (JString t) p"

datatype transcriber_setting = SetControlHeaderName string | SetTranscriberSentenceSilence int | SetEnableNlp bool
  | SetNlpModel string | SetEnableWords bool | SetEnableIgnoreSentenceTimeout bool | SetDisfluency bool
  | SetSpeechNoiseThreshold double

primrec apply_transcriber :: "transcriber_setting \<Rightarrow> INlsRequestParam \<Rightarrow> INlsRequestParam" where
  "apply_transcriber (SetControlHeaderName t) p = on_derived (\<lambda>x. x\<lparr>controlHeaderName := t\<rparr>) p"
| "apply_transcriber (SetTranscriberSentenceSilence n) p = set_payload ''max_sentence_silence'' (JInt n) p"
| "apply_transcriber (SetEnableNlp b) p = set_payload ''enable_nlp'' (JBool b) p"
| "apply_transcriber (SetNlpModel t) p = set_payload ''nlp_model'' (JString t) p"
| "apply_transcriber (SetEnableWords b) p = set_payload ''enable_words'' (JBool b) p"
| "apply_transcriber (SetEnableIgnoreSentenceTimeout b) p = set_payload ''enable_ignore_sentence_timeout'' (JBool b) p"
| "apply_transcriber (SetDisfluency b) p = set_payload ''disfluency'' (JBool b) p"
| "apply_transcriber (SetSpeechNoiseThreshold r) p = set_payload ''speech_noise_threshold'' (JReal r) p"

datatype synthesizer_setting = SetText string | SetVolume int | SetSpeechRate int | SetPitchRate int
  | SetEnableSubtitle bool | SetMethod int

primrec apply_synthesizer :: "synthesizer_setting \<Rightarrow> INlsRequestParam \<Rightarrow> INlsRequestParam" where
  "apply_synthesizer (SetText t) p = set_payload ''text'' (JString t) p"
| "apply_synthesizer (SetVolume n) p = set_payload ''volume'' (JInt n) p"
| "apply_synthesizer (SetSpeechRate n) p = set_payload ''speech_rate'' (JInt n) p"
| "apply_synthesizer (SetPitchRate n) p = set_payload ''pitch_rate'' (JInt n) p"
| "apply_synthesizer (SetEnableSubtitle b) p = set_payload ''enable_subtitle'' (JBool b) p"
| "apply_synthesizer (SetMethod n) p = set_payload ''method'' (JInt n) p"

text \<open>A text for a single round has at most 10000 characters, for CosyVoice 2000, and is not empty.\<close>

definition MaximumNumberOfWords :: "NlsType \<Rightarrow> int" where
  "MaximumNumberOfWords mode = (if mode = TypeStreamInputTts then 10000 else 2000)"

definition setSingleRoundText :: "string \<Rightarrow> INlsRequestParam \<Rightarrow> int \<times> INlsRequestParam" where
  "setSingleRoundText t p =
    (let n = CharsCalculate (Some (bytes_of t))
     in if MaximumNumberOfWords (p_mode (p_conn p)) < n \<or> n = 0 then (- InvalidInputParam, p)
        else (Success, on_derived (\<lambda>x. x\<lparr>singeRoundText := t\<rparr>) p))"

definition clearSingleRoundText :: "INlsRequestParam \<Rightarrow> INlsRequestParam" where
  "clearSingleRoundText p = on_derived (\<lambda>x. x\<lparr>singeRoundText := []\<rparr>) p"

datatype flowing_setting = SetFlowingVolume int | SetFlowingSpeechRate int | SetFlowingPitchRate int
  | SetFlowingSubtitle bool

primrec apply_flowing :: "flowing_setting \<Rightarrow> INlsRequestParam \<Rightarrow> INlsRequestParam" where
  "apply_flowing (SetFlowingVolume n) p = set_payload ''volume'' (JInt n) p"
| "apply_flowing (SetFlowingSpeechRate n) p = set_payload ''speech_rate'' (JInt n) p"
| "apply_flowing (SetFlowingPitchRate n) p = set_payload ''pitch_rate'' (JInt n) p"
| "apply_flowing (SetFlowingSubtitle b) p = set_payload ''enable_subtitle'' (JBool b) p"

datatype dialog_setting = SetQueryContext string | SetQuery string | SetWakeWordModel string | SetWakeWord string
  | SetEnableMultiGroup bool

primrec apply_dialog :: "dialog_setting \<Rightarrow> INlsRequestParam \<Rightarrow> INlsRequestParam" where
  "apply_dialog (SetQueryContext t) p = set_payload ''query_context'' (JString t) p"
| "apply_dialog (SetQuery t) p = set_payload ''query'' (JString t) p"
| "apply_dialog (SetWakeWordModel t) p = set_payload ''wake_word_model'' (JString t) p"
| "apply_dialog (SetWakeWord t) p = set_payload ''wake_word'' (JString t) p"
| "apply_dialog (SetEnableMultiGroup b) p = set_header ''enable_multi_group'' (JBool b) p"

definition setQueryParams :: "reader \<Rightarrow> string \<Rightarrow> INlsRequestParam \<Rightarrow> int \<times> INlsRequestParam" where
  "setQueryParams rd text p =
    (case parse_object rd (''{\"key\":'' @ text @ ''}'') of
       Inl code \<Rightarrow> (code, p)
     | Inr ms \<Rightarrow> (Success, set_payload ''query_params'' (case map_of ms ''key'' of None \<Rightarrow> JNull | Some v \<Rightarrow> v) p))"

datatype paraformer_setting = SetDisfluencyRemovalEnabled bool | SetParaformerLanguageHints string
  | SetResources string

primrec apply_paraformer :: "paraformer_setting \<Rightarrow> INlsRequestParam \<Rightarrow> INlsRequestParam" where
  "apply_paraformer (SetDisfluencyRemovalEnabled b) p = on_derived (\<lambda>x. x\<lparr>disfluencyRemovalEnabled := b\<rparr>) p"
| "apply_paraformer (SetParaformerLanguageHints t) p = on_derived (\<lambda>x. x\<lparr>languageHintsJsonArray := t\<rparr>) p"
| "apply_paraformer (SetResources t) p = on_derived (\<lambda>x. x\<lparr>resourcesJsonArray := t\<rparr>) p"

datatype cosyvoice_setting = SetCosyVolume int | SetCosySpeechRate double | SetCosyPitchRate double
  | SetCosyLanguageHints string | SetInstruction string | SetSeed int

primrec apply_cosyvoice :: "cosyvoice_setting \<Rightarrow> INlsRequestParam \<Rightarrow> INlsRequestParam" where
  "apply_cosyvoice (SetCosyVolume n) p = on_derived (\<lambda>x. x\<lparr>p_volume := n\<rparr>) p"
| "apply_cosyvoice (SetCosySpeechRate r) p = on_derived (\<lambda>x. x\<lparr>p_rate := r\<rparr>) p"
| "apply_cosyvoice (SetCosyPitchRate r) p = on_derived (\<lambda>x. x\<lparr>p_pitch := r\<rparr>) p"
| "apply_cosyvoice (SetCosyLanguageHints t) p = on_derived (\<lambda>x. x\<lparr>languageHintsJsonArray := t\<rparr>) p"
| "apply_cosyvoice (SetInstruction t) p = on_derived (\<lambda>x. x\<lparr>p_instruction := t\<rparr>) p"
| "apply_cosyvoice (SetSeed n) p = on_derived (\<lambda>x. x\<lparr>p_seed := n\<rparr>) p"

section \<open>Commands\<close>

definition only :: "bool \<Rightarrow> string \<Rightarrow> json \<Rightarrow> (string \<times> json) list" where
  "only b k v = (if b then [(k, v)] else [])"

text \<open>A start draws a new task unless the user has set one since the last start.\<close>

definition new_task :: "(nat \<Rightarrow> string) \<Rightarrow> INlsRequestParam \<Rightarrow> INlsRequestParam" where
  "new_task u p =
    (let t = p_taskId (p_text p);
         t = (if t = p_oldTaskId (p_text p) then u 0 else t);
         t = (if t = [] then u 1 else t)
     in on_text (\<lambda>x. x\<lparr>p_taskId := t, p_oldTaskId := t\<rparr>) p)"

definition stamp_header :: "string \<Rightarrow> INlsRequestParam \<Rightarrow> INlsRequestParam" where
  "stamp_header mid p =
    set_header ''message_id'' (JString mid) (set_header ''task_id'' (JString (p_taskId (p_text p))) p)"

abbreviation (input) header_of :: "INlsRequestParam \<Rightarrow> json" where "header_of p \<equiv> JObject (p_header (p_text p))"
abbreviation (input) payload_of :: "INlsRequestParam \<Rightarrow> json" where "payload_of p \<equiv> JObject (p_payload (p_text p))"
abbreviation (input) context_of :: "INlsRequestParam \<Rightarrow> json" where "context_of p \<equiv> JObject (p_context (p_text p))"

text \<open>The commands of the base class. They yield the document; its text is kept and returned.\<close>

definition base_start :: "(nat \<Rightarrow> string) \<Rightarrow> INlsRequestParam \<Rightarrow> json \<times> INlsRequestParam" where
  "base_start u p =
    (let p = stamp_header (u 2) (new_task u p)
     in (object [(''header'', header_of p), (''payload'', payload_of p), (''context'', context_of p)], p))"

definition base_stop :: "(nat \<Rightarrow> string) \<Rightarrow> INlsRequestParam \<Rightarrow> json \<times> INlsRequestParam" where
  "base_stop u p =
    (let p = stamp_header (u 0) p
     in (object [(''header'', header_of p), (''context'', context_of p)], p))"

definition base_control :: "reader \<Rightarrow> string \<Rightarrow> (nat \<Rightarrow> string) \<Rightarrow> INlsRequestParam \<Rightarrow> json option \<times> INlsRequestParam" where
  "base_control rd message u p =
    (case parse_object rd message of
       Inl _ \<Rightarrow> (None, p)
     | Inr ms \<Rightarrow>
         let p = stamp_header (u 0) p;
             given = (\<lambda>k. only (map_of ms k \<noteq> None \<and> map_of ms k \<noteq> Some JNull) k (the (map_of ms k)))
         in (Some (object ([(''header'', header_of p)] @ given ''payload'' @ given ''context'')), p))"

text \<open>The documents of the DashScope classes.\<close>

definition dash_header :: "string \<Rightarrow> INlsRequestParam \<Rightarrow> json" where
  "dash_header action p = object [(''action'', JString action), (''streaming'', JString (p_streaming (p_speech p))),
     (''task_id'', JString (p_taskId (p_text p)))]"

definition dash_finish :: "INlsRequestParam \<Rightarrow> json" where
  "dash_finish p = object [(''header'', dash_header ''finish-task'' p),
     (''payload'', object [(''input'', JObject [])])]"

definition dash_task :: "reader \<Rightarrow> INlsRequestParam \<Rightarrow> (string \<times> json) list" where
  "dash_task rd p =
    (let sp = p_speech p; model = p_model (p_text p); input = inputJsonObj (p_derived p)
     in only (p_taskGroup sp \<noteq> []) ''task_group'' (JString (p_taskGroup sp)) @
        only (p_task sp \<noteq> []) ''task'' (JString (p_task sp)) @
        only (p_function sp \<noteq> []) ''function'' (JString (p_function sp)) @
        only (model \<noteq> []) ''model'' (JString model) @
        (if input = [] then [(''input'', JObject [])]
         else case rd input of Some (JObject ms) \<Rightarrow> [(''input'', JObject ms)] | _ \<Rightarrow> []))"

definition json_array :: "reader \<Rightarrow> string \<Rightarrow> string \<Rightarrow> (string \<times> json) list" where
  "json_array rd k t = (if t = [] then [] else case rd t of Some (JArray vs) \<Rightarrow> [(k, JArray vs)] | _ \<Rightarrow> [])"

definition dash_audio :: "INlsRequestParam \<Rightarrow> (string \<times> json) list" where
  "dash_audio p =
    only (p_format (p_conn p) \<noteq> []) ''format'' (JString (p_format (p_conn p))) @
    only (0 < sampleRate (p_conn p)) ''sample_rate'' (JInt (sampleRate (p_conn p)))"

definition funasr_parameters :: "INlsRequestParam \<Rightarrow> (string \<times> json) list" where
  "funasr_parameters p =
    (let sp = p_speech p
     in dash_audio p @
        only (vocabularyId sp \<noteq> []) ''vocabulary_id'' (JString (vocabularyId sp)) @
        [(''semantic_punctuation_enabled'', JBool (semanticPunctuationEnabled sp))] @
        only (0 < maxSentenceSilence sp) ''max_sentence_silence'' (JInt (maxSentenceSilence sp)) @
        [(''multi_threshold_mode_enabled'', JBool (multiThresholdModeEnabled sp)),
         (''heartbeat'', JBool (heartbeat sp))])"

definition paraformer_parameters :: "reader \<Rightarrow> INlsRequestParam \<Rightarrow> (string \<times> json) list" where
  "paraformer_parameters rd p =
    (let sp = p_speech p; d = p_derived p
     in dash_audio p @
        only (vocabularyId sp \<noteq> []) ''vocabulary_id'' (JString (vocabularyId sp)) @
        [(''disfluency_removal_enabled'', JBool (disfluencyRemovalEnabled d))] @
        json_array rd ''language_hints'' (languageHintsJsonArray d) @
        [(''semantic_punctuation_enabled'', JBool (semanticPunctuationEnabled sp))] @
        only (0 < maxSentenceSilence sp) ''max_sentence_silence'' (JInt (maxSentenceSilence sp)) @
        [(''multi_threshold_mode_enabled'', JBool (multiThresholdModeEnabled sp)),
         (''punctuation_prediction_enabled'', JBool (punctuationPredictionEnabled sp)),
         (''heartbeat'', JBool (heartbeat sp)),
         (''inverse_text_normalization_enabled'', JBool (inverseTextNormalizationEnabled sp))])"

definition cosyvoice_parameters :: "reader \<Rightarrow> INlsRequestParam \<Rightarrow> (string \<times> json) list" where
  "cosyvoice_parameters rd p =
    (let sp = p_speech p; d = p_derived p
     in [(''text_type'', JString ''PlainText''), (''voice'', JString (voice sp))] @
        dash_audio p @
        only (0 \<le> p_volume d) ''volume'' (JInt (p_volume d)) @
        only (at_least_half (p_rate d)) ''rate'' (JReal (p_rate d)) @
        only (at_least_half (p_pitch d)) ''pitch'' (JReal (p_pitch d)) @
        [(''enable_ssml'', JBool (singeRoundText d \<noteq> [] \<or> enableSsml sp))] @
        only (0 < bitRate sp) ''bit_rate'' (JInt (bitRate sp)) @
        [(''word_timestamp_enabled'', JBool (wordTimestampEnabled sp)), (''seed'', JInt (p_seed d))] @
        json_array rd ''language_hints'' (languageHintsJsonArray d) @
        only (p_instruction d \<noteq> []) ''instruction'' (JString (p_instruction d)))"

definition dash_start :: "reader \<Rightarrow> (nat \<Rightarrow> string) \<Rightarrow> INlsRequestParam \<Rightarrow> json \<times> INlsRequestParam" where
  "dash_start rd u p =
    (let p = new_task u p;
         mode = p_mode (p_conn p);
         parameters = (if mode = TypeDashScopeFunAsrRealTime then funasr_parameters p
           else if mode = TypeDashScopeParaformerRealTime then paraformer_parameters rd p
           else cosyvoice_parameters rd p);
         resources = (if mode = TypeDashScopeParaformerRealTime
           then json_array rd ''resources'' (resourcesJsonArray (p_derived p)) else [])
     in (object [(''header'', dash_header ''run-task'' p),
           (''payload'', object (dash_task rd p @ resources @ [(''parameters'', object parameters)]))], p))"

abbreviation (input) dash_mode :: "INlsRequestParam \<Rightarrow> bool" where
  "dash_mode p \<equiv> p_mode (p_conn p) \<in>
     {TypeDashScopeFunAsrRealTime, TypeDashScopeParaformerRealTime, TypeDashSceopCosyVoiceStreamInputTts}"

definition named :: "string \<Rightarrow> INlsRequestParam \<Rightarrow> INlsRequestParam" where
  "named n p = set_header ''name'' (JString n) p"

definition start_document :: "reader \<Rightarrow> (nat \<Rightarrow> string) \<Rightarrow> INlsRequestParam \<Rightarrow> json \<times> INlsRequestParam" where
  "start_document rd u p = (case p_mode (p_conn p) of
     TypeAsr \<Rightarrow> base_start u (named ''StartRecognition'' p)
   | TypeRealTime \<Rightarrow> base_start u (named ''StartTranscription'' p)
   | TypeTts \<Rightarrow> base_start u (named ''StartSynthesis'' p)
   | TypeDialog \<Rightarrow> base_start u (named ''StartRecognition'' p)
   | TypeStreamInputTts \<Rightarrow>
       let p = named ''StartSynthesis'' p
       in base_start u (if singeRoundText (p_derived p) = [] then remove_payload ''enable_ssml'' p
         else set_payload ''enable_ssml'' (JBool True) p)
   | _ \<Rightarrow> if dash_mode p then dash_start rd u p else base_start u p)"

definition getStartCommand :: "reader \<Rightarrow> writer \<Rightarrow> (nat \<Rightarrow> string) \<Rightarrow> INlsRequestParam \<Rightarrow> string \<times> INlsRequestParam" where
  "getStartCommand rd wr u p =
    (let (doc, p) = start_document rd u p in (wr doc, on_text (\<lambda>x. x\<lparr>startCommand := wr doc\<rparr>) p))"

text \<open>A synthesizer has no stop command: its text is empty.\<close>

definition stop_document :: "(nat \<Rightarrow> string) \<Rightarrow> INlsRequestParam \<Rightarrow> json option \<times> INlsRequestParam" where
  "stop_document u p =
    (let some = (\<lambda>(doc, p). (Some doc, p))
     in case p_mode (p_conn p) of
       TypeTts \<Rightarrow> (None, p)
     | TypeAsr \<Rightarrow> some (base_stop u (named ''StopRecognition'' p))
     | TypeRealTime \<Rightarrow> some (base_stop u (named ''StopTranscription'' p))
     | TypeDialog \<Rightarrow> some (base_stop u (named ''StopRecognition'' p))
     | TypeStreamInputTts \<Rightarrow> some (base_stop u (named ''StopSynthesis'' p))
     | _ \<Rightarrow> if dash_mode p then (Some (dash_finish p), p) else some (base_stop u p))"

definition kept_stop :: "writer \<Rightarrow> json option \<times> INlsRequestParam \<Rightarrow> string \<times> INlsRequestParam" where
  "kept_stop wr r = (case r of
     (None, p) \<Rightarrow> ([], p)
   | (Some doc, p) \<Rightarrow> (wr doc, on_text (\<lambda>x. x\<lparr>stopCommand := wr doc\<rparr>) p))"

definition getStopCommand :: "writer \<Rightarrow> (nat \<Rightarrow> string) \<Rightarrow> INlsRequestParam \<Rightarrow> string \<times> INlsRequestParam" where
  "getStopCommand wr u p = kept_stop wr (stop_document u p)"

definition getExecuteDialog :: "writer \<Rightarrow> (nat \<Rightarrow> string) \<Rightarrow> INlsRequestParam \<Rightarrow> string \<times> INlsRequestParam" where
  "getExecuteDialog wr u p =
    (if p_mode (p_conn p) = TypeDialog then
       let (doc, p) = base_start u (named ''ExecuteDialog'' p) in (wr doc, on_text (\<lambda>x. x\<lparr>startCommand := wr doc\<rparr>) p)
     else ([], p))"

definition getStopWakeWordCommand :: "writer \<Rightarrow> (nat \<Rightarrow> string) \<Rightarrow> INlsRequestParam \<Rightarrow> string \<times> INlsRequestParam" where
  "getStopWakeWordCommand wr u p =
    (if p_mode (p_conn p) = TypeDialog then
       let (doc, p) = base_stop u (named ''StopWakeWordVerification'' p) in kept_stop wr (Some doc, p)
     else ([], p))"

text \<open>The name stands in the header before the message is parsed, so that it stays when that fails.\<close>

definition getControlCommand :: "reader \<Rightarrow> writer \<Rightarrow> string \<Rightarrow> (nat \<Rightarrow> string) \<Rightarrow> INlsRequestParam \<Rightarrow> string option \<times> INlsRequestParam" where
  "getControlCommand rd wr message u p =
    (let name = controlHeaderName (p_derived p);
         p = (if p_mode (p_conn p) = TypeRealTime
           then named (if name \<noteq> [] then name else ''ControlTranscriber'') p else p)
     in case base_control rd message u p of
       (None, p) \<Rightarrow> (None, p)
     | (Some doc, p) \<Rightarrow> (Some (wr doc), on_text (\<lambda>x. x\<lparr>controlCommand := wr doc\<rparr>) p))"

definition getRunFlowingSynthesisCommand :: "writer \<Rightarrow> string \<Rightarrow> (nat \<Rightarrow> string) \<Rightarrow> INlsRequestParam \<Rightarrow> string \<times> INlsRequestParam" where
  "getRunFlowingSynthesisCommand wr text u p =
    (if p_mode (p_conn p) = TypeStreamInputTts then
       let p = set_payload ''text'' (JString text) (stamp_header (u 0) (named ''RunSynthesis'' p))
       in (wr (object [(''header'', header_of p), (''payload'', payload_of p)]), p)
     else if p_mode (p_conn p) = TypeDashSceopCosyVoiceStreamInputTts then
       (wr (object [(''header'', dash_header ''continue-task'' p),
          (''payload'', object [(''input'', object [(''text'', JString text)])])]), p)
     else ([], p))"

definition getFlushFlowingTextCommand :: "reader \<Rightarrow> writer \<Rightarrow> string \<Rightarrow> (nat \<Rightarrow> string) \<Rightarrow> INlsRequestParam \<Rightarrow> string \<times> INlsRequestParam" where
  "getFlushFlowingTextCommand rd wr parameters u p =
    (if p_mode (p_conn p) = TypeStreamInputTts then
       let p = stamp_header (u 0) (named ''FlushText'' p);
           payload = (case rd parameters of None \<Rightarrow> [] | Some v \<Rightarrow> [(''payload'', v)])
       in (wr (object ([(''header'', header_of p)] @ payload)), p)
     else ([], p))"

end
