(* ===== verification/NlsEvents.thy ===== *)
theory NlsEvents
  imports WebSocketHttp JsonValue
begin

text \<open>
  The events the user receives (\<open>framework/common/nlsEvent.cpp\<close>), how a message of the server
  becomes one (\<open>framework/common/nlsEventInner.cpp\<close>), and which callback of the user it is handed to
  (the listeners in \<open>framework/feature\<close>).
\<close>

section \<open>Events\<close>

datatype EventType = TaskFailed | RecognitionStarted | RecognitionCompleted | RecognitionResultChanged
  | WakeWordVerificationCompleted | TranscriptionStarted | SentenceBegin | TranscriptionResultChanged
  | SentenceEnd | SentenceSemantics | TranscriptionCompleted | SynthesisStarted | SynthesisCompleted
  | Binary | MetaInfo | DialogResultGenerated | Close | Message | SentenceSynthesis | TaskStarted
  | ResultGenerated | TaskFinished

record WordInfomation =
  w_text :: string
  w_startTime :: int
  w_endTime :: int

record NlsEvent =
  ev_status :: int
  ev_msg :: string
  ev_type :: EventType
  ev_taskId :: string
  ev_index :: int
  ev_binary :: "byte list"
  ev_result :: string
  ev_displayText :: string
  ev_spokenText :: string
  ev_timeOutStatus :: int
  ev_time :: int
  ev_beginTime :: int
  ev_confidence :: double
  ev_words :: "WordInfomation list"
  ev_wakeWordAccepted :: bool
  ev_wakeWordKnown :: bool
  ev_wakeWordUserId :: string
  ev_wakeWordGender :: int
  ev_stashSentenceId :: int
  ev_stashBeginTime :: int
  ev_stashText :: string
  ev_stashCurrentTime :: int
  ev_usage :: int
  ev_inChar :: ptr

text \<open>The constructors: the members that are not arguments are zero or empty. The type of the request and
the protocol, which only the parser reads, are arguments of the parser.\<close>

definition new_NlsEvent :: "string \<Rightarrow> int \<Rightarrow> EventType \<Rightarrow> string \<Rightarrow> NlsEvent" where
  "new_NlsEvent msg code type taskId =
    \<lparr>ev_status = code, ev_msg = msg, ev_type = type, ev_taskId = taskId, ev_index = 0, ev_binary = [],
     ev_result = [], ev_displayText = [], ev_spokenText = [], ev_timeOutStatus = 0, ev_time = 0,
     ev_beginTime = 0, ev_confidence = Double 0 0, ev_words = [], ev_wakeWordAccepted = False,
     ev_wakeWordKnown = False, ev_wakeWordUserId = [], ev_wakeWordGender = 0, ev_stashSentenceId = 0,
     ev_stashBeginTime = 0, ev_stashText = [], ev_stashCurrentTime = 0, ev_usage = 0,
     ev_inChar = NULL\<rparr>"

definition getMsgTypeString :: "EventType \<Rightarrow> string" where
  "getMsgTypeString type = (case type of
     TaskFailed \<Rightarrow> ''TaskFailed'' | RecognitionStarted \<Rightarrow> ''RecognitionStarted''
   | RecognitionCompleted \<Rightarrow> ''RecognitionCompleted'' | RecognitionResultChanged \<Rightarrow> ''RecognitionResultChanged''
   | WakeWordVerificationCompleted \<Rightarrow> ''WakeWordVerificationCompleted''
   | TranscriptionStarted \<Rightarrow> ''TranscriptionStarted'' | SentenceBegin \<Rightarrow> ''SentenceBegin''
   | TranscriptionResultChanged \<Rightarrow> ''TranscriptionResultChanged'' | SentenceEnd \<Rightarrow> ''SentenceEnd''
   | SentenceSemantics \<Rightarrow> ''SentenceSemantics'' | TranscriptionCompleted \<Rightarrow> ''TranscriptionCompleted''
   | SynthesisStarted \<Rightarrow> ''SynthesisStarted'' | SynthesisCompleted \<Rightarrow> ''SynthesisCompleted''
   | Binary \<Rightarrow> ''Binary'' | MetaInfo \<Rightarrow> ''MetaInfo'' | DialogResultGenerated \<Rightarrow> ''DialogResultGenerated''
   | Close \<Rightarrow> ''Close'' | Message \<Rightarrow> ''Message'' | SentenceSynthesis \<Rightarrow> ''SentenceSynthesis''
   | _ \<Rightarrow> ''Unknown'')"

lemma new_NlsEvent_simps [simp]:
  "ev_msg (new_NlsEvent m c t i) = m" "ev_type (new_NlsEvent m c t i) = t" "ev_status (new_NlsEvent m c t i) = c"
  "ev_taskId (new_NlsEvent m c t i) = i" "ev_index (new_NlsEvent m c t i) = 0" "ev_result (new_NlsEvent m c t i) = []"
  "ev_binary (new_NlsEvent m c t i) = []" "ev_inChar (new_NlsEvent m c t i) = NULL"
  by (simp_all add: new_NlsEvent_def)

text \<open>The accessors that answer for some types only.\<close>

definition getResult :: "NlsEvent \<Rightarrow> string option" where
  "getResult ev =
    (if ev_type ev \<in> {RecognitionResultChanged, RecognitionCompleted, TranscriptionResultChanged, SentenceEnd}
     then Some (ev_result ev) else None)"

definition getSentenceIndex :: "NlsEvent \<Rightarrow> int" where
  "getSentenceIndex ev =
    (if ev_type ev \<in> {SentenceBegin, SentenceEnd, TranscriptionResultChanged} then ev_index ev
     else - InvalidNlsEventMsgType)"

definition getSentenceTime :: "NlsEvent \<Rightarrow> int" where
  "getSentenceTime ev =
    (if ev_type ev \<in> {SentenceBegin, SentenceEnd, TranscriptionResultChanged} then ev_time ev
     else - InvalidNlsEventMsgType)"

definition getSentenceWordsList :: "NlsEvent \<Rightarrow> WordInfomation list" where
  "getSentenceWordsList ev = (if ev_type ev = SentenceEnd then ev_words ev else [])"

definition getErrorMessage :: "NlsEvent \<Rightarrow> string" where
  "getErrorMessage ev = (if ev_type ev = TaskFailed then ev_msg ev else [])"

definition getBinaryDataSize :: "NlsEvent \<Rightarrow> nat" where
  "getBinaryDataSize ev = (if ev_type ev = Binary then length (ev_binary ev) else 0)"

text \<open>
  The binary data as an allocated array, which the event keeps and frees; \<open>mem\<close> tells which addresses
  are allocated. The copy constructor copies the pointer, and leaves some members out.
\<close>

definition free_mem :: "(ptr \<Rightarrow> bool) \<Rightarrow> ptr \<Rightarrow> (ptr \<Rightarrow> bool) option" where
  "free_mem mem p = (if p = NULL then Some mem else if mem p then Some (mem(p := False)) else None)"

definition getBinaryDataInChar :: "ptr \<Rightarrow> (ptr \<Rightarrow> bool) \<Rightarrow> NlsEvent \<Rightarrow> ((ptr \<Rightarrow> bool) \<times> NlsEvent) option" where
  "getBinaryDataInChar fresh mem ev =
    (if ev_type ev \<noteq> Binary then Some (mem, ev)
     else do {
       mem \<leftarrow> free_mem mem (ev_inChar ev);
       Some (mem(fresh := True), ev\<lparr>ev_inChar := fresh\<rparr>) })"

definition destroy_NlsEvent :: "(ptr \<Rightarrow> bool) \<Rightarrow> NlsEvent \<Rightarrow> (ptr \<Rightarrow> bool) option" where
  "destroy_NlsEvent mem ev = free_mem mem (ev_inChar ev)"

definition copy_NlsEvent :: "NlsEvent \<Rightarrow> NlsEvent" where
  "copy_NlsEvent ne = ne\<lparr>ev_displayText := [], ev_spokenText := [], ev_wakeWordAccepted := False,
     ev_wakeWordKnown := False, ev_wakeWordUserId := [], ev_wakeWordGender := 0\<rparr>"

section \<open>Parsing a message\<close>

definition parseMsgType :: "string \<Rightarrow> EventType option" where
  "parseMsgType name =
    (if name = ''TaskFailed'' \<or> name = ''task-failed'' then Some TaskFailed
     else if name = ''RecognitionStarted'' then Some RecognitionStarted
     else if name = ''RecognitionCompleted'' then Some RecognitionCompleted
     else if name = ''RecognitionResultChanged'' then Some RecognitionResultChanged
     else if name = ''TranscriptionStarted'' then Some TranscriptionStarted
     else if name = ''SentenceBegin'' then Some SentenceBegin
     else if name = ''TranscriptionResultChanged'' then Some TranscriptionResultChanged
     else if name = ''SentenceEnd'' then Some SentenceEnd
     else if name = ''TranscriptionCompleted'' then Some TranscriptionCompleted
     else if name = ''SynthesisStarted'' then Some SynthesisStarted
     else if name = ''SynthesisCompleted'' then Some SynthesisCompleted
     else if name = ''DialogResultGenerated'' then Some DialogResultGenerated
     else if name = ''WakeWordVerificationCompleted'' then Some WakeWordVerificationCompleted
     else if name = ''SentenceSemantics'' then Some SentenceSemantics
     else if name = ''MetaInfo'' then Some MetaInfo
     else if name = ''SentenceSynthesis'' then Some SentenceSynthesis
     else if name = ''task-started'' then Some TaskStarted
     else if name = ''result-generated'' then Some ResultGenerated
     else if name = ''task-finished'' then Some TaskFinished
     else None)"

text \<open>The results of the steps: an exception of the library (\<open>None\<close>), a code, or a value.\<close>

type_synonym 'a parsed = "(int + 'a) option"

definition parse_ok :: "'a \<Rightarrow> 'a parsed" where "parse_ok a = Some (Inr a)"

definition parse_fail :: "int \<Rightarrow> 'a parsed" where "parse_fail code = Some (Inl (- code))"

definition parse_bind :: "'a parsed \<Rightarrow> ('a \<Rightarrow> 'b parsed) \<Rightarrow> 'b parsed" where
  "parse_bind r f = (case r of None \<Rightarrow> None | Some (Inl code) \<Rightarrow> Some (Inl code) | Some (Inr a) \<Rightarrow> f a)"

lemma parse_bind_simps [simp]:
  "parse_bind (parse_ok a) f = f a" "parse_bind (parse_fail code) f = parse_fail code"
  "parse_bind None f = None" "parse_bind (Some (Inl c)) f = Some (Inl c)" "parse_bind (Some (Inr a)) f = f a"
  by (simp_all add: parse_bind_def parse_ok_def parse_fail_def)

text \<open>
  The name of the event. For DashScope it is the member \<open>event\<close>, else \<open>name\<close>; whether there is one is asked
  of both members together.
\<close>

definition parse_name :: "NlsServiceProtocol \<Rightarrow> bool \<Rightarrow> json \<Rightarrow> NlsEvent \<Rightarrow> NlsEvent parsed" where
  "parse_name protocol ignore head ev = do {
     name \<leftarrow> json_get head ''name'';
     event \<leftarrow> json_get head ''event'';
     if isString name \<or> isString event then do {
       name \<leftarrow> asCString (if protocol = WsServiceProtocolDashScope then event else name);
       (case parseMsgType name of
          Some type \<Rightarrow> parse_ok (ev\<lparr>ev_type := type\<rparr>)
        | None \<Rightarrow> if ignore then parse_ok ev else parse_fail InvalidNlsEventMsgType) }
     else parse_ok ev }"

definition parse_status :: "NlsServiceProtocol \<Rightarrow> bool \<Rightarrow> json \<Rightarrow> NlsEvent \<Rightarrow> NlsEvent parsed" where
  "parse_status protocol ignore head ev =
    (if protocol = WsServiceProtocolDashScope then parse_ok ev
     else do {
       status \<leftarrow> json_get head ''status'';
       if isInt status then do { n \<leftarrow> asInt status; parse_ok (ev\<lparr>ev_status := n\<rparr>) }
       else if ignore then parse_ok ev else parse_fail InvalidNlsEventMsgStatusCode })"

definition parse_head :: "NlsServiceProtocol \<Rightarrow> bool \<Rightarrow> json \<Rightarrow> NlsEvent \<Rightarrow> NlsEvent parsed" where
  "parse_head protocol ignore doc ev = do {
     head \<leftarrow> json_get doc ''header'';
     if isObject head then
       parse_bind (parse_name protocol ignore head ev) (\<lambda>ev.
       parse_bind (parse_status protocol ignore head ev) (\<lambda>ev. do {
         taskId \<leftarrow> string_field head ''task_id'' (ev_taskId ev);
         parse_ok (ev\<lparr>ev_taskId := taskId\<rparr>) }))
     else do {
       closed \<leftarrow> json_get doc ''channelClosed'';
       failed \<leftarrow> json_get doc ''TaskFailed'';
       if \<not> isNull closed then parse_ok (ev\<lparr>ev_type := Close\<rparr>)
       else if \<not> isNull failed then parse_ok (ev\<lparr>ev_type := TaskFailed\<rparr>)
       else if ignore then parse_ok ev else parse_fail InvalidNlsEventMsgHeader } }"

text \<open>
  The words of a sentence. One \<open>WordInfomation\<close> serves for all of them: a member that is missing keeps
  the value of the word before, and for the first word what the variable held, \<open>w\<close>.
\<close>

definition word_int :: "json \<Rightarrow> string \<Rightarrow> int \<Rightarrow> int option" where
  "word_int v k d = do {
     m \<leftarrow> isMember v k;
     if m then do { f \<leftarrow> json_get v k; if isInt f then asInt f else Some d } else Some d }"

definition word_text :: "json \<Rightarrow> string \<Rightarrow> string \<Rightarrow> string option" where
  "word_text v k d = do {
     m \<leftarrow> isMember v k;
     if m then do { f \<leftarrow> json_get v k; if isString f then asCString f else Some d } else Some d }"

fun words_loop :: "string \<Rightarrow> string \<Rightarrow> WordInfomation \<Rightarrow> json list \<Rightarrow> WordInfomation list option" where
  "words_loop start end w [] = Some []"
| "words_loop start end w (v # vs) = do {
     text \<leftarrow> word_text v ''text'' (w_text w);
     s \<leftarrow> word_int v start (w_startTime w);
     e \<leftarrow> word_int v end (w_endTime w);
     let w = \<lparr>w_text = text, w_startTime = s, w_endTime = e\<rparr>;
     ws \<leftarrow> words_loop start end w vs;
     Some (w # ws) }"

definition words_field :: "string \<Rightarrow> string \<Rightarrow> WordInfomation \<Rightarrow> json \<Rightarrow> WordInfomation list option" where
  "words_field start end w v = do {
     f \<leftarrow> json_get v ''words'';
     case f of JArray vs \<Rightarrow> words_loop start end (w\<lparr>w_text := []\<rparr>) vs | _ \<Rightarrow> Some [] }"

definition parse_wake :: "json \<Rightarrow> NlsEvent \<Rightarrow> NlsEvent option" where
  "parse_wake payload ev =
    (if ev_type ev \<noteq> WakeWordVerificationCompleted then Some ev
     else do {
       accepted \<leftarrow> bool_field payload ''accepted'' (ev_wakeWordAccepted ev);
       known \<leftarrow> bool_field payload ''known'' (ev_wakeWordKnown ev);
       user \<leftarrow> string_field payload ''user_id'' (ev_wakeWordUserId ev);
       gender \<leftarrow> int_field payload ''gender'' (ev_wakeWordGender ev);
       Some (ev\<lparr>ev_wakeWordAccepted := accepted, ev_wakeWordKnown := known, ev_wakeWordUserId := user,
         ev_wakeWordGender := gender\<rparr>) })"

definition parse_stash :: "json \<Rightarrow> NlsEvent \<Rightarrow> NlsEvent option" where
  "parse_stash payload ev =
    (if ev_type ev \<noteq> SentenceEnd then Some ev
     else do {
       stash \<leftarrow> json_get payload ''stash_result'';
       if isObject stash then do {
         sid \<leftarrow> int_field stash ''sentenceId'' (ev_stashSentenceId ev);
         beg \<leftarrow> int_field stash ''beginTime'' (ev_stashBeginTime ev);
         current \<leftarrow> int_field stash ''currentTime'' (ev_stashCurrentTime ev);
         text \<leftarrow> string_field stash ''text'' (ev_stashText ev);
         Some (ev\<lparr>ev_stashSentenceId := sid, ev_stashBeginTime := beg, ev_stashCurrentTime := current,
           ev_stashText := text\<rparr>) }
       else Some ev })"

definition parse_payload :: "WordInfomation \<Rightarrow> json \<Rightarrow> NlsEvent \<Rightarrow> NlsEvent option" where
  "parse_payload w doc ev =
    (if ev_type ev = SynthesisCompleted \<or> ev_type ev = MetaInfo then Some ev
     else do {
       payload \<leftarrow> json_get doc ''payload'';
       if \<not> isObject payload then Some ev
       else do {
         result \<leftarrow> string_field payload ''result'' (ev_result ev);
         index \<leftarrow> int_field payload ''index'' (ev_index ev);
         time \<leftarrow> int_field payload ''time'' (ev_time ev);
         beg \<leftarrow> int_field payload ''begin_time'' (ev_beginTime ev);
         confidence \<leftarrow> double_field payload ''confidence'' (ev_confidence ev);
         display \<leftarrow> string_field payload ''display_text'' (ev_displayText ev);
         spoken \<leftarrow> string_field payload ''spoken_text'' (ev_spokenText ev);
         status \<leftarrow> int_field payload ''status'' (ev_timeOutStatus ev);
         ws \<leftarrow> words_field ''startTime'' ''endTime'' w payload;
         ev \<leftarrow> parse_wake payload (ev\<lparr>ev_result := result, ev_index := index, ev_time := time,
           ev_beginTime := beg, ev_confidence := confidence, ev_displayText := display,
           ev_spokenText := spoken, ev_timeOutStatus := status, ev_words := ev_words ev @ ws\<rparr>);
         parse_stash payload ev } })"

text \<open>
  The results of DashScope; they parse the text again. The function of Paraformer is a copy of that of FunAsr:
  \<open>convertStResultGenerated\<close> is the body of both.
\<close>

definition flag_field :: "json \<Rightarrow> string \<Rightarrow> bool option" where
  "flag_field v k = do { f \<leftarrow> json_get v k; if isNull f then Some False else asBool f }"

definition st_sentence :: "WordInfomation \<Rightarrow> json \<Rightarrow> NlsEvent \<Rightarrow> NlsEvent option" where
  "st_sentence w sentence ev = do {
     ended \<leftarrow> flag_field sentence ''sentence_end'';
     begun \<leftarrow> flag_field sentence ''sentence_begin'';
     let ev = ev\<lparr>ev_type := (if ended then SentenceEnd else if begun then SentenceBegin
       else TranscriptionResultChanged)\<rparr>;
     f \<leftarrow> json_get sentence ''begin_time'';
     ev \<leftarrow> (if isInt f then do { n \<leftarrow> asInt f; Some (ev\<lparr>ev_beginTime := n, ev_time := n\<rparr>) } else Some ev);
     time \<leftarrow> int_field sentence ''end_time'' (ev_time ev);
     result \<leftarrow> string_field sentence ''text'' (ev_result ev);
     index \<leftarrow> int_field sentence ''sentence_id'' (ev_index ev);
     ws \<leftarrow> words_field ''begin_time'' ''end_time'' w sentence;
     Some (ev\<lparr>ev_time := time, ev_result := result, ev_index := index, ev_words := ev_words ev @ ws\<rparr>) }"

definition usage_field :: "string \<Rightarrow> json \<Rightarrow> int \<Rightarrow> int option" where
  "usage_field k payload old = do {
     usage \<leftarrow> json_get payload ''usage'';
     if isNull usage then Some old else int_field usage k old }"

text \<open>\<open>payload.output.sentence\<close>, \<open>JNull\<close> when a part of the path is missing.\<close>

definition output_sentence :: "json \<Rightarrow> json option" where
  "output_sentence payload = do {
     output \<leftarrow> json_get payload ''output'';
     json_get output ''sentence'' }"

definition convertStResultGenerated :: "reader \<Rightarrow> WordInfomation \<Rightarrow> NlsEvent \<Rightarrow> NlsEvent parsed" where
  "convertStResultGenerated rd w ev =
    (if ev_msg ev = [] then parse_fail NlsEventMsgEmpty
     else if ev_type ev = TaskStarted then parse_ok (ev\<lparr>ev_type := TranscriptionStarted\<rparr>)
     else if ev_type ev = TaskFinished then parse_ok (ev\<lparr>ev_type := TranscriptionCompleted\<rparr>)
     else case rd (ev_msg ev) of
       None \<Rightarrow> parse_fail JsonParseFailed
     | Some doc \<Rightarrow> do {
         payload \<leftarrow> json_get doc ''payload'';
         if \<not> isObject payload then parse_ok ev
         else do {
           sentence \<leftarrow> output_sentence payload;
           ev \<leftarrow> (if isNull sentence then Some ev else st_sentence w sentence ev);
           usage \<leftarrow> usage_field ''duration'' payload (ev_usage ev);
           parse_ok (ev\<lparr>ev_usage := usage\<rparr>) } })"

definition convertFunAsrStResultGenerated :: "reader \<Rightarrow> WordInfomation \<Rightarrow> NlsEvent \<Rightarrow> NlsEvent parsed" where
  "convertFunAsrStResultGenerated = convertStResultGenerated"

definition convertParaformerStResultGenerated :: "reader \<Rightarrow> WordInfomation \<Rightarrow> NlsEvent \<Rightarrow> NlsEvent parsed" where
  "convertParaformerStResultGenerated = convertStResultGenerated"

definition convertCosyVoiceFssResultGenerated :: "reader \<Rightarrow> WordInfomation \<Rightarrow> NlsEvent \<Rightarrow> NlsEvent parsed" where
  "convertCosyVoiceFssResultGenerated rd w ev =
    (if ev_msg ev = [] then parse_fail NlsEventMsgEmpty
     else if ev_type ev = TaskStarted then parse_ok (ev\<lparr>ev_type := SynthesisStarted\<rparr>)
     else if ev_type ev = TaskFinished then parse_ok (ev\<lparr>ev_type := SynthesisCompleted\<rparr>)
     else case rd (ev_msg ev) of
       None \<Rightarrow> parse_fail JsonParseFailed
     | Some doc \<Rightarrow> do {
         let valid = (ev_type ev = TaskFailed);
         payload \<leftarrow> json_get doc ''payload'';
         (valid, ev) \<leftarrow>
           (if \<not> isObject payload then Some (valid, ev)
            else do {
              sentence \<leftarrow> output_sentence payload;
              (valid, ev) \<leftarrow>
                (if isNull sentence then Some (valid, ev)
                 else do {
                   index \<leftarrow> int_field sentence ''index'' (ev_index ev);
                   ws \<leftarrow> words_field ''begin_time'' ''end_time'' w sentence;
                   Some (valid \<or> ws \<noteq> [], ev\<lparr>ev_type := SentenceSynthesis, ev_index := index,
                     ev_words := ev_words ev @ ws\<rparr>) });
              usage \<leftarrow> json_get payload ''usage'';
              if isNull usage then Some (valid, ev)
              else do {
                n \<leftarrow> json_get usage ''characters'';
                if isInt n then do { n \<leftarrow> asInt n; Some (True, ev\<lparr>ev_usage := n\<rparr>) } else Some (valid, ev) } });
         if valid then parse_ok ev else parse_fail IgnoredNlsEventMsg })"

definition parse_rest :: "reader \<Rightarrow> WordInfomation \<Rightarrow> NlsType \<Rightarrow> NlsServiceProtocol \<Rightarrow> json \<Rightarrow> NlsEvent \<Rightarrow> NlsEvent parsed" where
  "parse_rest rd w mode protocol doc ev =
    (if protocol = WsServiceProtocolDashScope then
       (if mode = TypeDashScopeFunAsrRealTime then convertFunAsrStResultGenerated rd w ev
        else if mode = TypeDashScopeParaformerRealTime then convertParaformerStResultGenerated rd w ev
        else if mode = TypeDashSceopCosyVoiceStreamInputTts then convertCosyVoiceFssResultGenerated rd w ev
        else parse_ok ev)
     else map_option Inr (parse_payload w doc ev))"

text \<open>\<open>NlsEventInner::parseJsonMsg\<close>: the code of the failure, or the event. \<open>w\<close> is what the variable for the words
holds before the first.\<close>

definition parseJsonMsg :: "reader \<Rightarrow> WordInfomation \<Rightarrow> NlsType \<Rightarrow> NlsServiceProtocol \<Rightarrow> bool \<Rightarrow> NlsEvent \<Rightarrow> int + NlsEvent" where
  "parseJsonMsg rd w mode protocol ignore ev =
    (if ev_msg ev = [] then Inl (- NlsEventMsgEmpty)
     else case rd (ev_msg ev) of
       None \<Rightarrow> Inl (- JsonParseFailed)
     | Some doc \<Rightarrow>
         (case parse_bind (parse_head protocol ignore doc ev) (parse_rest rd w mode protocol doc) of
            None \<Rightarrow> Inl (- JsonParseFailed)
          | Some r \<Rightarrow> r))"

text \<open>\<open>NlsEvent::parseJsonMsg\<close> hands the parsing to an event made by the default constructor.\<close>

definition NlsEvent_parseJsonMsg :: "reader \<Rightarrow> WordInfomation \<Rightarrow> bool \<Rightarrow> NlsEvent \<Rightarrow> int \<times> NlsEvent" where
  "NlsEvent_parseJsonMsg rd w ignore ev =
    (if ev_msg ev = [] then (- NlsEventMsgEmpty, ev)
     else case parseJsonMsg rd w TypeNone WsServiceProtocolNls ignore (new_NlsEvent [] 0 TaskFailed []) of
       Inl code \<Rightarrow> (code, ev)
     | Inr inner \<Rightarrow> (Success, inner))"

section \<open>The listeners\<close>

text \<open>
  A request has a callback for each type of event its listener knows, with a parameter of the user;
  an event of any other type goes to the callback for failures.
\<close>

definition SpeechRecognizerListener :: "EventType list" where
  "SpeechRecognizerListener = [RecognitionStarted, RecognitionCompleted, RecognitionResultChanged, Message, Close]"

definition SpeechTranscriberListener :: "EventType list" where
  "SpeechTranscriberListener = [TranscriptionStarted, SentenceBegin, TranscriptionResultChanged, SentenceEnd,
     SentenceSemantics, TranscriptionCompleted, Message, Close]"

definition DashParaformerTranscriberListener :: "EventType list" where
  "DashParaformerTranscriberListener = [TranscriptionStarted, SentenceBegin, TranscriptionResultChanged,
     SentenceEnd, SentenceSemantics, TranscriptionCompleted, Message, Close]"

definition DashFunAsrTranscriberListener :: "EventType list" where
  "DashFunAsrTranscriberListener = [TranscriptionStarted, SentenceBegin, TranscriptionResultChanged,
     SentenceEnd, SentenceSemantics, TranscriptionCompleted, Message, Close]"

definition SpeechSynthesizerListener :: "EventType list" where
  "SpeechSynthesizerListener = [SynthesisStarted, SynthesisCompleted, Close, Binary, MetaInfo, Message]"

definition FlowingSynthesizerListener :: "EventType list" where
  "FlowingSynthesizerListener = [SynthesisStarted, SynthesisCompleted, Close, Binary, SentenceSynthesis,
     SentenceBegin, SentenceEnd, Message]"

definition DashCosyVoiceSynthesizerListener :: "EventType list" where
  "DashCosyVoiceSynthesizerListener = [SynthesisStarted, SynthesisCompleted, Close, Binary, SentenceSynthesis,
     SentenceBegin, SentenceEnd, Message]"

definition DialogAssistantListener :: "EventType list" where
  "DialogAssistantListener = [RecognitionStarted, RecognitionCompleted, RecognitionResultChanged,
     DialogResultGenerated, Close, WakeWordVerificationCompleted]"

definition handled :: "NlsType \<Rightarrow> EventType list" where
  "handled mode =
    (case mode of
       TypeAsr \<Rightarrow> SpeechRecognizerListener
     | TypeRealTime \<Rightarrow> SpeechTranscriberListener
     | TypeDashScopeParaformerRealTime \<Rightarrow> DashParaformerTranscriberListener
     | TypeDashScopeFunAsrRealTime \<Rightarrow> DashFunAsrTranscriberListener
     | TypeTts \<Rightarrow> SpeechSynthesizerListener
     | TypeStreamInputTts \<Rightarrow> FlowingSynthesizerListener
     | TypeDashSceopCosyVoiceStreamInputTts \<Rightarrow> DashCosyVoiceSynthesizerListener
     | TypeDialog \<Rightarrow> DialogAssistantListener
     | _ \<Rightarrow> [])"

lemmas listener_defs = handled_def SpeechRecognizerListener_def SpeechTranscriberListener_def
  DashParaformerTranscriberListener_def DashFunAsrTranscriberListener_def SpeechSynthesizerListener_def
  FlowingSynthesizerListener_def DashCosyVoiceSynthesizerListener_def DialogAssistantListener_def

definition callback_of :: "NlsType \<Rightarrow> EventType \<Rightarrow> EventType" where
  "callback_of mode type = (if type \<in> set (handled mode) then type else TaskFailed)"

text \<open>What the listener calls: the method the user has set, with the event and the user's parameter.\<close>

definition listener :: "NlsType \<Rightarrow> (EventType \<Rightarrow> ptr) \<Rightarrow> (EventType \<rightharpoonup> ptr) \<Rightarrow> NlsEvent \<Rightarrow> (ptr \<times> NlsEvent \<times> ptr) option" where
  "listener mode method param ev =
    (let slot = callback_of mode (ev_type ev)
     in if method slot = NULL then None
        else Some (method slot, ev, case param slot of None \<Rightarrow> NULL | Some p \<Rightarrow> p))"

section \<open>Messages of the service\<close>

lemma word_total:
  "\<exists>n. word_int (JObject ms) k d = Some n" "\<exists>t. word_text (JObject ms) k u = Some t"
proof -
  have int: "\<exists>n. (if isInt f then asInt f else Some d) = Some n" for f using isInt_asInt [of f] by auto
  have str: "\<exists>t. (if isString f then asCString f else Some u) = Some t" for f by (cases f) simp_all
  show "\<exists>n. word_int (JObject ms) k d = Some n" using int by (auto simp: word_int_def)
  show "\<exists>t. word_text (JObject ms) k u = Some t" using str by (auto simp: word_text_def)
qed

lemma words_loop_total:
  "\<forall>v\<in>set vs. isObject v \<Longrightarrow> \<exists>ws. words_loop s e w vs = Some ws \<and> length ws = length vs"
proof (induction vs arbitrary: w)
  case (Cons v vs)
  then obtain ms where v: "v = JObject ms" by (cases v) auto
  obtain t a b where "word_text v ''text'' (w_text w) = Some t" "word_int v s (w_startTime w) = Some a"
    "word_int v e (w_endTime w) = Some b"
    using word_total v by metis
  moreover obtain ws where "words_loop s e \<lparr>w_text = t, w_startTime = a, w_endTime = b\<rparr> vs = Some ws"
    "length ws = length vs"
    using Cons.IH Cons.prems by auto
  ultimately show ?case by simp
qed simp

text \<open>A payload the parser can read: its words, if it has any, are objects.\<close>

definition words_ok :: "members \<Rightarrow> bool" where
  "words_ok ms \<longleftrightarrow> (\<forall>vs. map_of ms ''words'' = Some (JArray vs) \<longrightarrow> (\<forall>v\<in>set vs. isObject v))"

lemma words_field_total: "words_ok ms \<Longrightarrow> \<exists>ws. words_field s e w (JObject ms) = Some ws"
proof -
  assume ok: "words_ok ms"
  have "\<exists>ws. words_loop s e (w\<lparr>w_text := []\<rparr>) vs = Some ws" if "map_of ms ''words'' = Some (JArray vs)" for vs
    using words_loop_total [of vs s e] ok that unfolding words_ok_def by blast
  then show ?thesis by (auto simp: words_field_def split: option.split json.split)
qed

lemma parse_wake_total:
  "\<exists>ev'. parse_wake (JObject ms) ev = Some ev' \<and> ev_type ev' = ev_type ev \<and> ev_status ev' = ev_status ev \<and>
    ev_taskId ev' = ev_taskId ev \<and> ev_index ev' = ev_index ev \<and> ev_result ev' = ev_result ev \<and> ev_msg ev' = ev_msg ev"
proof -
  obtain a b c d where "bool_field (JObject ms) ''accepted'' (ev_wakeWordAccepted ev) = Some a"
    "bool_field (JObject ms) ''known'' (ev_wakeWordKnown ev) = Some b"
    "string_field (JObject ms) ''user_id'' (ev_wakeWordUserId ev) = Some c"
    "int_field (JObject ms) ''gender'' (ev_wakeWordGender ev) = Some d"
    using field_object by metis
  then show ?thesis by (simp add: parse_wake_def del: field_simps)
qed

lemma parse_stash_total:
  "\<exists>ev'. parse_stash (JObject ms) ev = Some ev' \<and> ev_type ev' = ev_type ev \<and> ev_status ev' = ev_status ev \<and>
    ev_taskId ev' = ev_taskId ev \<and> ev_index ev' = ev_index ev \<and> ev_result ev' = ev_result ev \<and> ev_msg ev' = ev_msg ev"
proof -
  define f where "f = (case map_of ms ''stash_result'' of None \<Rightarrow> JNull | Some v \<Rightarrow> v)"
  have f: "json_get (JObject ms) ''stash_result'' = Some f" by (simp add: f_def)
  show ?thesis
  proof (cases "isObject f")
    case True
    then obtain xs where xs: "f = JObject xs" by (cases f) auto
    obtain a b c d where "int_field f ''sentenceId'' (ev_stashSentenceId ev) = Some a"
      "int_field f ''beginTime'' (ev_stashBeginTime ev) = Some b"
      "int_field f ''currentTime'' (ev_stashCurrentTime ev) = Some c"
      "string_field f ''text'' (ev_stashText ev) = Some d"
      using field_object xs by metis
    then show ?thesis using True by (simp add: parse_stash_def f del: field_simps json_get.simps)
  next
    case False
    then show ?thesis by (simp add: parse_stash_def f del: json_get.simps)
  qed
qed

text \<open>What an object says of a string and of an integer.\<close>

definition told_string :: "members \<Rightarrow> string \<Rightarrow> string \<Rightarrow> string" where
  "told_string ms k d = (case map_of ms k of Some (JString t) \<Rightarrow> c_string t | _ \<Rightarrow> d)"

definition told_int :: "members \<Rightarrow> string \<Rightarrow> int \<Rightarrow> int" where
  "told_int ms k d = (case map_of ms k of Some v \<Rightarrow> if isInt v then the (asInt v) else d | None \<Rightarrow> d)"

lemma told_field:
  "string_field (JObject ms) k d = Some (told_string ms k d)" "int_field (JObject ms) k n = Some (told_int ms k n)"
  using isInt_asInt by (fastforce simp: told_string_def told_int_def split: option.split json.split)+

lemma parse_payload_total:
  assumes "map_of ms ''payload'' = Some (JObject ps)" "words_ok ps" "ev_type ev \<notin> {SynthesisCompleted, MetaInfo}"
  shows "\<exists>ev'. parse_payload w (JObject ms) ev = Some ev' \<and> ev_type ev' = ev_type ev \<and> ev_status ev' = ev_status ev \<and>
    ev_taskId ev' = ev_taskId ev \<and> ev_index ev' = told_int ps ''index'' (ev_index ev) \<and>
    ev_result ev' = told_string ps ''result'' (ev_result ev) \<and> ev_msg ev' = ev_msg ev"
proof -
  obtain ws where ws: "words_field ''startTime'' ''endTime'' w (JObject ps) = Some ws"
    using words_field_total [OF assms(2)] by blast
  obtain r where r: "double_field (JObject ps) ''confidence'' (ev_confidence ev) = Some r"
    using field_object by blast
  let ?i = "told_int ps" and ?t = "told_string ps"
  define e where "e = ev\<lparr>ev_result := ?t ''result'' (ev_result ev), ev_index := ?i ''index'' (ev_index ev),
    ev_time := ?i ''time'' (ev_time ev), ev_beginTime := ?i ''begin_time'' (ev_beginTime ev), ev_confidence := r,
    ev_displayText := ?t ''display_text'' (ev_displayText ev), ev_spokenText := ?t ''spoken_text'' (ev_spokenText ev),
    ev_timeOutStatus := ?i ''status'' (ev_timeOutStatus ev), ev_words := ev_words ev @ ws\<rparr>"
  obtain e1 where e1: "parse_wake (JObject ps) e = Some e1" "ev_type e1 = ev_type e \<and> ev_status e1 = ev_status e \<and>
    ev_taskId e1 = ev_taskId e \<and> ev_index e1 = ev_index e \<and> ev_result e1 = ev_result e \<and> ev_msg e1 = ev_msg e"
    using parse_wake_total by blast
  have "parse_payload w (JObject ms) ev = parse_stash (JObject ps) e1"
    using assms(1,3) ws r e1(1) by (simp add: parse_payload_def told_field e_def del: field_simps)
  then show ?thesis using parse_stash_total [of ps e1] e1(2) by (auto simp: e_def)
qed

text \<open>C11: a message of the service is delivered as the event it names, with the status, the task and the
sentence it tells of; numbers out of the range of \<open>int\<close> and members of another type are passed over.\<close>

theorem message_parsed:
  assumes "rd msg = Some (JObject ms)" "msg \<noteq> []" "map_of ms ''header'' = Some (JObject hs)"
    "map_of ms ''payload'' = Some (JObject ps)" "words_ok ps" "map_of hs ''name'' = Some (JString name)"
    "parseMsgType (c_string name) = Some ty" "ty \<notin> {SynthesisCompleted, MetaInfo}"
    "map_of hs ''status'' = Some (JInt status)" "int_range status"
  shows "\<exists>ev. parseJsonMsg rd w mode WsServiceProtocolNls ignore (new_NlsEvent msg Success Message []) = Inr ev \<and>
    ev_type ev = ty \<and> ev_status ev = status \<and> ev_taskId ev = told_string hs ''task_id'' [] \<and>
    ev_index ev = told_int ps ''index'' 0 \<and> ev_result ev = told_string ps ''result'' [] \<and> ev_msg ev = msg"
proof -
  define ev where "ev = (new_NlsEvent msg Success Message [])\<lparr>ev_type := ty, ev_status := status,
    ev_taskId := told_string hs ''task_id'' []\<rparr>"
  have head: "parse_head WsServiceProtocolNls ignore (JObject ms) (new_NlsEvent msg Success Message []) = parse_ok ev"
    using assms(3,6,7,9,10)
    by (simp add: parse_head_def parse_name_def parse_status_def told_field ev_def del: field_simps)
  have ev: "ev_type ev = ty" "ev_status ev = status" "ev_taskId ev = told_string hs ''task_id'' []"
    "ev_index ev = 0" "ev_result ev = []" "ev_msg ev = msg"
    by (simp_all add: ev_def)
  have "ev_type ev \<notin> {SynthesisCompleted, MetaInfo}" using assms(8) ev(1) by simp
  from parse_payload_total [OF assms(4,5) this, of w] show ?thesis
    using assms(1,2) by (auto simp: parseJsonMsg_def head parse_rest_def ev)
qed

definition ex_reader :: reader where
  "ex_reader msg = (if msg = ''message'' then Some (JObject
     [(''header'', JObject [(''name'', JString ''SentenceEnd''), (''status'', JInt 20000000),
        (''task_id'', JString ''t1'')]),
      (''payload'', JObject [(''index'', JInt 3), (''result'', JString ''hello''),
        (''words'', JArray [JObject [(''text'', JString ''hello''), (''startTime'', JInt 10), (''endTime'', JInt 20)]])])])
     else None)"

theorem message_parsed_witness:
  "\<exists>ev. parseJsonMsg ex_reader \<lparr>w_text = [], w_startTime = 7, w_endTime = 7\<rparr> TypeRealTime WsServiceProtocolNls False
      (new_NlsEvent ''message'' Success Message []) = Inr ev \<and>
    ev_type ev = SentenceEnd \<and> ev_status ev = 20000000 \<and> ev_taskId ev = ''t1'' \<and> ev_index ev = 3 \<and>
    ev_result ev = ''hello''"
proof -
  let ?hs = "[(''name'', JString ''SentenceEnd''), (''status'', JInt 20000000), (''task_id'', JString ''t1'')]"
  let ?ps = "[(''index'', JInt 3), (''result'', JString ''hello''),
     (''words'', JArray [JObject [(''text'', JString ''hello''), (''startTime'', JInt 10), (''endTime'', JInt 20)]])]"
  let ?ms = "[(''header'', JObject ?hs), (''payload'', JObject ?ps)]"
  have r: "ex_reader ''message'' = Some (JObject ?ms)" by (simp add: ex_reader_def)
  have "told_string ?hs ''task_id'' [] = ''t1''" "told_int ?ps ''index'' 0 = 3" "told_string ?ps ''result'' [] = ''hello''"
    by (simp_all add: told_string_def told_int_def c_string_def int_range_def)
  then show ?thesis
    using message_parsed [of ex_reader "''message''" ?ms ?hs ?ps "''SentenceEnd''" SentenceEnd 20000000
        "\<lparr>w_text = [], w_startTime = 7, w_endTime = 7\<rparr>" TypeRealTime False, OF r]
    by (auto simp: words_ok_def parseMsgType_def c_string_def int_range_def)
qed

section \<open>Names\<close>

text \<open>The names by which the service calls its events are those the SDK prints: every type of the NLS
protocol is found again under its printed name, and no name stands for two types.\<close>

theorem event_names:
  "ty \<notin> {Binary, Close, Message, TaskStarted, ResultGenerated, TaskFinished} \<Longrightarrow>
    parseMsgType (getMsgTypeString ty) = Some ty \<and>
    (\<forall>name. parseMsgType name = Some ty \<longrightarrow> name = getMsgTypeString ty \<or> ty = TaskFailed)"
  by (cases ty) (simp_all add: parseMsgType_def getMsgTypeString_def)

theorem event_names_witness: "parseMsgType ''SentenceEnd'' = Some SentenceEnd"
  using event_names [of SentenceEnd] by (simp add: getMsgTypeString_def)

section \<open>What goes wrong\<close>

text \<open>C37: a result of DashScope that brings no sentence keeps the type \<open>ResultGenerated\<close>, for which no
listener has a callback: the user's callback for failures is called, although nothing has failed.\<close>

theorem result_without_sentence:
  assumes "rd msg = Some (JObject ms)" "msg \<noteq> []" "map_of ms ''header'' = Some (JObject hs)"
    "map_of hs ''event'' = Some (JString ''result-generated'')" "map_of ms ''payload'' = Some (JObject ps)"
    "map_of ps ''output'' = Some (JObject os)" "map_of os ''sentence'' \<in> {None, Some JNull}"
    "map_of ps ''usage'' = Some (JObject us)" "map_of us (if mode = TypeDashSceopCosyVoiceStreamInputTts then ''characters'' else ''duration'') = Some (JInt n)"
    "int_range n" "mode \<in> {TypeDashScopeParaformerRealTime, TypeDashScopeFunAsrRealTime, TypeDashSceopCosyVoiceStreamInputTts}"
    "method TaskFailed \<noteq> NULL"
  shows "\<exists>ev p. parseJsonMsg rd w mode WsServiceProtocolDashScope ignore (new_NlsEvent msg Success Message []) = Inr ev \<and>
    ev_type ev = ResultGenerated \<and> ev_usage ev = n \<and> ev_status ev = Success \<and>
    listener mode method param ev = Some (method TaskFailed, ev, p)"
proof -
  define ev where "ev = (new_NlsEvent msg Success Message [])\<lparr>ev_type := ResultGenerated,
    ev_taskId := told_string hs ''task_id'' []\<rparr>"
  have c: "c_string ''result-generated'' = ''result-generated''" by (simp add: c_string_def)
  have head: "parse_head WsServiceProtocolDashScope ignore (JObject ms) (new_NlsEvent msg Success Message []) = parse_ok ev"
    using assms(3,4)
    by (simp add: parse_head_def parse_name_def parse_status_def told_field ev_def c parseMsgType_def del: field_simps)
  have s: "output_sentence (JObject ps) = Some JNull"
    using assms(6,7) by (auto simp: output_sentence_def)
  have ev: "ev_type ev = ResultGenerated" "ev_msg ev = msg" "ev_status ev = Success" by (simp_all add: ev_def)
  have "parse_rest rd w mode WsServiceProtocolDashScope (JObject ms) ev = parse_ok (ev\<lparr>ev_usage := n\<rparr>)"
    using assms(1,2,5,8-11) s ev
    by (auto simp: parse_rest_def convertFunAsrStResultGenerated_def convertParaformerStResultGenerated_def convertStResultGenerated_def convertCosyVoiceFssResultGenerated_def usage_field_def)
  then have "parseJsonMsg rd w mode WsServiceProtocolDashScope ignore (new_NlsEvent msg Success Message []) =
      Inr (ev\<lparr>ev_usage := n\<rparr>)"
    using assms(1,2) by (simp add: parseJsonMsg_def head parse_ok_def)
  then show ?thesis
    using assms(11,12) ev by (auto simp: listener_def callback_of_def listener_defs)
qed

theorem result_without_sentence_witness:
  "\<exists>ev p. parseJsonMsg (\<lambda>_. Some (JObject [(''header'', JObject [(''event'', JString ''result-generated'')]),
        (''payload'', JObject [(''output'', JObject []), (''usage'', JObject [(''duration'', JInt 2)])])]))
      \<lparr>w_text = [], w_startTime = 0, w_endTime = 0\<rparr> TypeDashScopeFunAsrRealTime WsServiceProtocolDashScope False
      (new_NlsEvent ''message'' Success Message []) = Inr ev \<and>
    ev_type ev = ResultGenerated \<and> ev_usage ev = 2 \<and> ev_status ev = Success \<and>
    listener TypeDashScopeFunAsrRealTime (\<lambda>_. 1) (\<lambda>_. None) ev = Some (1, ev, p)"
  using result_without_sentence [of "\<lambda>_. Some (JObject [(''header'', JObject [(''event'', JString ''result-generated'')]),
        (''payload'', JObject [(''output'', JObject []), (''usage'', JObject [(''duration'', JInt 2)])])])"
      "''message''" _ _ _ _ _ TypeDashScopeFunAsrRealTime 2 "\<lambda>_. 1" "\<lparr>w_text = [], w_startTime = 0, w_endTime = 0\<rparr>" False
      "\<lambda>_. None", OF refl]
  by (simp add: int_range_def)

text \<open>C38: an event whose binary data have been read as an array must not be copied: copy and original free
the same array, and the second destructor frees it again.\<close>

theorem copied_event_frees_twice:
  assumes "ev_type ev = Binary" "fresh \<noteq> NULL" "ev_inChar ev = NULL"
  shows "\<exists>mem' ev'. getBinaryDataInChar fresh mem ev = Some (mem', ev') \<and>
    (\<exists>mem''. destroy_NlsEvent mem' (copy_NlsEvent ev') = Some mem'' \<and> destroy_NlsEvent mem'' ev' = None)"
  using assms by (auto simp: getBinaryDataInChar_def destroy_NlsEvent_def copy_NlsEvent_def free_mem_def)

theorem copied_event_frees_twice_witness:
  "\<exists>mem' ev'. getBinaryDataInChar 8 (\<lambda>_. False) (new_NlsEvent [] Success Binary []) = Some (mem', ev') \<and>
    (\<exists>mem''. destroy_NlsEvent mem' (copy_NlsEvent ev') = Some mem'' \<and> destroy_NlsEvent mem'' ev' = None)"
  using copied_event_frees_twice [of "new_NlsEvent [] Success Binary []" 8 "\<lambda>_. False"] by simp

text \<open>\<open>NlsEvent::parseJsonMsg\<close> never succeeds: the event it lets parse has no message.\<close>

lemma NlsEvent_parse_fails: "NlsEvent_parseJsonMsg rd w ignore ev = (- NlsEventMsgEmpty, ev)"
  by (simp add: NlsEvent_parseJsonMsg_def parseJsonMsg_def)

text \<open>A word without a text repeats the text of the word before.\<close>

lemma words_repeat:
  "words_loop s e w [JObject [(''text'', JString t)], JObject []] =
    Some [\<lparr>w_text = c_string t, w_startTime = w_startTime w, w_endTime = w_endTime w\<rparr>,
      \<lparr>w_text = c_string t, w_startTime = w_startTime w, w_endTime = w_endTime w\<rparr>]"
  if "s \<noteq> ''text''" "e \<noteq> ''text''"
  using that by (simp add: word_text_def word_int_def Let_def)

end
