(* ===== verification/NodeState.thy ===== *)
theory NodeState
  imports RequestParam NlsEvents NodeIO
begin

text \<open>
  The state of a connection node (\<open>transport/connectNode.h\<close>) and what it tells its user
  (\<open>transport/connectNode.cpp\<close>): closing, the callbacks, the reconnection, and the handling of a
  received frame, with the status the node is in afterwards. What a node does to the outside is
  written to \<open>effects\<close>, oldest first: the events that reach the user's handler, the signal that
  releases a synchronous call, the calls of the connection pool, the bytes sent, the sockets
  closed and the events handed to libevent. Time stamps, the recording of API calls and the log
  are left out, as is what the user's handler does to the SDK itself.
\<close>

section \<open>States and events\<close>

datatype CmdType = CmdStart | CmdStop | CmdStControl | CmdTextDialog | CmdExecuteDialog | CmdWarkWord
  | CmdCancel | CmdSendText | CmdSendPing | CmdSendFlush

datatype ExitStatus = ExitInvalid | ExitStopping | ExitCancel

datatype ConnectStatus = NodeInvalid | NodeCreated | NodeInvoking | NodeInvoked | NodeConnecting
  | NodeConnected | NodeHandshaking | NodeHandshaked | NodeStarting | NodeStarted | NodeWakeWording
  | NodeFailed | NodeCompleted | NodeClosed | NodeReleased | NodeStop | NodeCancel | NodeSendAudio
  | NodeSendControl | NodePlayAudio | NodeSendText

primrec connect_status_code :: "ConnectStatus \<Rightarrow> int" where
  "connect_status_code NodeInvalid = 0"
| "connect_status_code NodeCreated = 1"
| "connect_status_code NodeInvoking = 2"
| "connect_status_code NodeInvoked = 3"
| "connect_status_code NodeConnecting = 4"
| "connect_status_code NodeConnected = 5"
| "connect_status_code NodeHandshaking = 6"
| "connect_status_code NodeHandshaked = 7"
| "connect_status_code NodeStarting = 8"
| "connect_status_code NodeStarted = 9"
| "connect_status_code NodeWakeWording = 10"
| "connect_status_code NodeFailed = 11"
| "connect_status_code NodeCompleted = 12"
| "connect_status_code NodeClosed = 13"
| "connect_status_code NodeReleased = 14"
| "connect_status_code NodeStop = 15"
| "connect_status_code NodeCancel = 16"
| "connect_status_code NodeSendAudio = 17"
| "connect_status_code NodeSendControl = 18"
| "connect_status_code NodePlayAudio = 19"
| "connect_status_code NodeSendText = 20"

lemma connect_status_code_inject [simp]: "connect_status_code a = connect_status_code b \<longleftrightarrow> a = b"
  by (cases a) (cases b; simp)+

text \<open>The code compares the states as numbers.\<close>

instantiation ConnectStatus :: linorder
begin

definition less_eq_ConnectStatus :: "ConnectStatus \<Rightarrow> ConnectStatus \<Rightarrow> bool" where
  "less_eq_ConnectStatus s t \<longleftrightarrow> connect_status_code s \<le> connect_status_code t"

definition less_ConnectStatus :: "ConnectStatus \<Rightarrow> ConnectStatus \<Rightarrow> bool" where
  "less_ConnectStatus s t \<longleftrightarrow> connect_status_code s < connect_status_code t"

instance
  by standard (auto simp: less_eq_ConnectStatus_def less_ConnectStatus_def)

end

primrec getConnectNodeStatusString :: "ConnectStatus \<Rightarrow> string" where
  "getConnectNodeStatusString NodeInvalid = ''NodeInvalid''"
| "getConnectNodeStatusString NodeCreated = ''NodeCreated''"
| "getConnectNodeStatusString NodeInvoking = ''NodeInvoking''"
| "getConnectNodeStatusString NodeInvoked = ''NodeInvoked''"
| "getConnectNodeStatusString NodeConnecting = ''NodeConnecting''"
| "getConnectNodeStatusString NodeConnected = ''NodeConnected''"
| "getConnectNodeStatusString NodeHandshaking = ''NodeHandshaking''"
| "getConnectNodeStatusString NodeHandshaked = ''NodeHandshaked''"
| "getConnectNodeStatusString NodeStarting = ''NodeStarting''"
| "getConnectNodeStatusString NodeStarted = ''NodeStarted''"
| "getConnectNodeStatusString NodeWakeWording = ''NodeWakeWording''"
| "getConnectNodeStatusString NodeFailed = ''NodeFailed''"
| "getConnectNodeStatusString NodeCompleted = ''NodeCompleted''"
| "getConnectNodeStatusString NodeClosed = ''NodeClosed''"
| "getConnectNodeStatusString NodeReleased = ''NodeReleased''"
| "getConnectNodeStatusString NodeStop = ''NodeStop''"
| "getConnectNodeStatusString NodeCancel = ''NodeCancel''"
| "getConnectNodeStatusString NodeSendAudio = ''NodeSendAudio''"
| "getConnectNodeStatusString NodeSendControl = ''NodeSendControl''"
| "getConnectNodeStatusString NodePlayAudio = ''NodePlayAudio''"
| "getConnectNodeStatusString NodeSendText = ''NodeSendText''"

datatype ConnectType = ConnectWithSSL | ConnectWithDirectIP | ConnectWithIpCache
  | ConnectWithLongConnect | ConnectWithPrestartedNodePool | ConnectWithPreconnectedNodePool

datatype ENCODER_TYPE = ENCODER_NONE | ENCODER_OPUS | ENCODER_OPU

datatype ReconnectionState = NoReconnection | WillReconnect | TriggerReconnection
  | NewReconnectionStarting

abbreviation (input) max_try_count :: u32 where "max_try_count \<equiv> 4"
abbreviation (input) RetryConnectCount :: nat where "RetryConnectCount \<equiv> 4"

text \<open>Numbers of \<open>NlsErrorCode\<close> the node uses.\<close>

abbreviation (input) DefaultErrorCode :: int where "DefaultErrorCode \<equiv> 10000002"
abbreviation (input) SysErrorCode :: int where "SysErrorCode \<equiv> 10000003"
abbreviation (input) JsonStringParseFailed :: int where "JsonStringParseFailed \<equiv> 10000007"
abbreviation (input) UnknownWsHeadType :: int where "UnknownWsHeadType \<equiv> 10000008"
abbreviation (input) HttpConnectFailed :: int where "HttpConnectFailed \<equiv> 10000009"
abbreviation (input) SysConnectFailed :: int where "SysConnectFailed \<equiv> 10000015"
abbreviation (input) HttpGotBadStatusWith403 :: int where "HttpGotBadStatusWith403 \<equiv> 10000100"
abbreviation (input) EvSendTimeout :: int where "EvSendTimeout \<equiv> 10000101"
abbreviation (input) EvRecvTimeout :: int where "EvRecvTimeout \<equiv> 10000102"
abbreviation (input) EvUnknownEvent :: int where "EvUnknownEvent \<equiv> 10000103"
abbreviation (input) OpNowInProgress :: int where "OpNowInProgress \<equiv> 10000104"
abbreviation (input) BrokenPipe :: int where "BrokenPipe \<equiv> 10000105"
abbreviation (input) TokenHasExpired :: int where "TokenHasExpired \<equiv> 10000110"
abbreviation (input) TokenIsInvalid :: int where "TokenIsInvalid \<equiv> 10000111"
abbreviation (input) NoPrivilegeToVoice :: int where "NoPrivilegeToVoice \<equiv> 10000112"
abbreviation (input) MissAuthHeader :: int where "MissAuthHeader \<equiv> 10000113"
abbreviation (input) Utf8ConvertError :: int where "Utf8ConvertError \<equiv> 10000120"
abbreviation (input) CloseCode :: int where "CloseCode \<equiv> 20000000"
abbreviation (input) ClientError :: int where "ClientError \<equiv> 40000000"
abbreviation (input) ConcurrencyExceed :: int where "ConcurrencyExceed \<equiv> 43040001"

section \<open>The node\<close>

datatype channel = CmdChannel | AudioChannel | WakeChannel

datatype effect =
    Callback NlsEvent
  | FinishSignal
  | MarkAbnormal
  | StorePrestarted bool
  | PromotePrestarted
  | Sent channel "byte list"
  | SslClose
  | SocketOpen int string
  | SocketClose int
  | UpdateStatus int
  | DeleteRequest
  | Launch
  | StartWithPool
  | Reconnect
  | SingleRoundText
  | NewRound

record Node =
  workStatus :: ConnectStatus
  exitStatus :: ExitStatus
  isStop :: bool
  isDestroy :: bool
  isWakeStop :: bool
  isFirstBinaryFrame :: bool
  isConnected :: bool
  isLongConnection :: bool
  usePreconnection :: bool
  isPreconnecting :: bool
  isPreNodeStartStepByStep :: bool
  isSendSingleRoundText :: bool
  releasingFlag :: bool
  syncCallTimeoutMs :: nat
  nodeErrCode :: int
  nodeErrMsg :: string
  retryConnectCount :: nat
  socketFd :: int
  ownSsl :: bool
  nurl :: urlAddress
  dnsEvent :: bool
  readEvent :: bool
  writeEvent :: bool
  connectEvent :: bool
  launchEvent :: bool
  startWithPoolEvent :: bool
  connectTimerEvent :: bool
  connectTimerFlag :: bool
  rc_state :: ReconnectionState
  reconnected_count :: u32
  tw_index_offset :: u64
  connect_type :: ConnectType
  hasRequest :: bool
  hasHandler :: bool
  nodeOnMessage :: bool
  nparam :: INlsRequestParam
  limitSize :: nat
  binaryEvBuffer :: "byte list"
  wwvEvBuffer :: "byte list"
  cmdEvBuffer :: "byte list"
  nlsEncoder :: bool
  encoderType :: ENCODER_TYPE
  audioFrame :: "byte list option"
  isFirstAudioFrame :: bool
  effects :: "effect list"

text \<open>
  The outside as one step meets it: whether the try-lock of closing succeeds, the parser and the writer
  of the JSON library, what stack variables hold before they are set, the record of the request that
  is put into its last messages, the character conversion, whether libevent takes an event, whether
  the pool exists, and what the socket layer returns for bytes to be sent, with the text of its error.
\<close>

record outside =
  x_try_lock :: bool
  x_json :: reader
  x_dump :: writer
  x_word :: WordInfomation
  x_record :: members
  x_utf8ToGbk :: "string \<Rightarrow> string"
  x_event_add :: bool
  x_pool :: bool
  x_write :: "byte list \<Rightarrow> int"
  x_errorText :: string

text \<open>The constructor. \<open>_url\<close> has no initializer: it is the argument \<open>garbage\<close>.\<close>

definition new_ConnectNode :: "urlAddress \<Rightarrow> INlsRequestParam \<Rightarrow> bool \<Rightarrow> bool \<Rightarrow> Node" where
  "new_ConnectNode garbage param handler long =
    \<lparr>workStatus = NodeCreated, exitStatus = ExitInvalid, isStop = False, isDestroy = False,
     isWakeStop = False, isFirstBinaryFrame = True, isConnected = False, isLongConnection = long,
     usePreconnection = False, isPreconnecting = False, isPreNodeStartStepByStep = False,
     isSendSingleRoundText = False, releasingFlag = False, syncCallTimeoutMs = 0,
     nodeErrCode = Success, nodeErrMsg = [], retryConnectCount = 0, socketFd = INVALID_SOCKET,
     ownSsl = True, nurl = garbage, dnsEvent = False, readEvent = False, writeEvent = False,
     connectEvent = False, launchEvent = False, startWithPoolEvent = False, connectTimerEvent = False,
     connectTimerFlag = True, rc_state = NoReconnection, reconnected_count = 0, tw_index_offset = 0,
     connect_type = ConnectWithSSL, hasRequest = True, hasHandler = handler,
     nodeOnMessage = enableOnMessage (p_conn param), nparam = param,
     limitSize = 192000, binaryEvBuffer = [], wwvEvBuffer = [], cmdEvBuffer = [], nlsEncoder = False,
     encoderType = ENCODER_NONE, audioFrame = None, isFirstAudioFrame = True, effects = []\<rparr>"

definition emit :: "effect list \<Rightarrow> Node \<Rightarrow> Node" where
  "emit es s = s\<lparr>effects := effects s @ es\<rparr>"

text \<open>\<open>initAllStatus\<close>: a node of a long connection starts over.\<close>

definition initAllStatus :: "Node \<Rightarrow> Node" where
  "initAllStatus s = emit [NewRound] (s\<lparr>isFirstBinaryFrame := True, isStop := False, isDestroy := False,
     isWakeStop := False, workStatus := NodeCreated, exitStatus := ExitInvalid\<rparr>)"

definition checkConnectCount :: "Node \<Rightarrow> bool \<times> Node" where
  "checkConnectCount s =
    (if retryConnectCount s < RetryConnectCount
     then (True, s\<lparr>retryConnectCount := Suc (retryConnectCount s)\<rparr>)
     else (False, s\<lparr>retryConnectCount := 0\<rparr>))"

section \<open>Closing\<close>

definition drop_audio :: "Node \<Rightarrow> Node" where
  "drop_audio s = s\<lparr>audioFrame := None, isFirstAudioFrame := True\<rparr>"

definition close_socket :: "Node \<Rightarrow> Node" where
  "close_socket s =
    (if socketFd s \<noteq> INVALID_SOCKET \<and> ownSsl s
     then emit ((if url_isSsl (nurl s) then [SslClose] else []) @ [SocketClose (socketFd s)])
       (s\<lparr>socketFd := INVALID_SOCKET\<rparr>)
     else s)"

definition free_events :: "Node \<Rightarrow> Node" where
  "free_events s = s\<lparr>dnsEvent := dnsEvent s \<and> \<not> url_enableSysGetAddr (nurl s), readEvent := False,
     writeEvent := False, connectEvent := False, launchEvent := False, startWithPoolEvent := False,
     connectTimerEvent := False,
     connectTimerFlag := connectTimerFlag s \<and> \<not> connectTimerEvent s\<rparr>"

text \<open>When the lock cannot be had within its time, a node that is being released or cancelled is left
alone; otherwise closing goes on without the lock.\<close>

definition skips_close :: "outside \<Rightarrow> Node \<Rightarrow> bool" where
  "skips_close x s \<longleftrightarrow> \<not> x_try_lock x \<and> (releasingFlag s \<or> exitStatus s = ExitCancel)"

definition disconnectProcess :: "outside \<Rightarrow> Node \<Rightarrow> Node" where
  "disconnectProcess x s =
    (if skips_close x s then s\<lparr>isConnected := False\<rparr>
     else
       let had = socketFd s \<noteq> INVALID_SOCKET;
           s = close_socket s;
           s = (if had then s\<lparr>dnsEvent := dnsEvent s \<and> \<not> url_enableSysGetAddr (nurl s)\<rparr> else s)
       in s\<lparr>isConnected := False\<rparr>)"

definition closeNode :: "outside \<Rightarrow> Node \<Rightarrow> Node" where
  "closeNode x s =
    (if skips_close x s then drop_audio (s\<lparr>isConnected := False\<rparr>)
     else drop_audio (free_events ((close_socket s)\<lparr>isConnected := False\<rparr>)))"

definition closeStatusConnectNode :: "Node \<Rightarrow> Node" where
  "closeStatusConnectNode s = drop_audio (s\<lparr>nlsEncoder := False, connectTimerFlag := False\<rparr>)"

definition closeStatusConnectNodeForConnectedPool :: "outside \<Rightarrow> Node \<Rightarrow> Node" where
  "closeStatusConnectNodeForConnectedPool x s =
    (if skips_close x s then drop_audio (s\<lparr>isConnected := False\<rparr>)
     else (drop_audio (free_events (s\<lparr>nlsEncoder := False, isConnected := False\<rparr>)))\<lparr>connectTimerFlag := False\<rparr>)"

section \<open>Callbacks\<close>

text \<open>\<open>sendFinishCondSignal\<close> wakes the thread that waits in a synchronous start or stop.\<close>

definition sendFinishCondSignal :: "EventType \<Rightarrow> Node \<Rightarrow> Node" where
  "sendFinishCondSignal type s =
    (if 0 < syncCallTimeoutMs s \<and>
        type \<in> {Close, RecognitionStarted, TranscriptionStarted, SynthesisStarted}
     then emit [FinishSignal] s else s)"

definition updateTwIndexOffset :: "NlsEvent \<Rightarrow> Node \<Rightarrow> Node" where
  "updateTwIndexOffset ev s =
    (if ev_type ev = SentenceBegin then s\<lparr>tw_index_offset := of_int (ev_index ev)\<rparr> else s)"

definition reconnect_code :: "int \<Rightarrow> bool" where
  "reconnect_code code \<longleftrightarrow> 50000000 \<le> code \<and> code < 60000000 \<or> code = DefaultErrorCode \<or>
     code = SysErrorCode \<or> code = UnknownWsHeadType \<or> code = HttpConnectFailed \<or>
     code = SysConnectFailed \<or> code = ClientError \<or> code = ConcurrencyExceed"

definition ignoreCallbackWhenReconnecting :: "EventType \<Rightarrow> int \<Rightarrow> Node \<Rightarrow> bool \<times> Node" where
  "ignoreCallbackWhenReconnecting type code s =
    (if \<not> hasRequest s \<or> \<not> enableReconnect (p_conn (nparam s)) then (False, s)
     else
       let s = (if type = TaskFailed \<and> reconnect_code code \<and>
             (rc_state s = NoReconnection \<or> rc_state s = NewReconnectionStarting)
           then s\<lparr>reconnected_count := reconnected_count s + 1, rc_state := WillReconnect\<rparr> else s)
       in if (rc_state s = WillReconnect \<or> rc_state s = TriggerReconnection) \<and>
             (type = TaskFailed \<or> type = Close)
          then if reconnected_count s \<le> max_try_count then (True, s)
               else (False, s\<lparr>rc_state := NoReconnection\<rparr>)
          else (False, s))"

definition ignoreCallbackWhenNodeClosedWhenLongConnection :: "EventType \<Rightarrow> Node \<Rightarrow> bool" where
  "ignoreCallbackWhenNodeClosedWhenLongConnection type s \<longleftrightarrow>
     hasRequest s \<and> isLongConnection s \<and> workStatus s = NodeClosed \<and> type = TaskFailed"

definition nodeReconnecting :: "outside \<Rightarrow> Node \<Rightarrow> Node" where
  "nodeReconnecting x s =
    (if rc_state s = WillReconnect \<and> x_event_add x
     then emit [Reconnect] (s\<lparr>rc_state := TriggerReconnection\<rparr>) else s)"

definition handlerMessage :: "string \<Rightarrow> EventType \<Rightarrow> Node \<Rightarrow> Node" where
  "handlerMessage response type s =
    (if workStatus s = NodeInvalid then s
     else emit [Callback (new_NlsEvent response Success type (p_taskId (p_text (nparam s))))] s)"

text \<open>The middle of \<open>handlerFrame\<close>: the event goes to the user, as it is or as a \<open>Message\<close>.\<close>

definition tell_user :: "bool \<Rightarrow> NlsEvent \<Rightarrow> Node \<Rightarrow> Node" where
  "tell_user ignore ev s =
    (if nodeOnMessage s then
       let s = sendFinishCondSignal Message s
       in if ignore then s else handlerMessage (ev_msg ev) Message s
     else
       let s = sendFinishCondSignal (ev_type ev) s
       in if ignore then s else emit [Callback ev] s)"

definition handlerFrame :: "outside \<Rightarrow> NlsEvent \<Rightarrow> Node \<Rightarrow> int \<times> Node" where
  "handlerFrame x ev s =
    (if workStatus s = NodeInvalid then (- InvaildNodeStatus, s)
     else if \<not> hasHandler s then (- NlsEventEmpty, s)
     else
       let (ignore, s) = ignoreCallbackWhenReconnecting (ev_type ev) (ev_status ev) (updateTwIndexOffset ev s);
           ignore = (ignore \<or> ignoreCallbackWhenNodeClosedWhenLongConnection (ev_type ev) s);
           s = tell_user ignore ev s;
           s = (if ev_type ev = Close then
                  let s = nodeReconnecting x s;
                      s = (if ignore then s else s\<lparr>reconnected_count := 0\<rparr>)
                  in s\<lparr>retryConnectCount := 0\<rparr>
                else if ev_type ev = TaskFailed \<and> \<not> ignore \<and> hasRequest s \<and> x_pool x
                then emit [MarkAbnormal] s
                else s)
       in (Success, s))"

text \<open>The record of the request is added to a message, which must be a JSON object; else it is lost.\<close>

definition replenishNodeProcess :: "outside \<Rightarrow> string \<Rightarrow> string" where
  "replenishNodeProcess x error =
    (let record = (\<lambda>ms. x_dump x (JObject (fold (\<lambda>(k, v). set_member k v) (x_record x) ms)))
     in case x_json x error of
       Some (JObject ms) \<Rightarrow> record ms
     | Some JNull \<Rightarrow> record []
     | _ \<Rightarrow> [])"

definition handlerEvent :: "outside \<Rightarrow> string \<Rightarrow> int \<Rightarrow> EventType \<Rightarrow> Node \<Rightarrow> Node" where
  "handlerEvent x text errorCode type s =
    (if exitStatus s = ExitCancel then s
     else if \<not> hasRequest s then s
     else
       let s = (if errorCode \<noteq> CloseCode then s\<lparr>nodeErrCode := errorCode\<rparr> else s);
           msg = (if type = Close \<or> type = TaskFailed then replenishNodeProcess x text else text);
           ev = new_NlsEvent msg errorCode type (p_taskId (p_text (nparam s)))
       in if \<not> hasHandler s then s
          else if workStatus s = NodeClosed then s
          else
            let s = snd (handlerFrame x ev s)
            in if type = Close then s\<lparr>workStatus := NodeClosed\<rparr> else s)"

definition genCloseMsg :: "outside \<Rightarrow> Node \<Rightarrow> string" where
  "genCloseMsg x s =
    (let taskId = p_taskId (p_text (nparam s));
         buf = x_dump x (object ([(''channelClosed'', JString ''nls request finished.'')] @
           only (taskId \<noteq> []) ''task_id'' (JString taskId)))
     in if buf = [] then ''{\"channelClosed\": \"nls request finished.\"}'' else buf)"

definition occurs :: "string \<Rightarrow> string \<Rightarrow> bool" where
  "occurs key msg \<longleftrightarrow> str_find key msg \<noteq> None"

text \<open>The code of an error text: its JSON status when it is JSON, else what the text contains.\<close>

definition json_status :: "json \<Rightarrow> int" where
  "json_status doc =
    (case do { head \<leftarrow> json_get doc ''header'';
         if isObject head then int_field head ''status'' DefaultErrorCode else Some DefaultErrorCode } of
       Some code \<Rightarrow> code
     | None \<Rightarrow> DefaultErrorCode)"

definition getErrorCodeFromMsg :: "outside \<Rightarrow> string \<Rightarrow> int" where
  "getErrorCodeFromMsg x msg =
    (case x_json x msg of
       Some doc \<Rightarrow> json_status doc
     | None \<Rightarrow>
         if occurs ''return of SSL_read:'' msg then DefaultErrorCode
         else if occurs ''ACCESS_DENIED'' msg then
           (if occurs ''The token'' msg then
              (if occurs ''has expired'' msg then TokenHasExpired
               else if occurs ''is invalid'' msg then TokenIsInvalid
               else DefaultErrorCode)
            else if occurs ''No privilege to this voice'' msg then NoPrivilegeToVoice
            else if occurs ''Missing authorization header'' msg then MissAuthHeader
            else DefaultErrorCode)
         else if occurs ''Got bad status'' msg then
           (if occurs ''403 Forbidden'' msg then HttpGotBadStatusWith403 else DefaultErrorCode)
         else if occurs ''Operation now in progress'' msg then OpNowInProgress
         else if occurs ''Broken pipe'' msg then BrokenPipe
         else if occurs ''connect failed'' msg then SysConnectFailed
         else DefaultErrorCode)"

definition handlerTaskFailedEvent :: "outside \<Rightarrow> string \<Rightarrow> int \<Rightarrow> Node \<Rightarrow> Node" where
  "handlerTaskFailedEvent x failedInfo code s =
    (let (msg, code) =
       (if failedInfo = [] then (''{\"TaskFailed\":\"Unknown failed.\"}'', DefaultErrorCode)
        else (take 1022 (''{\"TaskFailed\":\"'' @ c_string failedInfo @ ''\"}''),
              if code = DefaultErrorCode then getErrorCodeFromMsg x failedInfo else code));
       s = handlerEvent x msg code TaskFailed s
     in handlerEvent x (genCloseMsg x s) CloseCode Close s)"

section \<open>A received frame\<close>

record in_frame =
  fr_type :: byte
  fr_data :: "byte list"
  fr_closeCode :: int

definition chars :: "byte list \<Rightarrow> string" where
  "chars bs = map (\<lambda>b. char_of (unat b)) bs"

definition convertResult :: "outside \<Rightarrow> in_frame \<Rightarrow> Node \<Rightarrow> NlsEvent option \<times> int \<times> Node" where
  "convertResult x fr s =
    (if \<not> hasRequest s then (None, - RequestEmpty, s)
     else if fr_type fr = BINARY_FRAME then
       (if fr_data fr \<noteq> []
        then (Some ((new_NlsEvent [] Success Binary (p_taskId (p_text (nparam s))))\<lparr>ev_binary := fr_data fr\<rparr>),
          Success, s)
        else (None, - WsFrameBodyEmpty, s))
     else if fr_type fr = TEXT_FRAME then
       let result = chars (fr_data fr);
           result = (if outputFormat (p_conn (nparam s)) = ''GBK'' then x_utf8ToGbk x result else result)
       in if result = []
          then (None, - WsResponsePackageEmpty,
            handlerEvent x ''{\"TaskFailed\": \"utf8ToGbk failed.\"}'' Utf8ConvertError TaskFailed s)
          else
            (case parseJsonMsg (x_json x) (x_word x) (p_mode (p_conn (nparam s)))
                (url_serviceProtocol (nurl s)) (nodeOnMessage s) (new_NlsEvent result Success Message []) of
               Inr ev \<Rightarrow> (Some ev, Success, s)
             | Inl ret \<Rightarrow>
                 if ret = - IgnoredNlsEventMsg then (None, ret, s)
                 else (None, ret,
                   handlerEvent x ''{\"TaskFailed\": \"JSON: Json parse failed.\"}'' JsonStringParseFailed TaskFailed s))
     else (None, - UnknownWsFrameHeadType,
       handlerEvent x ''{\"TaskFailed\": \"WEBSOCKET: unkown head type.\"}'' UnknownWsHeadType TaskFailed s))"

lemma convertResult_shape:
  "convertResult x fr s = (ev, r, s') \<Longrightarrow> (ev \<noteq> None \<longrightarrow> s' = s \<and> r = Success) \<and>
    (s' = s \<or> (\<exists>msg code. s' = handlerEvent x msg code TaskFailed s))"
  unfolding convertResult_def Let_def by (auto split: if_splits sum.splits)

text \<open>The status after the callback: the node, whether it is to be closed, and whether the event was one
that a long connection ignores.\<close>

definition started_event :: "EventType \<Rightarrow> bool" where
  "started_event type \<longleftrightarrow> type \<in> {RecognitionStarted, TranscriptionStarted, SynthesisStarted}"

definition start_working :: "outside \<Rightarrow> Node \<Rightarrow> Node" where
  "start_working x s =
    (let s = (if requestType (p_conn (nparam s)) = SpeechWakeWordDialog then s\<lparr>workStatus := NodeWakeWording\<rparr>
       else
         let s = s\<lparr>workStatus := NodeStarted\<rparr>;
             text = (if p_mode (p_conn (nparam s)) \<in> {TypeStreamInputTts, TypeDashSceopCosyVoiceStreamInputTts}
               then singeRoundText (p_derived (nparam s)) else [])
         in if text \<noteq> [] then
              let s = s\<lparr>isSendSingleRoundText := True\<rparr>
              in if x_event_add x then emit [SingleRoundText] s else s
            else s)
     in s\<lparr>rc_state := NoReconnection\<rparr>)"

definition after_callback :: "outside \<Rightarrow> EventType \<Rightarrow> Node \<Rightarrow> bool \<times> bool \<times> Node" where
  "after_callback x type s =
    (if started_event type then (False, False, start_working x s)
     else if type = Close \<or> type = RecognitionCompleted
     then (p_mode (p_conn (nparam s)) \<noteq> TypeDialog, False, s\<lparr>workStatus := NodeCompleted\<rparr>)
     else if type = TaskFailed then
       (let ig = ignoreCallbackWhenNodeClosedWhenLongConnection type s
        in (True, ig, if ig then s else s\<lparr>workStatus := NodeFailed\<rparr>))
     else if type = TranscriptionCompleted \<or> type = SynthesisCompleted
     then (True, False, s\<lparr>workStatus := NodeCompleted\<rparr>)
     else if type = DialogResultGenerated then (True, False, s)
     else if type = WakeWordVerificationCompleted then (False, False, s\<lparr>workStatus := NodeStarted\<rparr>)
     else if type = Binary \<and> isFirstBinaryFrame s
     then (False, False, s\<lparr>isFirstBinaryFrame := False, workStatus := NodeStarted\<rparr>)
     else (False, False, s))"

text \<open>A finished request: its connection is closed, kept for the next round, or goes to the pool.\<close>

definition store_in_pool :: "outside \<Rightarrow> Node \<Rightarrow> Node" where
  "store_in_pool x s =
    (if \<not> x_pool x then s
     else if connect_type s = ConnectWithPreconnectedNodePool \<and> \<not> ownSsl s then emit [PromotePrestarted] s
     else emit [StorePrestarted (ownSsl s)] s)"

definition finish_request :: "outside \<Rightarrow> bool \<Rightarrow> Node \<Rightarrow> Node" where
  "finish_request x ignoreFlag s =
    (let s = s\<lparr>isPreconnecting := False\<rparr>
     in if \<not> isLongConnection s \<or> workStatus s = NodeFailed then
          let s = (if usePreconnection s \<and> workStatus s \<noteq> NodeFailed
              then (closeStatusConnectNodeForConnectedPool x s)\<lparr>isPreconnecting := True\<rparr>
              else closeNode x s);
              s = (if isPreconnecting s then store_in_pool x s else s)
          in handlerEvent x (genCloseMsg x s) CloseCode Close s
        else if ignoreFlag then closeNode x s
        else
          let s = closeStatusConnectNode s
          in handlerEvent x (genCloseMsg x s) CloseCode Close s)"

definition setTaskId :: "string \<Rightarrow> Node \<Rightarrow> Node" where
  "setTaskId taskId s = s\<lparr>nparam := (nparam s)\<lparr>p_text := (p_text (nparam s))\<lparr>p_taskId := taskId\<rparr>\<rparr>\<rparr>"

definition parse_event :: "outside \<Rightarrow> NlsEvent option \<Rightarrow> int \<Rightarrow> Node \<Rightarrow> int \<times> Node" where
  "parse_event x frameEvent result s =
    (case frameEvent of
       None \<Rightarrow>
         if result = - WsFrameBodyEmpty \<or> result = - IgnoredNlsEventMsg then (Success, s)
         else
           let s = closeNode x s;
               s = (if result \<noteq> Success then handlerEvent x (genCloseMsg x s) CloseCode Close s else s)
           in (- NlsEventEmpty, s)
     | Some ev \<Rightarrow>
         if exitStatus s = ExitCancel then (- InvalidExitStatus, s)
         else
           let s = (if started_event (ev_type ev) \<and> ev_taskId ev \<noteq> [] then setTaskId (ev_taskId ev) s else s);
               (result, s) = handlerFrame x ev s
           in if result \<noteq> 0 then (result, s)
              else
                let (closeFlag, ignoreFlag, s) = after_callback x (ev_type ev) s
                in (Success, if closeFlag then finish_request x ignoreFlag s else s))"

definition parseFrame :: "outside \<Rightarrow> in_frame \<Rightarrow> Node \<Rightarrow> int \<times> Node" where
  "parseFrame x fr s =
    (if \<not> hasRequest s then (- RequestEmpty, s)
     else if fr_type fr = CLOSE then
       parse_event x
         (if workStatus s \<noteq> NodeClosed
          then Some (new_NlsEvent (take 2046 (''{\"TaskFailed\":\"'' @ c_string (chars (fr_data fr)) @ ''\"}''))
            (fr_closeCode fr) TaskFailed (p_taskId (p_text (nparam s))))
          else None) Success s
     else if fr_type fr = PONG then (Success, s)
     else
       let (ev, result, s) = convertResult x fr s
       in parse_event x ev result s)"

text \<open>The frames one call of \<open>webSocketResponse\<close> hands over: the first that fails ends it.\<close>

fun parse_frames :: "(nat \<Rightarrow> outside) \<Rightarrow> in_frame list \<Rightarrow> Node \<Rightarrow> int \<times> Node" where
  "parse_frames x [] s = (Success, s)"
| "parse_frames x (fr # frs) s =
    (let (ret, s) = parseFrame (x 0) fr s
     in if ret \<noteq> 0 then (ret, s) else parse_frames (\<lambda>k. x (Suc k)) frs s)"

end
