(* ===== verification/NodeCommands.thy ===== *)
theory NodeCommands
  imports NodeState
begin

text \<open>
  What a node sends (\<open>transport/connectNode.cpp\<close>): commands and audio are packed into WebSocket
  frames and wait in three buffers, for commands, for audio and for audio before the wake word.
  The buffers are sent in pieces of at most \<open>NodeFrameSize\<close> bytes by \<open>nlsSendFrame\<close>. The
  commands' texts come from the request's parameters (\<open>RequestParam\<close>). The JSON library, the random
  identifiers and the encoder of the opus libraries are parameters, in \<open>feed\<close>.
\<close>

section \<open>Buffers\<close>

text \<open>\<open>y_uuid\<close> are the identifiers a command of a type draws. \<open>y_offset\<close> is the time from the first audio to the
interruption of a reconnected request. \<open>y_encode\<close> is the encoder: its result and its output.
\<open>y_frameBytes\<close> is the size of the encoder's frames.\<close>

record feed =
  y_alloc :: "nat \<Rightarrow> bool"
  y_json :: reader
  y_dump :: writer
  y_uuid :: "CmdType \<Rightarrow> nat \<Rightarrow> string"
  y_offset :: u64
  y_encode :: "byte list \<Rightarrow> int \<times> byte list"
  y_frameBytes :: int

text \<open>When packing fails, nothing is added to the buffer.\<close>

definition packed :: "(int + byte list) option \<Rightarrow> byte list" where
  "packed r = (case r of Some (Inr frame) \<Rightarrow> frame | _ \<Rightarrow> [])"

definition textBytes :: "feed \<Rightarrow> string \<Rightarrow> byte list" where
  "textBytes y t = packed (textFrame (y_alloc y) (Some (bytes_of t)) (of_nat (length t)))"

definition audioBytes :: "feed \<Rightarrow> byte list \<Rightarrow> byte list" where
  "audioBytes y bs = packed (binaryFrame (y_alloc y) (Some bs) (of_nat (length bs)))"

definition pingBytes :: "feed \<Rightarrow> byte list" where
  "pingBytes y = packed (pingFrame (y_alloc y))"

primrec buffer :: "channel \<Rightarrow> Node \<Rightarrow> byte list" where
  "buffer CmdChannel s = cmdEvBuffer s"
| "buffer AudioChannel s = binaryEvBuffer s"
| "buffer WakeChannel s = wwvEvBuffer s"

primrec set_buffer :: "channel \<Rightarrow> byte list \<Rightarrow> Node \<Rightarrow> Node" where
  "set_buffer CmdChannel bs s = s\<lparr>cmdEvBuffer := bs\<rparr>"
| "set_buffer AudioChannel bs s = s\<lparr>binaryEvBuffer := bs\<rparr>"
| "set_buffer WakeChannel bs s = s\<lparr>wwvEvBuffer := bs\<rparr>"

text \<open>One call of \<open>nlsSendFrame\<close> on a buffer. \<open>audio_frame\<close> is set only where the event loop sends audio.\<close>

definition sendBuffer :: "outside \<Rightarrow> channel \<Rightarrow> bool \<Rightarrow> Node \<Rightarrow> int \<times> Node" where
  "sendBuffer x ch audio_frame s =
    (let (ret, rest, got) = nlsSendFrame (x_write x) (writeEvent s) (buffer ch s);
         s = (if audio_frame \<and> buffer ch s \<noteq> [] \<and> ret \<noteq> - NlsSendFailed
              then s\<lparr>isFirstBinaryFrame := False\<rparr> else s);
         s = (if ret = - NlsSendFailed then s\<lparr>nodeErrMsg := x_errorText x\<rparr> else s);
         s = set_buffer ch rest s
     in (ret, if got = [] then s else emit [Sent ch got] s))"

section \<open>Commands\<close>

text \<open>A request that is started again tells the service where to go on: two members of the payload, which
are taken out of it afterwards.\<close>

definition start_command :: "feed \<Rightarrow> Node \<Rightarrow> string \<times> INlsRequestParam" where
  "start_command y s =
    (let again = (rc_state s = TriggerReconnection);
         p = nparam s;
         p = (if again then snd (setPayloadParam (y_json y) (y_dump y (object
               [(''tw_time_offset'', JInt (uint (y_offset y))), (''tw_index_offset'', JInt (uint (tw_index_offset s)))])) p)
             else p);
         (cmd, p) = getStartCommand (y_json y) (y_dump y) (y_uuid y CmdStart) p
     in (cmd, if again then remove_payload ''tw_index_offset'' (remove_payload ''tw_time_offset'' p) else p))"

text \<open>The text of a command, \<open>None\<close> when there is none, and the parameters after it.\<close>

definition command_text :: "feed \<Rightarrow> CmdType \<Rightarrow> string \<Rightarrow> Node \<Rightarrow> string option \<times> INlsRequestParam" where
  "command_text y type message s =
    (let rd = y_json y; wr = y_dump y; u = y_uuid y type; p = nparam s; some = (\<lambda>(cmd, p). (Some cmd, p))
     in case type of
       CmdStart \<Rightarrow> some (start_command y s)
     | CmdStControl \<Rightarrow> getControlCommand rd wr message u p
     | CmdStop \<Rightarrow> some (getStopCommand wr u p)
     | CmdTextDialog \<Rightarrow> some (getExecuteDialog wr u p)
     | CmdWarkWord \<Rightarrow> some (getStopWakeWordCommand wr u p)
     | CmdSendText \<Rightarrow> some (getRunFlowingSynthesisCommand wr message u p)
     | CmdSendFlush \<Rightarrow> some (getFlushFlowingTextCommand rd wr message u p)
     | _ \<Rightarrow> (None, p))"

definition addCmdDataBuffer :: "feed \<Rightarrow> CmdType \<Rightarrow> string \<Rightarrow> Node \<Rightarrow> Node" where
  "addCmdDataBuffer y type message s =
    (if \<not> hasRequest s then s
     else if type = CmdSendPing then s\<lparr>cmdEvBuffer := cmdEvBuffer s @ pingBytes y\<rparr>
     else
       let (cmd, p) = command_text y type message s;
           s = s\<lparr>nparam := p\<rparr>;
           s = (if type = CmdStart then s\<lparr>rc_state := NewReconnectionStarting\<rparr> else s)
       in case cmd of
         None \<Rightarrow> s
       | Some t \<Rightarrow> s\<lparr>cmdEvBuffer := cmdEvBuffer s @ textBytes y (c_string t)\<rparr>)"

text \<open>What a command changes: the buffer, at its end, the parameters but for those of the connection, and with a
start the state of the reconnection.\<close>

lemma conn_update [simp]:
  "p_conn (set_header k v p) = p_conn p" "p_conn (set_payload k v p) = p_conn p" "p_conn (remove_payload k p) = p_conn p"
  "p_conn (named n p) = p_conn p" "p_conn (stamp_header t p) = p_conn p" "p_conn (new_task u p) = p_conn p"
  "p_conn (snd (setPayloadParam rd t p)) = p_conn p"
  by (simp_all add: set_header_def set_payload_def remove_payload_def named_def stamp_header_def new_task_def Let_def
      setPayloadParam_def split: sum.split)

lemma conn_documents [simp]:
  "p_conn (snd (base_start u p)) = p_conn p" "p_conn (snd (base_stop u p)) = p_conn p"
  "p_conn (snd (base_control rd t u p)) = p_conn p" "p_conn (snd (dash_start rd u p)) = p_conn p"
  by (simp_all add: base_start_def base_stop_def base_control_def dash_start_def Let_def split: sum.split)

lemma conn_commands [simp]:
  "p_conn (snd (getStartCommand rd wr u p)) = p_conn p" "p_conn (snd (getStopCommand wr u p)) = p_conn p"
  "p_conn (snd (getExecuteDialog wr u p)) = p_conn p" "p_conn (snd (getStopWakeWordCommand wr u p)) = p_conn p"
  "p_conn (snd (getControlCommand rd wr t u p)) = p_conn p"
  "p_conn (snd (getRunFlowingSynthesisCommand wr t u p)) = p_conn p"
  "p_conn (snd (getFlushFlowingTextCommand rd wr t u p)) = p_conn p"
proof -
  show "p_conn (snd (getStartCommand rd wr u p)) = p_conn p"
    by (cases "p_mode (p_conn p)") (simp_all add: getStartCommand_def start_document_def Let_def split_beta)
  show "p_conn (snd (getStopCommand wr u p)) = p_conn p"
    by (cases "p_mode (p_conn p)") (simp_all add: getStopCommand_def kept_stop_def stop_document_def Let_def split_beta)
  show "p_conn (snd (getExecuteDialog wr u p)) = p_conn p" by (simp add: getExecuteDialog_def split_beta)
  show "p_conn (snd (getStopWakeWordCommand wr u p)) = p_conn p"
    by (simp add: getStopWakeWordCommand_def kept_stop_def split_beta)
  define q where "q = (if p_mode (p_conn p) = TypeRealTime
      then named (if controlHeaderName (p_derived p) \<noteq> [] then controlHeaderName (p_derived p) else ''ControlTranscriber'') p
      else p)"
  obtain doc r where d: "base_control rd t u q = (doc, r)" by force
  then have "p_conn r = p_conn p" using conn_documents(3) [of rd t u q] by (simp add: q_def)
  then show "p_conn (snd (getControlCommand rd wr t u p)) = p_conn p"
    by (cases doc) (simp_all add: getControlCommand_def Let_def q_def [symmetric] d)
  show "p_conn (snd (getRunFlowingSynthesisCommand wr t u p)) = p_conn p"
    by (simp add: getRunFlowingSynthesisCommand_def Let_def)
  show "p_conn (snd (getFlushFlowingTextCommand rd wr t u p)) = p_conn p"
    by (simp add: getFlushFlowingTextCommand_def Let_def)
qed

lemma command_text_conn [simp]: "p_conn (snd (command_text y type message s)) = p_conn (nparam s)"
  by (cases type) (simp_all add: command_text_def start_command_def split_beta Let_def)

lemma addCmd_shape:
  "\<exists>bs p. p_conn p = p_conn (nparam s) \<and>
    addCmdDataBuffer y type message s = s\<lparr>cmdEvBuffer := cmdEvBuffer s @ bs, nparam := p,
      rc_state := (if type = CmdStart \<and> hasRequest s then NewReconnectionStarting else rc_state s)\<rparr>"
proof -
  obtain cmd p where c: "command_text y type message s = (cmd, p)" by force
  then have p: "p_conn p = p_conn (nparam s)" using command_text_conn [of y type message s] by simp
  let ?bs = "if \<not> hasRequest s then [] else if type = CmdSendPing then pingBytes y
    else case cmd of None \<Rightarrow> [] | Some t \<Rightarrow> textBytes y (c_string t)"
  let ?p = "if hasRequest s \<and> type \<noteq> CmdSendPing then p else nparam s"
  have "addCmdDataBuffer y type message s = s\<lparr>cmdEvBuffer := cmdEvBuffer s @ ?bs, nparam := ?p,
      rc_state := (if type = CmdStart \<and> hasRequest s then NewReconnectionStarting else rc_state s)\<rparr>"
    by (cases cmd) (simp_all add: addCmdDataBuffer_def c)
  moreover have "p_conn ?p = p_conn (nparam s)" using p by simp
  ultimately show ?thesis by blast
qed

definition sendControlDirective :: "outside \<Rightarrow> feed \<Rightarrow> Node \<Rightarrow> int \<times> Node" where
  "sendControlDirective x y s =
    (if workStatus s = NodeStarted \<and> exitStatus s = ExitInvalid then
       (if cmdEvBuffer s \<noteq> [] then sendBuffer x CmdChannel False s else (0, s))
     else if exitStatus s = ExitStopping \<and> \<not> isStop s then
       let (ret, s) = sendBuffer x CmdChannel False (addCmdDataBuffer y CmdStop [] s)
       in (ret, s\<lparr>isStop := True\<rparr>)
     else (0, s))"

section \<open>Audio\<close>

definition audio_channel :: "Node \<Rightarrow> channel" where
  "audio_channel s =
    (if hasRequest s \<and> enableWakeWord (p_conn (nparam s)) \<and> \<not> isWakeStop s then WakeChannel else AudioChannel)"

text \<open>The end of \<open>addAudioDataBuffer\<close>: a buffer that was empty is sent at once by a node that works.\<close>

definition push_audio :: "outside \<Rightarrow> feed \<Rightarrow> channel \<Rightarrow> bool \<Rightarrow> Node \<Rightarrow> int \<times> Node" where
  "push_audio x y ch was_empty s =
    (let (ret, s) = (if was_empty \<and> (workStatus s = NodeStarted \<or> workStatus s = NodeWakeWording) \<and> \<not> isStop s
           then sendBuffer x ch False s else (0, s))
     in if ret = 0 then sendControlDirective x y s else (ret, s))"

definition encoding :: "Node \<Rightarrow> bool" where
  "encoding s \<longleftrightarrow> nlsEncoder s \<and> encoderType s \<noteq> ENCODER_NONE"

definition addAudioDataBuffer :: "outside \<Rightarrow> feed \<Rightarrow> byte list \<Rightarrow> Node \<Rightarrow> int \<times> Node" where
  "addAudioDataBuffer x y frame s =
    (if \<not> hasRequest s then (- RequestEmpty, s)
     else if frame = [] then (- NlsEncodingFailed, s)
     else
       let (nSize, out) = (if encoding s then y_encode y frame else (int (length frame), frame))
       in if nSize < 0 then (- NlsEncodingFailed, s)
          else
            let tmp = audioBytes y (take (nat nSize) out);
                ch = audio_channel s;
                old = buffer ch s
            in if limitSize s \<le> length old then (- EvbufferTooMuch, s)
               else
                 let (ret, s) = push_audio x y ch (old = []) (set_buffer ch (old @ tmp) s)
                 in if ret < 0
                    then (ret, handlerTaskFailedEvent x (nodeErrMsg s) DefaultErrorCode (disconnectProcess x s))
                    else (int (length frame), s\<lparr>isFirstAudioFrame := False\<rparr>))"

definition addRemainAudioData :: "outside \<Rightarrow> feed \<Rightarrow> Node \<Rightarrow> int \<times> Node" where
  "addRemainAudioData x y s =
    (case audioFrame s of
       Some buf \<Rightarrow>
         if buf \<noteq> [] then
           let (ret, s) = addAudioDataBuffer x y buf s
           in (ret, s\<lparr>audioFrame := map_option (\<lambda>_. []) (audioFrame s)\<rparr>)
         else (0, s)
     | None \<Rightarrow> (0, s))"

text \<open>
  The loop of \<open>addSlicedAudioDataBuffer\<close>: the bytes are cut into frames of the encoder's size. What is
  left over is sent as it is, or waits in \<open>audioFrame\<close> for the next call: with the OPU encoder
  always, else until a first frame has been sent. \<open>filling\<close> counts the bytes sent.
\<close>

definition slice_done :: "outside \<Rightarrow> feed \<Rightarrow> byte list \<Rightarrow> Node \<Rightarrow> int \<times> Node" where
  "slice_done x y chunk s =
    (let (ret, s) = addAudioDataBuffer x y chunk s
     in (ret, s\<lparr>audioFrame := map_option (\<lambda>_. []) (audioFrame s)\<rparr>))"

function slice_loop :: "outside \<Rightarrow> feed \<Rightarrow> nat \<Rightarrow> int \<Rightarrow> byte list \<Rightarrow> byte list \<Rightarrow> Node \<Rightarrow> int \<times> Node" where
  "slice_loop x y maxFrame filling buf frame s =
    (let space = maxFrame - length buf;
         buf' = buf @ take space frame;
         frame' = drop space frame
     in if maxFrame \<le> length buf' then
          let (ret, s) = slice_done x y buf' s;
              filling = filling + int maxFrame
          in if ret < 0 then (ret, s)
             else if frame' = [] \<or> maxFrame = 0 then (filling, s)
             else slice_loop x y maxFrame filling [] frame' s
        else if \<not> isFirstAudioFrame s \<and> encoderType s \<noteq> ENCODER_OPU then
          let (ret, s) = slice_done x y buf' s
          in if ret < 0 then (ret, s) else (filling + int (length buf'), s)
        else (filling, s\<lparr>audioFrame := Some buf'\<rparr>))"
  by pat_completeness auto
termination
  by (relation "measure (\<lambda>(x, y, maxFrame, filling, buf, frame, s). 2 * length frame + length buf)") auto

declare slice_loop.simps [simp del]

definition addSlicedAudioDataBuffer :: "outside \<Rightarrow> feed \<Rightarrow> byte list \<Rightarrow> Node \<Rightarrow> int \<times> Node" where
  "addSlicedAudioDataBuffer x y frame s =
    (if \<not> encoding s then addAudioDataBuffer x y frame s
     else if y_frameBytes y \<le> 0 then (y_frameBytes y, s)
     else if audioFrame s = None \<and> \<not> y_alloc y (8 * nat (y_frameBytes y)) then (- MallocFailed, s)
     else
       let buf = (case audioFrame s of None \<Rightarrow> [] | Some b \<Rightarrow> b)
       in slice_loop x y (nat (y_frameBytes y)) 0 buf frame (s\<lparr>audioFrame := Some buf\<rparr>))"

section \<open>Notifying a command\<close>

definition notify_stop :: "outside \<Rightarrow> feed \<Rightarrow> Node \<Rightarrow> int \<times> Node" where
  "notify_stop x y s =
    (let (_, s) = addRemainAudioData x y s;
         s = s\<lparr>exitStatus := ExitStopping\<rparr>
     in if workStatus s = NodeStarted \<and> binaryEvBuffer s = [] then sendControlDirective x y s else (Success, s))"

definition cmdNotify :: "outside \<Rightarrow> feed \<Rightarrow> CmdType \<Rightarrow> string \<Rightarrow> Node \<Rightarrow> int \<times> Node" where
  "cmdNotify x y type message s =
    (let (ret, s) = (case type of
         CmdStop \<Rightarrow> notify_stop x y s
       | CmdCancel \<Rightarrow> (Success, s\<lparr>exitStatus := ExitCancel\<rparr>)
       | CmdStControl \<Rightarrow>
           let s = addCmdDataBuffer y CmdStControl message s
           in if workStatus s = NodeStarted \<and> binaryEvBuffer s = [] then sendBuffer x CmdChannel False s
              else (Success, s)
       | CmdWarkWord \<Rightarrow>
           let s = s\<lparr>isWakeStop := True\<rparr>
           in if wwvEvBuffer s = []
              then sendBuffer x CmdChannel False (addCmdDataBuffer y CmdWarkWord [] s)
              else (Success, s)
       | CmdSendText \<Rightarrow>
           let s = addCmdDataBuffer y CmdSendText message s
           in if workStatus s = NodeStarted then
                let (ret, s) = sendBuffer x CmdChannel False s
                in (ret, s\<lparr>isSendSingleRoundText := False\<rparr>)
              else (Success, s)
       | CmdSendPing \<Rightarrow> sendBuffer x CmdChannel False (addCmdDataBuffer y CmdSendPing [] s)
       | CmdSendFlush \<Rightarrow> sendBuffer x CmdChannel False (addCmdDataBuffer y CmdSendFlush message s)
       | _ \<Rightarrow> (Success, s))
     in if ret < 0
        then (ret, handlerTaskFailedEvent x (nodeErrMsg s) DefaultErrorCode (disconnectProcess x s))
        else (ret, s))"

end
