(* ===== verification/NodeConnect.thy ===== *)
theory NodeConnect
  imports NodeManager NodeCommands
begin

text \<open>
  How a node gets its connection (\<open>transport/connectNode.cpp\<close>, \<open>event/workThread.cpp\<close>): parsing of
  the service's URL, the socket, the TLS handshake, the upgrade request, and the retries. What the
  system calls and the node manager answer is the parameter \<open>sys\<close>; an attempt to connect has its
  own answers, numbered by the node's counter of attempts. The waiting for libevent between two
  steps is not part of a step.
\<close>

section \<open>The URL\<close>

definition empty_url :: urlAddress where
  "empty_url = \<lparr>url_host = [], url_port = 0, url_type = [], url_path = [], url_token = [], url_apikey = [],
     url_isSsl = False, url_address = [], url_directIp = False, url_enableSysGetAddr = False,
     url_serviceProtocol = WsServiceProtocolNls\<rparr>"

text \<open>A direct address is a name or a number, with or without a port, read by two calls of \<open>sscanf\<close>.\<close>

definition scan_direct :: "string \<Rightarrow> urlAddress \<Rightarrow> (bool \<times> urlAddress) option" where
  "scan_direct ip url = do {
     args \<leftarrow> sscanf [NotIn 256 '':/'', Lit CHR '':'', Dec] ip;
     if (\<exists>a\<in>set args. case a of AStr t \<Rightarrow> HostSize \<le> length t | AInt _ \<Rightarrow> False) then None
     else case args of
       [AStr a, AInt p] \<Rightarrow> Some (True, url\<lparr>url_address := a, url_port := p, url_directIp := True\<rparr>)
     | _ \<Rightarrow> do {
         args2 \<leftarrow> sscanf [Str 255] ip;
         case args2 of
           [AStr a] \<Rightarrow> Some (True, url\<lparr>url_address := a, url_directIp := True\<rparr>)
         | _ \<Rightarrow> Some (False, url) } }"

text \<open>The token and the key are copied by their own length into arrays of \<open>TokenSize\<close> bytes; a null
\<open>directIp\<close> is the empty text.\<close>

definition parseUrlInformation :: "string \<Rightarrow> Node \<Rightarrow> (bool \<times> Node) option" where
  "parseUrlInformation directIp s =
    (if \<not> hasRequest s then Some (False, s)
     else do {
       (ok, url) \<leftarrow> (if directIp \<noteq> [] then scan_direct directIp empty_url else Some (True, empty_url));
       if \<not> ok then Some (False, s\<lparr>nurl := url\<rparr>)
       else do {
         (ret, url) \<leftarrow> parseUrlAddress url (p_url (p_conn (nparam s)));
         if ret \<noteq> Success then Some (False, s\<lparr>nurl := url\<rparr>)
         else
           let token = p_token (p_text (nparam s)); apikey = p_apikey (p_text (nparam s))
           in if TokenSize < length token \<or> TokenSize < length apikey then None
              else Some (True, s\<lparr>nurl := url\<lparr>url_token := token, url_apikey := apikey\<rparr>\<rparr>) } })"

section \<open>One attempt\<close>

text \<open>\<open>c_event_new k\<close> is the answer to the \<open>k\<close>-th event a connection needs. \<open>c_connect\<close>: connected,
in progress, or failed. \<open>c_ssl\<close>: what the TLS handshake returns (2 and 3 ask to wait).\<close>

datatype connect_result = Connected | InProgress | Refused

record sys =
  c_check :: int
  c_socket :: int
  c_setsockopt :: bool
  c_nonblocking :: bool
  c_event_new :: "nat \<Rightarrow> bool"
  c_pton :: bool
  c_connect :: connect_result
  c_ssl :: int

definition update_status :: "NodeStatus \<Rightarrow> Node \<Rightarrow> Node" where
  "update_status st = emit [UpdateStatus (node_status_code st)]"

definition socketConnect :: "sys \<Rightarrow> Node \<Rightarrow> int \<times> Node" where
  "socketConnect c s =
    (if c_check c \<noteq> Success then (c_check c, s)
     else if exitStatus s = ExitCancel then (- InvalidExitStatus, s)
     else case c_connect c of
       InProgress \<Rightarrow> if \<not> connectEvent s then (- EventEmpty, s) else (1, s)
     | Refused \<Rightarrow> (- SocketConnectFailed, s)
     | Connected \<Rightarrow>
         (Success, (update_status NodeStatusConnected (s\<lparr>workStatus := NodeConnected\<rparr>))\<lparr>isConnected := True\<rparr>))"

definition connectProcess :: "sys \<Rightarrow> string \<Rightarrow> Node \<Rightarrow> int \<times> Node" where
  "connectProcess c ip s =
    (if exitStatus s = ExitCancel then (- InvalidExitStatus, s)
     else if c_socket c < 0 then (- SocketFailed, s)
     else
       let fd = c_socket c; s = emit [SocketOpen fd ip] s
       in if \<not> c_setsockopt c then (- SetSocketoptFailed, s)
          else if \<not> c_nonblocking c then (- EvutilSocketFalied, s)
          else if \<not> connectEvent s \<and> \<not> c_event_new c 0 then (- EventEmpty, s)
          else
            let s = s\<lparr>connectEvent := True\<rparr>
            in if \<not> connectTimerEvent s \<and> \<not> c_event_new c 1 then (- EventEmpty, s)
               else
                 let s = s\<lparr>connectTimerEvent := True\<rparr>
                 in if \<not> readEvent s \<and> \<not> c_event_new c 2 then (- EventEmpty, s)
                    else
                      let s = s\<lparr>readEvent := True\<rparr>
                      in if \<not> writeEvent s \<and> \<not> c_event_new c 3 then (- EventEmpty, s)
                         else
                           let s = s\<lparr>writeEvent := True\<rparr>
                           in if \<not> c_pton c then (- SetSocketoptFailed, emit [SocketClose fd] s)
                              else socketConnect c (s\<lparr>socketFd := fd\<rparr>))"

definition sslProcess :: "outside \<Rightarrow> sys \<Rightarrow> Node \<Rightarrow> int \<times> Node" where
  "sslProcess x c s =
    (if exitStatus s = ExitCancel then (- InvalidExitStatus, s)
     else if c_check c \<noteq> Success then (c_check c, s)
     else if \<not> url_isSsl (nurl s) then (0, update_status NodeStatusHandshaking (s\<lparr>workStatus := NodeHandshaking\<rparr>))
     else if c_ssl c = 2 \<or> c_ssl c = 3 then
       (if \<not> connectTimerFlag s then
          (if \<not> connectTimerEvent s then (- EventEmpty, s) else (1, s\<lparr>connectTimerFlag := True\<rparr>))
        else
          (if \<not> connectEvent s then (- EventEmpty, s) else (1, s\<lparr>connectTimerFlag := False\<rparr>)))
     else if c_ssl c < 0 then (- SslHandshakeFailed, s\<lparr>nodeErrMsg := x_errorText x\<rparr>)
     else (0, update_status NodeStatusHandshaking (s\<lparr>workStatus := NodeHandshaking\<rparr>)))"

section \<open>The upgrade request\<close>

text \<open>\<open>g_header\<close> is the text of the custom headers. The DashScope request carries strings of the
platform. The package is written into an array of \<open>NodeFrameSize\<close> bytes and then copied by the
size \<open>requestPackage\<close> returns: reading behind the array is undefined.\<close>

record gateway =
  g_header :: string
  g_sdkInfo :: string
  g_version :: string
  g_os :: string
  g_arch :: string

definition gatewayRequest :: "gateway \<Rightarrow> Node \<Rightarrow> (int \<times> Node) option" where
  "gatewayRequest g s =
    (if \<not> hasRequest s then Some (- RequestEmpty, s)
     else if \<not> readEvent s then Some (- EventEmpty, s)
     else
       let (tmpLen, tmp) =
         (if url_serviceProtocol (nurl s) = WsServiceProtocolDashScope
          then requestDashScopePackage (g_sdkInfo g) (g_version g) (g_os g) (g_arch g) (nurl s) (g_header g)
          else requestPackage (nurl s) (g_header g))
       in if tmpLen < 0 then Some (- GetHttpHeaderFailed, s)
          else if int NodeFrameSize < tmpLen then None
          else Some (Success, s\<lparr>cmdEvBuffer := cmdEvBuffer s @
            take (nat tmpLen) (bytes_of tmp @ replicate NodeFrameSize 0)\<rparr>))"

section \<open>Writing\<close>

text \<open>\<open>nodeRequestProcess\<close>: what a write event, or the end of the handshake, sends. A failure is
reported to the user and the node is closed. \<open>failed_info\<close> is the text reported: the error of the
socket layer, or a text of its own when there is none.\<close>

definition failed_info :: "string \<Rightarrow> int \<Rightarrow> Node \<Rightarrow> string" where
  "failed_info action ret s =
    (if nodeErrMsg s = []
     then take 510 (''workThread workStatus('' @ getConnectNodeStatusString (workStatus s) @ '') '' @ action @
       '' failed. error_code('' @ print_int ret @ '')'')
     else nodeErrMsg s)"

definition request_step :: "outside \<Rightarrow> feed \<Rightarrow> gateway \<Rightarrow> Node \<Rightarrow> (int \<times> Node) option" where
  "request_step x y g s =
    (case workStatus s of
       NodeHandshaking \<Rightarrow> do {
         (_, s) \<leftarrow> gatewayRequest g s;
         let (ret, s) = sendBuffer x CmdChannel False s;
         Some (ret, s\<lparr>workStatus := NodeHandshaked\<rparr>) }
     | NodeHandshaked \<Rightarrow> Some (sendBuffer x CmdChannel False s)
     | NodeStarting \<Rightarrow> Some (sendBuffer x CmdChannel False s)
     | NodeWakeWording \<Rightarrow>
         let (ret, s) = sendBuffer x WakeChannel False s
         in if ret = 0 \<and> isWakeStop s
            then Some (sendBuffer x CmdChannel False (addCmdDataBuffer y CmdWarkWord [] s))
            else Some (ret, s)
     | NodeStarted \<Rightarrow>
         let (ret, s) = sendBuffer x AudioChannel True s
         in if ret = 0 then Some (sendControlDirective x y s) else Some (ret, s)
     | _ \<Rightarrow> Some (- InvalidWorkStatus, s))"

definition nodeRequestProcess :: "outside \<Rightarrow> feed \<Rightarrow> gateway \<Rightarrow> int \<Rightarrow> Node \<Rightarrow> (int \<times> Node) option" where
  "nodeRequestProcess x y g check s =
    (if check \<noteq> Success then Some (check, s)
     else do {
       (ret, s) \<leftarrow> request_step x y g s;
       if ret < 0
       then Some (ret, closeNode x (handlerTaskFailedEvent x (failed_info ''Send'' ret s) DefaultErrorCode s))
       else Some (Success, s) })"

text \<open>\<open>destroyConnectNode\<close>: the first call only marks the node; a second one deletes its request.\<close>

definition destroyConnectNode :: "int \<Rightarrow> Node \<Rightarrow> Node" where
  "destroyConnectNode check s =
    (if \<not> hasRequest s then s
     else if \<not> isDestroy s then s\<lparr>isDestroy := True\<rparr>
     else (if check = Success then emit [DeleteRequest] s else s)\<lparr>hasRequest := False\<rparr>)"

section \<open>Retries\<close>

text \<open>
  \<open>dnsProcess\<close> and \<open>directConnect\<close> call each other until a connection is there, is in progress, or
  all attempts are used up. \<open>l_cache k\<close> is the address the cache has for the URL in attempt \<open>k\<close>
  (empty for none), \<open>l_resolve\<close> what starting the resolution of a name returns, \<open>l_try k\<close> the
  system's answers in attempt \<open>k\<close>.
\<close>

record link =
  l_sysGetAddr :: bool
  l_cache :: "nat \<Rightarrow> string"
  l_resolve :: int
  l_try :: "nat \<Rightarrow> sys"
  l_gateway :: gateway

text \<open>\<open>directConnect\<close>: either the outcome, or the state from which \<open>dnsProcess\<close> tries again.\<close>

definition attempt :: "outside \<Rightarrow> feed \<Rightarrow> link \<Rightarrow> sys \<Rightarrow> string \<Rightarrow> Node \<Rightarrow> (Node + Node) option" where
  "attempt x y l c ip s =
    (let (ret, s) = connectProcess c ip s;
         (ret, s) = (if ret = 0 then sslProcess x c s else (ret, s))
     in if ret = 0 then do {
          (ret, s) \<leftarrow> nodeRequestProcess x y (l_gateway l) (c_check c) s;
          Some (Inl (if ret < 0 then destroyConnectNode (c_check c) s else s)) }
        else if ret = 1 then Some (Inl s)
        else Some (Inr ((disconnectProcess x s)\<lparr>workStatus := NodeConnecting\<rparr>)))"

text \<open>A long connection that is still there goes on with its next task at once.\<close>

definition restart_long :: "outside \<Rightarrow> feed \<Rightarrow> Node \<Rightarrow> int \<times> Node" where
  "restart_long x y s =
    (let s = update_status NodeStatusRunning (s\<lparr>connect_type := ConnectWithLongConnect, workStatus := NodeStarting\<rparr>);
         s = addCmdDataBuffer y (if requestType (p_conn (nparam s)) = SpeechTextDialog then CmdTextDialog else CmdStart) [] s;
         (result, s) = sendBuffer x CmdChannel False s
     in if result < 0
        then (result, closeNode x (handlerTaskFailedEvent x (nodeErrMsg s) DefaultErrorCode s))
        else (Success, s))"

text \<open>\<open>dnsProcess\<close> up to the attempt: an outcome, or the address and the state of the attempt.\<close>

definition dns_prepare :: "outside \<Rightarrow> feed \<Rightarrow> link \<Rightarrow> string \<Rightarrow> Node \<Rightarrow> (int \<times> Node + string \<times> Node) option" where
  "dns_prepare x y l directIp s =
    (let c = l_try l (retryConnectCount s)
     in if exitStatus s = ExitCancel then Some (Inl (- InvalidExitStatus, s))
        else if c_check c \<noteq> Success then Some (Inl (c_check c, s))
        else if isLongConnection s \<and> isConnected s then Some (Inl (restart_long x y s))
        else
          let (ok, s) = checkConnectCount s
          in if \<not> ok then
               Some (Inl (- ConnectFailed, handlerTaskFailedEvent x ''connect failed.'' SysConnectFailed s))
             else do {
               let s = update_status NodeStatusConnecting (s\<lparr>workStatus := NodeConnecting\<rparr>);
               (parsed, s) \<leftarrow> parseUrlInformation directIp s;
               if \<not> parsed then Some (Inl (- ParseUrlFailed, s))
               else
                 let s = s\<lparr>nurl := (nurl s)\<lparr>url_enableSysGetAddr := l_sysGetAddr l\<rparr>\<rparr>;
                     cached = l_cache l (retryConnectCount s)
                 in if url_directIp (nurl s)
                    then Some (Inr (url_address (nurl s), s\<lparr>connect_type := ConnectWithDirectIP\<rparr>))
                    else if cached \<noteq> [] then Some (Inr (cached, s\<lparr>connect_type := ConnectWithIpCache\<rparr>))
                    else Some (Inl (l_resolve l, s)) })"

text \<open>What a step leaves alone, collected for the parts of a node that only few steps change.\<close>

named_theorems keeps_count "retryConnectCount is kept"

lemma retry_emit [keeps_count]: "retryConnectCount (emit es s) = retryConnectCount s"
  by (simp add: emit_def)

lemma retry_update_status [keeps_count]: "retryConnectCount (update_status st s) = retryConnectCount s"
  by (simp add: update_status_def keeps_count)

lemma retry_close_socket [keeps_count]: "retryConnectCount (close_socket s) = retryConnectCount s"
  by (simp add: close_socket_def keeps_count)

lemma retry_disconnectProcess [keeps_count]: "retryConnectCount (disconnectProcess x s) = retryConnectCount s"
  by (simp add: disconnectProcess_def Let_def keeps_count)

lemma retry_socketConnect [keeps_count]: "retryConnectCount (snd (socketConnect c s)) = retryConnectCount s"
  by (simp add: socketConnect_def keeps_count split: connect_result.split)

lemma retry_connectProcess [keeps_count]: "retryConnectCount (snd (connectProcess c ip s)) = retryConnectCount s"
  by (simp add: connectProcess_def Let_def keeps_count)

lemma retry_sslProcess [keeps_count]: "retryConnectCount (snd (sslProcess x c s)) = retryConnectCount s"
  by (simp add: sslProcess_def keeps_count)

lemma attempt_retry:
  assumes "attempt x y l c ip s = Some (Inr s')"
  shows "retryConnectCount s' = retryConnectCount s"
proof -
  obtain r1 s1 where c: "connectProcess c ip s = (r1, s1)" by force
  obtain r2 s2 where d: "sslProcess x c s1 = (r2, s2)" by force
  have "retryConnectCount s1 = retryConnectCount s" "retryConnectCount s2 = retryConnectCount s1"
    using retry_connectProcess [of c ip s] retry_sslProcess [of x c s1] c d by simp_all
  then show ?thesis using assms c d
    by (auto simp: attempt_def keeps_count split: if_splits bind_splits)
qed

lemma parse_retry: "parseUrlInformation d s = Some (b, s') \<Longrightarrow> retryConnectCount s' = retryConnectCount s"
  by (auto simp: parseUrlInformation_def Let_def split: if_splits bind_splits)

lemma dns_prepare_retry:
  "dns_prepare x y l d s = Some (Inr (ip, s')) \<Longrightarrow>
    retryConnectCount s < RetryConnectCount \<and> retryConnectCount s' = Suc (retryConnectCount s)"
  by (auto simp: dns_prepare_def checkConnectCount_def Let_def keeps_count split: if_splits bind_splits
    dest!: parse_retry)

text \<open>A retry passes the address of the attempt on as a direct one.\<close>

function dnsProcess :: "outside \<Rightarrow> feed \<Rightarrow> link \<Rightarrow> string \<Rightarrow> Node \<Rightarrow> (int \<times> Node) option" where
  "dnsProcess x y l directIp s =
    (case dns_prepare x y l directIp s of
       None \<Rightarrow> None
     | Some (Inl r) \<Rightarrow> Some r
     | Some (Inr (ip, s1)) \<Rightarrow>
         let c = l_try l (retryConnectCount s1)
         in case attempt x y l c ip s1 of
            None \<Rightarrow> None
          | Some (Inl s2) \<Rightarrow> Some (Success, s2)
          | Some (Inr s2) \<Rightarrow>
              (case dnsProcess x y l ip s2 of
                 None \<Rightarrow> None
               | Some (ret, s3) \<Rightarrow>
                   Some (Success, if ret < 0 then destroyConnectNode (c_check c) s3 else s3)))"
  by pat_completeness auto
termination
  by (relation "measure (\<lambda>(x, y, l, d, s). RetryConnectCount - retryConnectCount s)")
    (auto dest!: dns_prepare_retry attempt_retry)

declare dnsProcess.simps [simp del]

end
