(* ===== verification/NodeSession.thy ===== *)
theory NodeSession
  imports NodeConnect
begin

text \<open>
  The event callbacks of the work threads (\<open>event/workThread.cpp\<close>) for one node: launching, the
  result of name resolution, connecting, reading, writing, and the start over a pooled connection.
  libevent calls them one after the other; each is one step here. What
  the step meets (results of the system calls, the frames that have arrived) is a parameter.
\<close>

section \<open>Reading\<close>

definition sendFakeSynthesisStarted :: "outside \<Rightarrow> string \<Rightarrow> Node \<Rightarrow> Node" where
  "sendFakeSynthesisStarted x msg s =
    (if requestType (p_conn (nparam s)) = SpeechSynthesizer
     then snd (handlerFrame x (new_NlsEvent msg Success SynthesisStarted (p_taskId (p_text (nparam s)))) s)
     else s)"

text \<open>
  What reading yields: the result of \<open>gatewayResponse\<close>, or the frames \<open>webSocketResponse\<close> hands over,
  the outside each of them meets, and what it returns after the last. \<open>i_started\<close> is the text of the event
  the SDK makes up itself.
\<close>

record input =
  i_check :: int
  i_gateway :: int
  i_frames :: "in_frame list"
  i_outside :: "nat \<Rightarrow> outside"
  i_result :: int
  i_started :: string

definition websocket_step :: "input \<Rightarrow> Node \<Rightarrow> int \<times> Node" where
  "websocket_step i s =
    (if releasingFlag s then (- InvalidStatusWhenReleasing, s)
     else
       let (ret, s) = parse_frames (i_outside i) (i_frames i) s
       in if ret \<noteq> 0 then (ret, s) else (i_result i, s))"

text \<open>The switch of \<open>nodeResponseProcess\<close>. The last component tells whether it returns at once.\<close>

definition response_step :: "outside \<Rightarrow> feed \<Rightarrow> input \<Rightarrow> Node \<Rightarrow> int \<times> Node \<times> bool" where
  "response_step x y i s =
    (if workStatus s = NodeHandshaking \<or> workStatus s = NodeHandshaked then
       let ret = i_gateway i
       in if ret = 0 then
            let s = s\<lparr>workStatus := NodeStarting\<rparr>
            in if isPreNodeStartStepByStep s then (ret, s, False)
               else
                 let s = addCmdDataBuffer y
                       (if requestType (p_conn (nparam s)) = SpeechTextDialog then CmdTextDialog else CmdStart) [] s;
                     (ret, s) = sendBuffer x CmdChannel False s
                 in (ret, if 0 \<le> ret then sendFakeSynthesisStarted x (i_started i) s else s, False)
          else (if ret = - NlsReceiveEmpty then Success else ret, s, ret = - NlsReceiveEmpty)
     else if workStatus s = NodeStarting \<or> workStatus s = NodeWakeWording then
       let (ret, s) = websocket_step i s
       in if workStatus s = NodeStarted then
            let (ret, s) = sendBuffer x AudioChannel True s;
                (ret, s) = (if ret = 0 then sendControlDirective x y s else (ret, s))
            in (ret, s, False)
          else if workStatus s = NodeWakeWording then
            let (ret, s) = sendBuffer x WakeChannel False s in (ret, s, False)
          else (ret, s, False)
     else if workStatus s = NodeStarted then let (ret, s) = websocket_step i s in (ret, s, False)
     else if workStatus s = NodeInvalid then (- InvalidRequest, s, False)
     else if (workStatus s = NodeConnecting \<or> workStatus s = NodeClosed) \<and> isLongConnection s then
       let (ret, s) = websocket_step i s in (ret, s, False)
     else (- InvalidWorkStatus, s, False))"

definition nodeResponseProcess :: "outside \<Rightarrow> feed \<Rightarrow> input \<Rightarrow> Node \<Rightarrow> int \<times> Node" where
  "nodeResponseProcess x y i s =
    (if i_check i \<noteq> Success then (i_check i, s)
     else if releasingFlag s then (- InvalidStatusWhenReleasing, s)
     else
       let (ret, s, finished) = response_step x y i s
       in if finished \<or> 0 \<le> ret then (ret, s)
          else if ret = - EventClientEmpty \<or> ret = - InvalidStatusWhenReleasing then (ret, s)
          else if workStatus s = NodeClosed then (Success, s)
          else if ret = - InvalidRequest then (ret, s)
          else (ret, handlerTaskFailedEvent x (failed_info ''Response'' ret s) DefaultErrorCode (closeNode x s)))"

text \<open>What libevent reports: one event, or a combination, given by the number the code prints.\<close>

datatype what = EV_READ | EV_WRITE | EV_TIMEOUT | EV_CLOSED | EV_OTHER string

primrec what_code :: "what \<Rightarrow> string" where
  "what_code EV_TIMEOUT = ''01''"
| "what_code EV_READ = ''02''"
| "what_code EV_WRITE = ''04''"
| "what_code EV_CLOSED = ''80''"
| "what_code (EV_OTHER n) = n"

definition failed_event :: "outside \<Rightarrow> string \<Rightarrow> int \<Rightarrow> Node \<Rightarrow> Node" where
  "failed_event x text code s = handlerTaskFailedEvent x (take 510 text) code (closeNode x s)"

definition unknown_event :: "outside \<Rightarrow> what \<Rightarrow> Node \<Rightarrow> Node" where
  "unknown_event x what s =
    failed_event x (''Unknown event:'' @ what_code what @ ''. '' @ x_errorText x) EvUnknownEvent s"

definition readEventCallBack :: "outside \<Rightarrow> feed \<Rightarrow> input \<Rightarrow> what \<Rightarrow> Node \<Rightarrow> Node" where
  "readEventCallBack x y i what s =
    (if i_check i \<noteq> Success then s
     else if exitStatus s = ExitCancel then closeNode x s
     else if what = EV_READ then
       let (ret, s) = nodeResponseProcess x y i s
       in if ret = - InvalidRequest then closeNode x s else s
     else if what = EV_TIMEOUT then failed_event x (''Recv timeout. socket error:'' @ x_errorText x @ ''.'') EvRecvTimeout s
     else unknown_event x what s)"

section \<open>Writing\<close>

definition writeEventCallBack :: "outside \<Rightarrow> feed \<Rightarrow> gateway \<Rightarrow> int \<Rightarrow> what \<Rightarrow> Node \<Rightarrow> Node option" where
  "writeEventCallBack x y g check what s =
    (if check \<noteq> Success then Some s
     else if exitStatus s = ExitCancel then Some (closeNode x s)
     else do {
       s \<leftarrow> (if what = EV_WRITE then map_option snd (nodeRequestProcess x y g check s)
            else if what = EV_TIMEOUT then Some (failed_event x (''Send timeout. socket error:'' @ x_errorText x) EvSendTimeout s)
            else Some (unknown_event x what s));
       Some (if workStatus s = NodeInvalid then destroyConnectNode check s else s) })"

section \<open>Connecting\<close>

text \<open>A failed connection or handshake goes back to the resolution of the name.\<close>

definition reconnect_step :: "outside \<Rightarrow> feed \<Rightarrow> link \<Rightarrow> string \<Rightarrow> int \<Rightarrow> Node \<Rightarrow> Node option" where
  "reconnect_step x y l directIp check s = do {
     (ret, s) \<leftarrow> dnsProcess x y l directIp ((disconnectProcess x s)\<lparr>workStatus := NodeConnecting\<rparr>);
     Some (if ret < 0 then destroyConnectNode check s else s) }"

text \<open>The handshake and the request that follow an established connection; \<open>Inr\<close> asks for a retry.\<close>

definition handshake_step :: "outside \<Rightarrow> feed \<Rightarrow> link \<Rightarrow> sys \<Rightarrow> Node \<Rightarrow> (Node + Node) option" where
  "handshake_step x y l c s =
    (let (ret, s) = sslProcess x c s
     in if ret = 0 then do {
          (ret, s) \<leftarrow> nodeRequestProcess x y (l_gateway l) (c_check c) s;
          Some (Inl (if ret < 0 then destroyConnectNode (c_check c) s else s)) }
        else if ret = 1 then Some (Inl s)
        else Some (Inr s))"

text \<open>\<open>connectEventCallback\<close>, and with \<open>timer\<close> its copy \<open>connectTimerEventCallback\<close>, which does not treat
the time-out as a failure. \<open>sockError\<close> is \<open>SO_ERROR\<close> of the socket.\<close>

definition connectEventCallback :: "bool \<Rightarrow> outside \<Rightarrow> feed \<Rightarrow> link \<Rightarrow> string \<Rightarrow> sys \<Rightarrow> int \<Rightarrow> what \<Rightarrow> Node \<Rightarrow> Node option" where
  "connectEventCallback timer x y l directIp c sockError what s =
    (if what = EV_CLOSED \<or> (what = EV_TIMEOUT \<and> \<not> timer) then reconnect_step x y l directIp (c_check c) s
     else
       let (ok, s) =
         (if workStatus s = NodeConnecting then
            (if sockError = 0 then (True, s\<lparr>workStatus := NodeConnected, isConnected := True\<rparr>)
             else let (ret, s) = socketConnect c s in (0 \<le> ret, s))
          else (True, s))
       in if \<not> ok then reconnect_step x y l directIp (c_check c) s
          else if workStatus s = NodeConnected then do {
            r \<leftarrow> handshake_step x y l c s;
            (case r of Inl s \<Rightarrow> Some s | Inr s \<Rightarrow> reconnect_step x y l directIp (c_check c) s) }
          else Some s)"

text \<open>\<open>dnsEventCallback\<close>: the resolution has failed, or has found addresses, of which the first that
can be written is tried. \<open>st\<close> is the node's state in the registry.\<close>

definition dnsEventCallback :: "outside \<Rightarrow> feed \<Rightarrow> link \<Rightarrow> string \<Rightarrow> sys \<Rightarrow> int \<Rightarrow> string list option \<Rightarrow> Node \<Rightarrow> Node option" where
  "dnsEventCallback x y l directIp c st addresses s =
    (if c_check c \<noteq> Success then Some s
     else if node_status_code NodeStatusCancelling \<le> st then Some (destroyConnectNode (c_check c) s)
     else case addresses of
       None \<Rightarrow> do {
         (ret, s) \<leftarrow> dnsProcess x y l directIp (s\<lparr>workStatus := NodeConnecting\<rparr>);
         Some (if ret < 0 then destroyConnectNode (c_check c) s else s) }
     | Some [] \<Rightarrow> Some s
     | Some (ip # _) \<Rightarrow> do {
         r \<leftarrow> attempt x y l c ip s;
         (case r of
            Inl s \<Rightarrow> Some s
          | Inr s \<Rightarrow> do {
              (ret, s) \<leftarrow> dnsProcess x y l directIp s;
              Some (if ret < 0 then destroyConnectNode (c_check c) s else s) }) })"

section \<open>Launching\<close>

definition updateParameters :: "Node \<Rightarrow> Node" where
  "updateParameters s = s\<lparr>
     limitSize := (if sampleRate (p_conn (nparam s)) = 8000 then 96000 else 192000),
     nodeOnMessage := enableOnMessage (p_conn (nparam s))\<rparr>"

definition launchEventCallback :: "outside \<Rightarrow> feed \<Rightarrow> link \<Rightarrow> string \<Rightarrow> int \<Rightarrow> Node \<Rightarrow> Node option" where
  "launchEventCallback x y l directIp check s =
    (if check \<noteq> Success then Some s
     else if exitStatus s \<noteq> ExitInvalid then Some (s\<lparr>workStatus := NodeInvoked\<rparr>)
     else do {
       (ret, s) \<leftarrow> dnsProcess x y l directIp (updateParameters (s\<lparr>workStatus := NodeInvoked\<rparr>));
       Some (if ret < 0 then destroyConnectNode check s else s) })"

text \<open>\<open>prestartProcess\<close> gives a node with a pooled connection its events; \<open>w\<close> tells which can be made.\<close>

definition prestartProcess :: "(nat \<Rightarrow> bool) \<Rightarrow> Node \<Rightarrow> Node" where
  "prestartProcess w s = s\<lparr>readEvent := readEvent s \<or> w 0, writeEvent := writeEvent s \<or> w 1\<rparr>"

definition startWithPoolEventCallback :: "outside \<Rightarrow> feed \<Rightarrow> int \<Rightarrow> (nat \<Rightarrow> bool) \<Rightarrow> string \<Rightarrow> Node \<Rightarrow> Node" where
  "startWithPoolEventCallback x y check w started s =
    (if check \<noteq> Success then s
     else
       let s = (prestartProcess w s)\<lparr>workStatus := NodeStarting\<rparr>;
           (ret, s) = sendBuffer x CmdChannel False (addCmdDataBuffer y CmdStart [] s)
       in if p_mode (p_conn (nparam s)) = TypeTts \<and> 0 \<le> ret then sendFakeSynthesisStarted x started s else s)"

text \<open>The text of a single round, and the stop after it.\<close>

definition singleRoundTextEventCallback :: "outside \<Rightarrow> feed \<Rightarrow> int \<Rightarrow> Node \<Rightarrow> Node" where
  "singleRoundTextEventCallback x y check s =
    (if check \<noteq> Success then s
     else
       let text = (if p_mode (p_conn (nparam s)) \<in> {TypeStreamInputTts, TypeDashSceopCosyVoiceStreamInputTts}
             then singeRoundText (p_derived (nparam s)) else [])
       in if text = [] then s
          else
            let (_, s) = cmdNotify x y CmdSendText text s;
                (_, s) = cmdNotify x y CmdStop [] s
            in s\<lparr>nparam := clearSingleRoundText (nparam s)\<rparr>)"

end
