(* ===== verification/EventNetWork.thy ===== *)
theory EventNetWork
  imports NodeSession
begin

text \<open>
  \<open>transport/nlsEventNetWork.cpp\<close>: the calls a client makes on a request, and the choice of the
  work thread. Every call is one step of the node, but for the places where it sleeps and looks at
  the node's status again: what the other threads do meanwhile is the parameter \<open>a_other\<close>.
\<close>

section \<open>Waiting\<close>

text \<open>\<open>while (try_count-- > 0 && ...)\<close> with a sleep as its body.\<close>

fun await :: "nat \<Rightarrow> (Node \<Rightarrow> bool) \<Rightarrow> (nat \<Rightarrow> Node \<Rightarrow> Node) \<Rightarrow> Node \<Rightarrow> Node" where
  "await 0 P other s = s"
| "await (Suc n) P other s = (if P s then await n P other (other n s) else s)"

text \<open>
  What a call meets: whether the event client and the pool exist, the work thread chosen (negative
  for none), what the pool hands out with its socket, whether libevent takes the event and the
  encoder can be made, the time a synchronous call waits, and whether it waits in vain.
\<close>

record api =
  a_client :: bool
  a_pool :: bool
  a_thread :: int
  a_popped :: ConnectedStatus
  a_fd :: int
  a_event_add :: bool
  a_encoder :: bool
  a_sync :: nat
  a_timedout :: bool
  a_other :: "nat \<Rightarrow> Node \<Rightarrow> Node"

section \<open>The work threads\<close>

text \<open>\<open>selectThreadNumber\<close>: round robin over the threads; \<open>None\<close> stands for no array.\<close>

definition selectThreadNumber :: "nat option \<Rightarrow> nat \<Rightarrow> int \<times> nat" where
  "selectThreadNumber workThreads current =
    (case workThreads of
       None \<Rightarrow> (- 1, current)
     | Some n \<Rightarrow> (int current, if Suc current = n then 0 else Suc current))"

section \<open>Starting\<close>

definition waitInvokeFinish :: "api \<Rightarrow> Node \<Rightarrow> Node" where
  "waitInvokeFinish a s =
    (if 0 < syncCallTimeoutMs s then
       let s = a_other a 0 s
       in if a_timedout a then s\<lparr>nodeErrCode := InvokeTimeout\<rparr> else s
     else s)"

definition initNlsEncoder :: "bool \<Rightarrow> Node \<Rightarrow> Node" where
  "initNlsEncoder made s =
    (if \<not> hasRequest s then s\<lparr>nlsEncoder := False\<rparr>
     else
       let fmt = p_format (p_conn (nparam s));
           type = (if fmt = ''opu'' then ENCODER_OPU else if fmt = ''opus'' then ENCODER_OPUS else encoderType s)
       in s\<lparr>encoderType := type, nlsEncoder := type \<noteq> ENCODER_NONE \<and> made\<rparr>)"

text \<open>What \<open>start\<close> does to a fresh node: it takes a connection of the pool, or launches the request.\<close>

definition launch_request :: "api \<Rightarrow> Node \<Rightarrow> int \<times> Node" where
  "launch_request a s =
    (let popped = (if a_pool a then a_popped a else PreNodeInvalid)
     in if popped = PreNodeConnected \<or> popped = PreNodeStarted then
          (Success, emit [StartWithPool] (s\<lparr>ownSsl := False, socketFd := a_fd a, startWithPoolEvent := True,
            connect_type := (if popped = PreNodeConnected then ConnectWithPreconnectedNodePool
              else ConnectWithPrestartedNodePool)\<rparr>))
        else
          let s = s\<lparr>launchEvent := True\<rparr>
          in if \<not> a_event_add a then (- InvokeStartFailed, s) else (Success, emit [Launch] s))"

definition start :: "api \<Rightarrow> Node \<Rightarrow> int \<times> Node" where
  "start a s =
    (if \<not> a_client a then (- EventClientEmpty, s)
     else
       let s = (if a_pool a then s\<lparr>usePreconnection := True, isLongConnection := False\<rparr>
             else s\<lparr>usePreconnection := False\<rparr>);
           s = (if isLongConnection s then
                  let s = await 500 (\<lambda>s. workStatus s = NodeCompleted) (a_other a) s
                  in if workStatus s = NodeClosed then initAllStatus s else s
                else s)
       in if workStatus s = NodeCreated \<and> exitStatus s = ExitInvalid then
            let s = s\<lparr>workStatus := NodeInvoking\<rparr>
            in if a_thread a < 0 then (- SelectThreadFailed, s\<lparr>workStatus := NodeCreated\<rparr>)
               else
                 let (ret, s) = launch_request a (s\<lparr>syncCallTimeoutMs := a_sync a\<rparr>)
                 in if ret \<noteq> Success then (ret, s)
                    else
                      let s = initNlsEncoder (a_encoder a) s
                      in if 0 < syncCallTimeoutMs s then
                           let s = waitInvokeFinish a s
                           in if nodeErrCode s \<noteq> Success then (- nodeErrCode s, s) else (Success, s)
                         else (Success, s)
          else if exitStatus s = ExitInvalid \<and> NodeCreated < workStatus s \<and> workStatus s < NodeFailed
          then (Success, s)
          else (- InvokeStartFailed, s\<lparr>workStatus := NodeCreated\<rparr>))"

text \<open>\<open>startInner\<close>, the pool's own start, sets a node up without launching it.\<close>

definition startInner :: "api \<Rightarrow> Node \<Rightarrow> int \<times> Node" where
  "startInner a s =
    (if \<not> a_client a then (- EventClientEmpty, s)
     else
       let s = (if a_pool a then s\<lparr>usePreconnection := True, isLongConnection := False\<rparr>
             else s\<lparr>usePreconnection := False\<rparr>)
       in if workStatus s = NodeCreated \<and> exitStatus s = ExitInvalid then
            (if a_thread a < 0 then (- SelectThreadFailed, s)
             else (Success, initNlsEncoder (a_encoder a)
               (s\<lparr>workStatus := NodeInvoking, syncCallTimeoutMs := a_sync a\<rparr>)))
          else if exitStatus s = ExitInvalid \<and> NodeCreated < workStatus s \<and> workStatus s < NodeFailed
          then (Success, s)
          else (- InvokeStartFailed, s\<lparr>workStatus := NodeCreated\<rparr>))"

section \<open>Commands\<close>

definition can_command :: "Node \<Rightarrow> bool" where
  "can_command s \<longleftrightarrow> workStatus s = NodeStarted \<and> exitStatus s = ExitInvalid"

definition await_started :: "api \<Rightarrow> Node \<Rightarrow> Node" where
  "await_started a = await 500 (\<lambda>s. workStatus s = NodeStarting) (a_other a)"

definition sendAudio :: "outside \<Rightarrow> feed \<Rightarrow> api \<Rightarrow> bool \<Rightarrow> byte list \<Rightarrow> Node \<Rightarrow> int \<times> Node" where
  "sendAudio x y a encoded bytes s =
    (if \<not> a_client a then (- EventClientEmpty, s)
     else
       let s = await_started a s
       in if \<not> can_command s then (- InvokeSendAudioFailed, s)
          else if encoded then addSlicedAudioDataBuffer x y bytes s
          else addAudioDataBuffer x y bytes s)"

definition stop :: "outside \<Rightarrow> feed \<Rightarrow> api \<Rightarrow> Node \<Rightarrow> int \<times> Node" where
  "stop x y a s =
    (if \<not> a_client a then (- EventClientEmpty, s)
     else
       let s = await 500 (\<lambda>s. requestType (p_conn (nparam s)) = FlowingSynthesizer \<and> isSendSingleRoundText s)
             (a_other a) s
       in if exitStatus s \<noteq> ExitInvalid then (Success, s)
          else if workStatus s < NodeInvoking \<or> NodeFailed \<le> workStatus s then (- InvokeStopFailed, s)
          else
            let (ret, s) = cmdNotify x y CmdStop [] s
            in if ret = Success \<and> 0 < syncCallTimeoutMs s then
                 let s = waitInvokeFinish a s
                 in if nodeErrCode s \<noteq> Success then (- nodeErrCode s, s) else (ret, s)
               else (ret, s))"

definition cancel :: "outside \<Rightarrow> feed \<Rightarrow> api \<Rightarrow> Node \<Rightarrow> int \<times> Node" where
  "cancel x y a s =
    (if \<not> a_client a then (- EventClientEmpty, s)
     else if exitStatus s = ExitCancel then (Success, s)
     else if workStatus s < NodeInvoking \<or> NodeClosed \<le> workStatus s then (- InvokeCancelFailed, s)
     else
       let (ret, s) = cmdNotify x y CmdCancel [] s
       in (ret, await 100 (\<lambda>s. workStatus s = NodeConnecting) (a_other a) s))"

definition stControl :: "outside \<Rightarrow> feed \<Rightarrow> api \<Rightarrow> string \<Rightarrow> Node \<Rightarrow> int \<times> Node" where
  "stControl x y a message s =
    (if \<not> a_client a then (- EventClientEmpty, s)
     else if \<not> can_command s then (- InvokeStControlFailed, s)
     else cmdNotify x y CmdStControl message s)"

text \<open>\<open>sendText\<close>, \<open>sendPing\<close> and \<open>sendFlush\<close> differ in the command only.\<close>

definition send_command :: "outside \<Rightarrow> feed \<Rightarrow> api \<Rightarrow> CmdType \<Rightarrow> string \<Rightarrow> Node \<Rightarrow> int \<times> Node" where
  "send_command x y a type message s =
    (if \<not> a_client a then (- EventClientEmpty, s)
     else
       let s = await_started a s
       in if \<not> can_command s then (- InvokeSendTextFailed, s)
          else cmdNotify x y type message s)"

definition sendText :: "outside \<Rightarrow> feed \<Rightarrow> api \<Rightarrow> string \<Rightarrow> Node \<Rightarrow> int \<times> Node" where
  "sendText x y a text = send_command x y a CmdSendText text"

definition sendPing :: "outside \<Rightarrow> feed \<Rightarrow> api \<Rightarrow> Node \<Rightarrow> int \<times> Node" where
  "sendPing x y a = send_command x y a CmdSendPing []"

definition sendFlush :: "outside \<Rightarrow> feed \<Rightarrow> api \<Rightarrow> string \<Rightarrow> Node \<Rightarrow> int \<times> Node" where
  "sendFlush x y a parameters = send_command x y a CmdSendFlush parameters"

section \<open>The request\<close>

text \<open>\<open>INlsRequest::sendAudio\<close> (\<open>framework/item/iNlsRequest.cpp\<close>) hides errors while the request is
being reconnected.\<close>

definition request_sendAudio :: "outside \<Rightarrow> feed \<Rightarrow> api \<Rightarrow> bool \<Rightarrow> byte list \<Rightarrow> Node \<Rightarrow> int \<times> Node" where
  "request_sendAudio x y a encoded bytes s =
    (if \<not> a_client a then (- EventClientEmpty, s)
     else if bytes = [] then (- InvalidRequestParams, s)
     else
       let (ret, s) = sendAudio x y a encoded bytes s
       in (if rc_state s \<noteq> NoReconnection \<and> ret < 0 then int (length bytes) else ret, s))"

definition getRequestStatus :: "Node \<Rightarrow> NlsRequestStatus" where
  "getRequestStatus s =
    (case workStatus s of
       NodeInvalid \<Rightarrow> RequestStatusInvalid
     | NodeCreated \<Rightarrow> RequestStatusCreated
     | NodeInvoking \<Rightarrow> RequestStatusInvoking
     | NodeInvoked \<Rightarrow> RequestStatusInvoked
     | NodeConnecting \<Rightarrow> RequestStatusConnecting
     | NodeConnected \<Rightarrow> RequestStatusConnected
     | NodeHandshaking \<Rightarrow> RequestStatusHandshaking
     | NodeHandshaked \<Rightarrow> RequestStatusHandshaked
     | NodeStarting \<Rightarrow> RequestStatusStarting
     | NodeStarted \<Rightarrow> RequestStatusRunning
     | NodeFailed \<Rightarrow> RequestStatusFailed
     | NodeCompleted \<Rightarrow> RequestStatusCompleted
     | NodeClosed \<Rightarrow>
         if isLongConnection s \<and> \<not> isConnected s then RequestStatusDisconnected else RequestStatusClosed
     | NodeReleased \<Rightarrow> RequestStatusReleased
     | NodeStop \<Rightarrow> RequestStatusStop
     | NodeCancel \<Rightarrow> RequestStatusCancel
     | _ \<Rightarrow> RequestStatusInvalid)"

end
