(* ===== verification/NodeCallbacks.thy ===== *)
theory NodeCallbacks
  imports EventNetWork
begin

text \<open>
  What a node tells its user over its life. \<open>speaks\<close> relates the node before and after any part of
  a step: the events added say \<open>Close\<close> at most at their end, a closed node adds none, and neither does a
  cancelled one. The relation is transitive, so that it is shown for each function of the model
  once and the steps follow.
\<close>

section \<open>The relation\<close>

fun user_events :: "effect list \<Rightarrow> NlsEvent list" where
  "user_events [] = []"
| "user_events (Callback ev # es) = ev # user_events es"
| "user_events (_ # es) = user_events es"

lemma user_events_append [simp]: "user_events (xs @ ys) = user_events xs @ user_events ys"
  by (induction xs rule: user_events.induct) simp_all

definition told :: "Node \<Rightarrow> NlsEvent list" where
  "told s = user_events (effects s)"

text \<open>A reconnection is only under way when the request has it enabled.\<close>

definition reconnecting :: "Node \<Rightarrow> bool" where
  "reconnecting s \<longleftrightarrow> rc_state s = WillReconnect \<or> rc_state s = TriggerReconnection"

definition settled :: "Node \<Rightarrow> bool" where
  "settled s \<longleftrightarrow> (reconnecting s \<longrightarrow> enableReconnect (p_conn (nparam s)))"

definition closes :: "NlsEvent list \<Rightarrow> bool" where
  "closes evs \<longleftrightarrow> Close \<in> ev_type ` set evs"

lemma closes_simps [simp]:
  "closes [] = False" "closes (ev # evs) = (ev_type ev = Close \<or> closes evs)"
  "closes (evs @ evs') = (closes evs \<or> closes evs')"
  by (auto simp: closes_def)

definition speaks :: "Node \<Rightarrow> Node \<Rightarrow> bool" where
  "speaks s s' \<longleftrightarrow> isLongConnection s' = isLongConnection s \<and> releasingFlag s' = releasingFlag s \<and>
    (settled s \<longrightarrow> settled s') \<and>
    (\<exists>seg. told s' = told s @ seg \<and> \<not> closes (butlast seg) \<and>
      (closes seg \<longrightarrow> workStatus s' = NodeClosed \<and> (settled s \<longrightarrow> \<not> reconnecting s')) \<and>
      (workStatus s = NodeClosed \<longrightarrow> seg = [] \<and> workStatus s' = NodeClosed \<and> (reconnecting s' \<longrightarrow> reconnecting s)) \<and>
      (exitStatus s = ExitCancel \<longrightarrow> seg = [] \<and> exitStatus s' = ExitCancel))"

lemma speaks_refl [simp, intro]: "speaks s s"
  by (simp add: speaks_def)

lemma speaks_trans:
  assumes "speaks s s'" "speaks s' s''"
  shows "speaks s s''"
proof -
  obtain seg where 1: "told s' = told s @ seg" "\<not> closes (butlast seg)"
    "closes seg \<Longrightarrow> workStatus s' = NodeClosed \<and> (settled s \<longrightarrow> \<not> reconnecting s')"
    "workStatus s = NodeClosed \<Longrightarrow> seg = [] \<and> workStatus s' = NodeClosed \<and> (reconnecting s' \<longrightarrow> reconnecting s)"
    "exitStatus s = ExitCancel \<Longrightarrow> seg = [] \<and> exitStatus s' = ExitCancel"
    using assms(1) by (auto simp: speaks_def)
  obtain seg' where 2: "told s'' = told s' @ seg'" "\<not> closes (butlast seg')"
    "closes seg' \<Longrightarrow> workStatus s'' = NodeClosed \<and> (settled s' \<longrightarrow> \<not> reconnecting s'')"
    "workStatus s' = NodeClosed \<Longrightarrow> seg' = [] \<and> workStatus s'' = NodeClosed \<and> (reconnecting s'' \<longrightarrow> reconnecting s')"
    "exitStatus s' = ExitCancel \<Longrightarrow> seg' = [] \<and> exitStatus s'' = ExitCancel"
    using assms(2) by (auto simp: speaks_def)
  have st: "settled s \<Longrightarrow> settled s'" using assms(1) by (simp add: speaks_def)
  have "\<not> closes (butlast (seg @ seg'))"
    using 1(2,3) 2(2,4) by (cases "seg' = []") (auto simp: butlast_append)
  moreover have "closes (seg @ seg') \<longrightarrow> workStatus s'' = NodeClosed \<and> (settled s \<longrightarrow> \<not> reconnecting s'')"
    using 1(3) 2(3,4) st by auto
  ultimately show ?thesis
    using assms 1(1,4,5) 2(1,4,5) by (auto simp: speaks_def)
qed

text \<open>A part of a step that tells the user nothing.\<close>

lemma speaks_silent:
  assumes "told s' = told s" "workStatus s = NodeClosed \<Longrightarrow> workStatus s' = NodeClosed"
    "exitStatus s = ExitCancel \<Longrightarrow> exitStatus s' = ExitCancel" "p_conn (nparam s') = p_conn (nparam s)"
    "reconnecting s' \<Longrightarrow> reconnecting s" "isLongConnection s' = isLongConnection s"
    "releasingFlag s' = releasingFlag s"
  shows "speaks s s'"
  using assms by (auto simp: speaks_def settled_def)

named_theorems speaks_intros "parts of a step that speak as they should"

lemmas silent_simps = told_def emit_def reconnecting_def

section \<open>Closing, sending and connecting\<close>

lemma speaks_close [speaks_intros]:
  "speaks s (closeNode x s)" "speaks s (disconnectProcess x s)" "speaks s (closeStatusConnectNode s)"
  "speaks s (closeStatusConnectNodeForConnectedPool x s)"
  by (intro speaks_silent;
      auto simp: silent_simps closeNode_def disconnectProcess_def closeStatusConnectNode_def
        closeStatusConnectNodeForConnectedPool_def drop_audio_def free_events_def close_socket_def Let_def
        split: if_splits)+

lemma set_buffer_simps [simp]:
  "workStatus (set_buffer ch bs s) = workStatus s" "exitStatus (set_buffer ch bs s) = exitStatus s"
  "nparam (set_buffer ch bs s) = nparam s" "rc_state (set_buffer ch bs s) = rc_state s"
  "isLongConnection (set_buffer ch bs s) = isLongConnection s" "releasingFlag (set_buffer ch bs s) = releasingFlag s"
  "effects (set_buffer ch bs s) = effects s"
  by (cases ch; simp)+

lemma speaks_set_buffer [speaks_intros]: "speaks s (set_buffer ch bs s)"
  by (rule speaks_silent) (simp_all add: silent_simps)

lemma speaks_sendBuffer [speaks_intros]: "speaks s (snd (sendBuffer x ch af s))"
proof -
  obtain ret rest got where r: "nlsSendFrame (x_write x) (writeEvent s) (buffer ch s) = (ret, rest, got)"
    by (metis prod_cases3)
  show ?thesis
    by (intro speaks_silent) (auto simp: silent_simps sendBuffer_def r Let_def split: if_splits)
qed

lemma speaks_addCmd [speaks_intros]: "speaks s (addCmdDataBuffer y type msg s)"
proof -
  obtain bs p where p: "p_conn p = p_conn (nparam s)" and
    s': "addCmdDataBuffer y type msg s = s\<lparr>cmdEvBuffer := cmdEvBuffer s @ bs, nparam := p,
      rc_state := (if type = CmdStart \<and> hasRequest s then NewReconnectionStarting else rc_state s)\<rparr>"
    using addCmd_shape [of s y type msg] by blast
  show ?thesis
    unfolding s' by (rule speaks_silent) (auto simp: silent_simps p split: if_splits)
qed

lemma speaks_update_status [speaks_intros]: "speaks s (update_status st s)"
  by (rule speaks_silent) (simp_all add: silent_simps update_status_def)

lemma speaks_destroy [speaks_intros]: "speaks s (destroyConnectNode check s)"
  by (intro speaks_silent) (auto simp: silent_simps destroyConnectNode_def
      split: if_splits connect_result.splits)

text \<open>Where the status is set the node is not closed.\<close>

lemma speaks_status:
  "workStatus s \<noteq> NodeClosed \<Longrightarrow> speaks s (s\<lparr>workStatus := st\<rparr>)"
  by (rule speaks_silent) (simp_all add: silent_simps)

lemma speaks_socketConnect:
  "workStatus s \<noteq> NodeClosed \<Longrightarrow> speaks s (snd (socketConnect c s))"
  by (intro speaks_silent) (auto simp: silent_simps socketConnect_def update_status_def
      split: if_splits connect_result.splits)

lemma speaks_connectProcess:
  "workStatus s \<noteq> NodeClosed \<Longrightarrow> speaks s (snd (connectProcess c ip s))"
  by (intro speaks_silent) (auto simp: silent_simps connectProcess_def socketConnect_def update_status_def Let_def
      split: if_splits connect_result.splits)

lemma speaks_sslProcess:
  "workStatus s \<noteq> NodeClosed \<Longrightarrow> speaks s (snd (sslProcess x c s))"
  by (intro speaks_silent) (auto simp: silent_simps sslProcess_def update_status_def
      split: if_splits connect_result.splits)

lemma open_connect:
  "workStatus s \<noteq> NodeClosed \<Longrightarrow> workStatus (snd (connectProcess c ip s)) \<noteq> NodeClosed"
  "workStatus s \<noteq> NodeClosed \<Longrightarrow> workStatus (snd (socketConnect c s)) \<noteq> NodeClosed"
  "workStatus s \<noteq> NodeClosed \<Longrightarrow> workStatus (snd (sslProcess x c s)) \<noteq> NodeClosed"
  by (simp_all add: connectProcess_def socketConnect_def sslProcess_def update_status_def emit_def Let_def
      split: connect_result.split)

section \<open>The callbacks\<close>

lemma ignoreReconnecting_frame:
  assumes "ignoreCallbackWhenReconnecting type code s = (ig, s')"
  shows "workStatus s' = workStatus s" "exitStatus s' = exitStatus s" "nparam s' = nparam s"
    "isLongConnection s' = isLongConnection s" "releasingFlag s' = releasingFlag s" "effects s' = effects s"
    "hasRequest s' = hasRequest s" "nodeOnMessage s' = nodeOnMessage s" "syncCallTimeoutMs s' = syncCallTimeoutMs s"
    "hasHandler s' = hasHandler s" "settled s \<Longrightarrow> settled s'"
    "settled s \<Longrightarrow> hasRequest s \<Longrightarrow> type = Close \<Longrightarrow> \<not> ig \<Longrightarrow> \<not> reconnecting s'"
  using assms by (auto simp: ignoreCallbackWhenReconnecting_def Let_def settled_def reconnecting_def split: if_splits)

lemma tell_user_frame:
  "workStatus (tell_user ig ev s) = workStatus s" "exitStatus (tell_user ig ev s) = exitStatus s"
  "nparam (tell_user ig ev s) = nparam s" "isLongConnection (tell_user ig ev s) = isLongConnection s"
  "releasingFlag (tell_user ig ev s) = releasingFlag s" "rc_state (tell_user ig ev s) = rc_state s"
  "hasRequest (tell_user ig ev s) = hasRequest s"
  by (simp_all add: tell_user_def sendFinishCondSignal_def handlerMessage_def emit_def Let_def)

text \<open>What reaches the user's handler: nothing, the event, or its text as a \<open>Message\<close>.\<close>

definition heard :: "NlsEvent \<Rightarrow> NlsEvent list \<Rightarrow> bool" where
  "heard ev seg \<longleftrightarrow> seg = [] \<or> seg = [ev] \<or> (\<exists>m. seg = [m] \<and> ev_type m = Message)"

lemma told_emit: "told (emit es s) = told s @ user_events es"
  by (simp add: told_def emit_def)

lemma told_signal: "told (sendFinishCondSignal type s) = told s"
  "workStatus (sendFinishCondSignal type s) = workStatus s" "nparam (sendFinishCondSignal type s) = nparam s"
  by (simp_all add: sendFinishCondSignal_def told_emit) (simp_all add: emit_def)

lemma tell_user_told:
  "\<exists>seg. told (tell_user ig ev s) = told s @ seg \<and> heard ev seg \<and> (ig \<longrightarrow> seg = [])"
  by (auto simp: tell_user_def handlerMessage_def told_emit told_signal heard_def new_NlsEvent_def Let_def)

lemma handlerFrame_speaks:
  obtains seg where "told (snd (handlerFrame x ev s)) = told s @ seg" "heard ev seg"
    "workStatus (snd (handlerFrame x ev s)) = workStatus s" "exitStatus (snd (handlerFrame x ev s)) = exitStatus s"
    "p_conn (nparam (snd (handlerFrame x ev s))) = p_conn (nparam s)"
    "isLongConnection (snd (handlerFrame x ev s)) = isLongConnection s"
    "releasingFlag (snd (handlerFrame x ev s)) = releasingFlag s"
    "settled s \<Longrightarrow> settled (snd (handlerFrame x ev s))"
    "settled s \<Longrightarrow> hasRequest s \<Longrightarrow> ev_type ev = Close \<Longrightarrow> closes seg \<Longrightarrow>
      \<not> reconnecting (snd (handlerFrame x ev s))"
proof (cases "workStatus s = NodeInvalid \<or> \<not> hasHandler s")
  case True
  then have "snd (handlerFrame x ev s) = s" by (auto simp: handlerFrame_def)
  then show ?thesis using that [of "[]"] by (simp add: heard_def)
next
  case False
  obtain ig s1 where ig: "ignoreCallbackWhenReconnecting (ev_type ev) (ev_status ev) (updateTwIndexOffset ev s) = (ig, s1)"
    by force
  define u where "u = updateTwIndexOffset ev s"
  have u: "workStatus u = workStatus s" "exitStatus u = exitStatus s" "nparam u = nparam s"
    "isLongConnection u = isLongConnection s" "releasingFlag u = releasingFlag s" "told u = told s"
    "hasRequest u = hasRequest s" "settled u = settled s"
    by (simp_all add: u_def updateTwIndexOffset_def told_def settled_def reconnecting_def)
  note f = ignoreReconnecting_frame [OF ig [folded u_def]]
  define ig' where "ig' = (ig \<or> ignoreCallbackWhenNodeClosedWhenLongConnection (ev_type ev) s1)"
  define s2 where "s2 = tell_user ig' ev s1"
  obtain seg where seg: "told s2 = told s1 @ seg" "heard ev seg" "ig' \<Longrightarrow> seg = []"
    unfolding s2_def using tell_user_told by blast
  note t = tell_user_frame [of ig' ev s1, folded s2_def]
  define s3 where "s3 = (if ev_type ev = Close then
                  let s = nodeReconnecting x s2;
                      s = (if ig' then s else s\<lparr>reconnected_count := 0\<rparr>)
                  in s\<lparr>retryConnectCount := 0\<rparr>
                else if ev_type ev = TaskFailed \<and> \<not> ig' \<and> hasRequest s2 \<and> x_pool x
                then emit [MarkAbnormal] s2 else s2)"
  have s3: "snd (handlerFrame x ev s) = s3"
    using False ig unfolding handlerFrame_def s3_def s2_def ig'_def Let_def by simp
  have w: "workStatus s3 = workStatus s2" "exitStatus s3 = exitStatus s2" "nparam s3 = nparam s2"
    "isLongConnection s3 = isLongConnection s2" "releasingFlag s3 = releasingFlag s2" "told s3 = told s2"
    "reconnecting s3 = reconnecting s2"
    by (simp_all add: s3_def nodeReconnecting_def emit_def told_def reconnecting_def Let_def)
  have "settled s3 = settled s1" using w t by (simp add: settled_def reconnecting_def)
  moreover have "closes seg \<Longrightarrow> \<not> ig" using seg(3) ig'_def by auto
  moreover have "reconnecting s3 = reconnecting s1" using w t by (simp add: reconnecting_def)
  ultimately show ?thesis
    by (intro that [of seg]) (use u f t w seg in \<open>simp_all add: s3 told_def\<close>)
qed

lemma heard_closes: "heard ev seg \<Longrightarrow> \<not> closes (butlast seg) \<and> (closes seg \<longrightarrow> ev_type ev = Close)"
  by (auto simp: heard_def)

text \<open>An event other than \<open>Close\<close>, told by a node that is neither closed nor cancelled.\<close>

lemma speaks_handlerFrame:
  assumes "ev_type ev \<noteq> Close" "workStatus s \<noteq> NodeClosed" "exitStatus s \<noteq> ExitCancel"
  shows "speaks s (snd (handlerFrame x ev s))"
proof -
  obtain seg where seg: "told (snd (handlerFrame x ev s)) = told s @ seg" "heard ev seg"
    and f: "isLongConnection (snd (handlerFrame x ev s)) = isLongConnection s"
      "releasingFlag (snd (handlerFrame x ev s)) = releasingFlag s"
      "settled s \<Longrightarrow> settled (snd (handlerFrame x ev s))"
    by (rule handlerFrame_speaks [of x ev s]) blast
  with heard_closes [OF seg(2)] assms show ?thesis unfolding speaks_def by blast
qed

text \<open>\<open>handlerEvent\<close> in any state: a \<open>Close\<close> ends it and closes the node.\<close>

lemma speaks_handlerEvent [speaks_intros]: "speaks s (handlerEvent x msg code type s)"
proof (cases "exitStatus s = ExitCancel \<or> \<not> hasRequest s \<or> \<not> hasHandler s \<or> workStatus s = NodeClosed")
  case True
  then have "handlerEvent x msg code type s = s \<or> handlerEvent x msg code type s = s\<lparr>nodeErrCode := code\<rparr>"
    by (auto simp: handlerEvent_def Let_def)
  then show ?thesis
    by (intro speaks_silent) (auto simp: told_def reconnecting_def)
next
  case False
  define u where "u = (if code \<noteq> CloseCode then s\<lparr>nodeErrCode := code\<rparr> else s)"
  define ev where "ev = new_NlsEvent (if type = Close \<or> type = TaskFailed then replenishNodeProcess x msg else msg) code type
      (p_taskId (p_text (nparam s)))"
  define v where "v = snd (handlerFrame x ev u)"
  have he: "handlerEvent x msg code type s = (if type = Close then v\<lparr>workStatus := NodeClosed\<rparr> else v)"
    using False unfolding handlerEvent_def u_def ev_def v_def Let_def by simp
  have u: "told u = told s" "workStatus u = workStatus s" "exitStatus u = exitStatus s" "settled u = settled s"
    "isLongConnection u = isLongConnection s" "releasingFlag u = releasingFlag s" "hasRequest u = hasRequest s"
    by (simp_all add: u_def told_def settled_def reconnecting_def)
  have ty: "ev_type ev = type" by (simp add: ev_def new_NlsEvent_def)
  obtain seg where seg: "told v = told u @ seg" "heard ev seg"
    and f: "isLongConnection v = isLongConnection u" "releasingFlag v = releasingFlag u"
      "settled u \<Longrightarrow> settled v"
      "settled u \<Longrightarrow> hasRequest u \<Longrightarrow> ev_type ev = Close \<Longrightarrow> closes seg \<Longrightarrow> \<not> reconnecting v"
    unfolding v_def by (rule handlerFrame_speaks [of x ev u]) blast
  note hc = heard_closes [OF seg(2), unfolded ty]
  show ?thesis
  proof (cases "type = Close")
    case True
    with he have "handlerEvent x msg code type s = v\<lparr>workStatus := NodeClosed\<rparr>" by (simp only: if_True refl)
    then show ?thesis
      unfolding speaks_def using False u seg hc f ty True
      by (intro conjI impI exI [of _ seg]) (auto simp: told_def settled_def reconnecting_def)
  next
    case other: False
    with he have "handlerEvent x msg code type s = v" by (simp only: if_False)
    then show ?thesis
      unfolding speaks_def using False u seg hc f other
      by (intro conjI impI exI [of _ seg]) auto
  qed
qed

lemma speaks_handlerTaskFailedEvent [speaks_intros]: "speaks s (handlerTaskFailedEvent x info code s)"
  unfolding handlerTaskFailedEvent_def Let_def
  by (auto split: prod.split intro: speaks_trans [OF speaks_handlerEvent speaks_handlerEvent])

section \<open>Commands and audio\<close>

text \<open>Members the relation does not look at.\<close>

named_theorems speaks_simps "updates speaks does not see"

lemma speaks_param: "p_conn p = p_conn (nparam s') \<Longrightarrow> speaks s (s'\<lparr>nparam := p\<rparr>) = speaks s s'"
  by (auto simp: speaks_def settled_def told_def reconnecting_def)

lemma conn_clearSingleRoundText [simp]: "p_conn (clearSingleRoundText p) = p_conn p"
  by (simp add: clearSingleRoundText_def)

lemma speaks_update [speaks_simps]:
  "speaks s (s'\<lparr>isStop := b\<rparr>) = speaks s s'" "speaks s (s'\<lparr>audioFrame := af\<rparr>) = speaks s s'"
  "speaks s (s'\<lparr>isFirstAudioFrame := b\<rparr>) = speaks s s'" "speaks s (s'\<lparr>isSendSingleRoundText := b\<rparr>) = speaks s s'"
  "speaks s (s'\<lparr>isWakeStop := b\<rparr>) = speaks s s'"
  "speaks s (s'\<lparr>isFirstBinaryFrame := b\<rparr>) = speaks s s'" "speaks s (s'\<lparr>isPreconnecting := b\<rparr>) = speaks s s'"
  "speaks s (s'\<lparr>retryConnectCount := n\<rparr>) = speaks s s'" "speaks s (s'\<lparr>nurl := u\<rparr>) = speaks s s'"
  "speaks s (s'\<lparr>connect_type := c\<rparr>) = speaks s s'" "speaks s (s'\<lparr>cmdEvBuffer := bs\<rparr>) = speaks s s'"
  "speaks s (s'\<lparr>limitSize := n\<rparr>) = speaks s s'" "speaks s (s'\<lparr>nodeOnMessage := b\<rparr>) = speaks s s'"
  "speaks s (s'\<lparr>readEvent := b\<rparr>) = speaks s s'" "speaks s (s'\<lparr>writeEvent := b\<rparr>) = speaks s s'"
  "speaks s (s'\<lparr>isConnected := b\<rparr>) = speaks s s'"
  by (simp_all add: speaks_def told_def settled_def reconnecting_def)

lemma speaks_sendControlDirective [speaks_intros]: "speaks s (snd (sendControlDirective x y s))"
  by (auto simp: sendControlDirective_def speaks_simps Let_def split_beta
      intro: speaks_sendBuffer speaks_trans [OF speaks_addCmd speaks_sendBuffer])

lemma speaks_push_audio [speaks_intros]: "speaks s (snd (push_audio x y ch e s))"
  by (auto simp: push_audio_def Let_def split_beta
      intro: speaks_sendBuffer speaks_sendControlDirective speaks_trans [OF speaks_sendBuffer speaks_sendControlDirective])

lemma speaks_failed [speaks_intros]: "speaks s (handlerTaskFailedEvent x info code (disconnectProcess x' s))"
  by (rule speaks_trans [OF speaks_close(2) speaks_handlerTaskFailedEvent])

lemma speaks_addAudioDataBuffer [speaks_intros]: "speaks s (snd (addAudioDataBuffer x y frame s))"
proof -
  have "speaks s s'" if "push_audio x y ch e (set_buffer ch bs s) = (ret, s')" for ch e bs ret s'
    using speaks_trans [OF speaks_set_buffer [of s ch bs] speaks_push_audio [of _ x y ch e]] that by simp
  then show ?thesis
    by (auto simp: addAudioDataBuffer_def speaks_simps Let_def split: prod.split
        intro: speaks_trans [OF _ speaks_failed])
qed

lemma speaks_slice_done [speaks_intros]: "speaks s (snd (slice_done x y chunk s))"
  using speaks_addAudioDataBuffer [of s x y chunk]
  by (simp add: slice_done_def speaks_simps split_beta)

lemma speaks_slice_loop [speaks_intros]: "speaks s (snd (slice_loop x y m filling buf frame s))"
proof (induction x y m filling buf frame s rule: slice_loop.induct)
  case (1 x y m filling buf frame s)
  obtain r s1 where d: "slice_done x y (buf @ take (m - length buf) frame) s = (r, s1)" by force
  then have "speaks s s1" using speaks_slice_done by (metis snd_conv)
  then show ?case
    using 1 d by (subst slice_loop.simps) (auto simp: Let_def speaks_simps intro: speaks_trans)
qed

lemma speaks_addSliced [speaks_intros]: "speaks s (snd (addSlicedAudioDataBuffer x y frame s))"
proof -
  have "speaks s (snd (slice_loop x y m f b fr (s\<lparr>audioFrame := af\<rparr>)))" for m f b fr af
    by (rule speaks_trans [OF _ speaks_slice_loop]) (simp add: speaks_simps)
  then show ?thesis
    by (simp add: addSlicedAudioDataBuffer_def speaks_addAudioDataBuffer Let_def)
qed

lemma speaks_addRemain [speaks_intros]: "speaks s (snd (addRemainAudioData x y s))"
  using speaks_addAudioDataBuffer [of s x y]
  by (auto simp: addRemainAudioData_def speaks_simps split_beta split: option.split)

text \<open>A stop takes a cancel back; a node that is not cancelled only says what it should.\<close>

lemma speaks_notify_stop:
  assumes "exitStatus s \<noteq> ExitCancel"
  shows "speaks s (snd (notify_stop x y s))"
proof -
  obtain r s1 where a: "addRemainAudioData x y s = (r, s1)" by force
  then have "speaks s s1" using speaks_addRemain by (metis snd_conv)
  then have "speaks s (s1\<lparr>exitStatus := ExitStopping\<rparr>)"
    using assms by (auto simp: speaks_def told_def settled_def reconnecting_def)
  then show ?thesis
    using a speaks_trans [OF _ speaks_sendControlDirective] by (auto simp: notify_stop_def Let_def)
qed

end
