(* ===== verification/NodeRuns.thy ===== *)
theory NodeRuns
  imports NodeCallbacks
begin

text \<open>
  \<open>speaks\<close> for the commands, the frames, connecting with its retries, the callbacks of the work thread
  and the calls of a client, each from the lemmas of the functions it is made of.
\<close>

section \<open>The callbacks speak\<close>

lemma speaks_cmdNotify:
  assumes "exitStatus s \<noteq> ExitCancel \<or> type \<noteq> CmdStop"
  shows "speaks s (snd (cmdNotify x y type message s))"
proof -
  define r where "r = (case type of
         CmdStop \<Rightarrow> notify_stop x y s
       | CmdCancel \<Rightarrow> (Success, s\<lparr>exitStatus := ExitCancel\<rparr>)
       | CmdStControl \<Rightarrow>
           let s = addCmdDataBuffer y CmdStControl message s
           in if workStatus s = NodeStarted \<and> binaryEvBuffer s = [] then sendBuffer x CmdChannel False s
              else (Success, s)
       | CmdWarkWord \<Rightarrow>
           let s = s\<lparr>isWakeStop := True\<rparr>
           in if wwvEvBuffer s = []
              then sendBuffer x CmdChannel False (addCmdDataBuffer y CmdWarkWord [] s)
              else (Success, s)
       | CmdSendText \<Rightarrow>
           let s = addCmdDataBuffer y CmdSendText message s
           in if workStatus s = NodeStarted then
                let (ret, s) = sendBuffer x CmdChannel False s
                in (ret, s\<lparr>isSendSingleRoundText := False\<rparr>)
              else (Success, s)
       | CmdSendPing \<Rightarrow> sendBuffer x CmdChannel False (addCmdDataBuffer y CmdSendPing [] s)
       | CmdSendFlush \<Rightarrow> sendBuffer x CmdChannel False (addCmdDataBuffer y CmdSendFlush message s)
       | _ \<Rightarrow> (Success, s))"
  have cancel: "speaks s (s\<lparr>exitStatus := ExitCancel\<rparr>)"
    by (rule speaks_silent) (simp_all add: told_def reconnecting_def)
  have wake: "speaks s (snd (sendBuffer x CmdChannel False (addCmdDataBuffer y CmdWarkWord [] (s\<lparr>isWakeStop := True\<rparr>))))"
    by (rule speaks_trans [OF _ speaks_trans [OF speaks_addCmd speaks_sendBuffer]]) (simp add: speaks_simps)
  have "speaks s (snd r)"
    using assms cancel wake unfolding r_def
    by (cases type) (auto simp: Let_def split_beta speaks_simps
      intro: speaks_notify_stop speaks_addCmd speaks_trans [OF speaks_addCmd speaks_sendBuffer])
  then show ?thesis
    unfolding cmdNotify_def r_def [symmetric]
    by (auto simp: split_beta intro: speaks_trans [OF _ speaks_failed])
qed

lemma speaks_sendFake:
  assumes "workStatus s \<noteq> NodeClosed" "exitStatus s \<noteq> ExitCancel"
  shows "speaks s (sendFakeSynthesisStarted x msg s)"
  using assms speaks_handlerFrame by (auto simp: sendFakeSynthesisStarted_def new_NlsEvent_def)

lemma speaks_gatewayRequest: "gatewayRequest g s = Some (ret, s') \<Longrightarrow> speaks s s'"
  by (auto simp: gatewayRequest_def speaks_simps Let_def split: if_splits prod.splits)

lemma sendBuffer_status:
  "workStatus (snd (sendBuffer x ch af s)) = workStatus s" "exitStatus (snd (sendBuffer x ch af s)) = exitStatus s"
  "isLongConnection (snd (sendBuffer x ch af s)) = isLongConnection s"
proof -
  obtain ret rest got where r: "nlsSendFrame (x_write x) (writeEvent s) (buffer ch s) = (ret, rest, got)"
    by (metis prod_cases3)
  show "workStatus (snd (sendBuffer x ch af s)) = workStatus s" "exitStatus (snd (sendBuffer x ch af s)) = exitStatus s"
    "isLongConnection (snd (sendBuffer x ch af s)) = isLongConnection s"
    by (auto simp: sendBuffer_def r emit_def Let_def)
qed

lemma addCmd_status:
  "workStatus (addCmdDataBuffer y type msg s) = workStatus s" "exitStatus (addCmdDataBuffer y type msg s) = exitStatus s"
  using addCmd_shape [of s y type msg] by auto

lemma speaks_request_step:
  assumes "request_step x y g s = Some r"
  shows "speaks s (snd r)"
proof (cases "workStatus s")
  case NodeHandshaking
  then obtain r1 s1 where g: "gatewayRequest g s = Some (r1, s1)"
    using assms by (auto simp: request_step_def split: bind_splits)
  have w: "workStatus s1 \<noteq> NodeClosed"
    using g NodeHandshaking by (auto simp: gatewayRequest_def Let_def split: if_splits prod.splits)
  have "snd r = (snd (sendBuffer x CmdChannel False s1))\<lparr>workStatus := NodeHandshaked\<rparr>"
    using assms NodeHandshaking g by (auto simp: request_step_def split: prod.splits)
  moreover have "speaks s (snd (sendBuffer x CmdChannel False s1))"
    using speaks_trans [OF speaks_gatewayRequest [OF g] speaks_sendBuffer] .
  ultimately show ?thesis
    using speaks_trans [OF _ speaks_status] w sendBuffer_status(1) by metis
qed (use assms in \<open>auto simp: request_step_def Let_def split_beta split: if_splits
    intro: speaks_sendBuffer speaks_trans [OF speaks_sendBuffer speaks_trans [OF speaks_addCmd speaks_sendBuffer]]
      speaks_trans [OF speaks_sendBuffer speaks_sendControlDirective]\<close>)

lemma speaks_nodeRequestProcess:
  "nodeRequestProcess x y g check s = Some (ret, s') \<Longrightarrow> speaks s s'"
  by (auto simp: nodeRequestProcess_def split: if_splits bind_splits dest!: speaks_request_step
      intro!: speaks_trans [OF _ speaks_trans [OF speaks_handlerTaskFailedEvent speaks_close(1)]])

section \<open>Frames\<close>

lemma handlerFrame_status:
  "workStatus (snd (handlerFrame x ev s)) = workStatus s" "exitStatus (snd (handlerFrame x ev s)) = exitStatus s"
  by (rule handlerFrame_speaks [of x ev s]; assumption)+

lemma speaks_start_working:
  "workStatus s \<noteq> NodeClosed \<Longrightarrow> speaks s (start_working x s)"
  by (intro speaks_silent) (auto simp: start_working_def silent_simps Let_def)

lemma speaks_after_callback:
  assumes "workStatus s \<noteq> NodeClosed" "type \<noteq> Close"
  shows "speaks s (snd (snd (after_callback x type s)))"
proof -
  have "speaks s (s\<lparr>isFirstBinaryFrame := False, workStatus := NodeStarted\<rparr>)"
    using assms(1) by (intro speaks_silent) (simp_all add: silent_simps)
  then show ?thesis
    using assms speaks_start_working [of s x] speaks_status [of s]
    by (auto simp: after_callback_def Let_def)
qed

lemma speaks_store_in_pool [speaks_intros]: "speaks s (store_in_pool x s)"
  by (intro speaks_silent) (auto simp: store_in_pool_def silent_simps split: if_splits)

lemma speaks_finish_request [speaks_intros]: "speaks s (finish_request x ig s)"
proof -
  define u where "u = s\<lparr>isPreconnecting := False\<rparr>"
  have u: "speaks s u" by (simp add: u_def speaks_simps)
  define v where "v = (if usePreconnection u \<and> workStatus u \<noteq> NodeFailed
      then (closeStatusConnectNodeForConnectedPool x u)\<lparr>isPreconnecting := True\<rparr> else closeNode x u)"
  have "speaks u v" by (simp add: v_def speaks_simps speaks_close)
  define w where "w = (if isPreconnecting v then store_in_pool x v else v)"
  have "speaks v w" by (simp add: w_def speaks_store_in_pool)
  with u \<open>speaks u v\<close> have w: "speaks s w" by (blast intro: speaks_trans)
  define t where "t = closeStatusConnectNode u"
  have t: "speaks s t" "speaks s (closeNode x u)"
    unfolding t_def by (blast intro: speaks_trans u speaks_close)+
  have "finish_request x ig s \<in> {handlerEvent x (genCloseMsg x w) CloseCode Close w, closeNode x u,
      handlerEvent x (genCloseMsg x t) CloseCode Close t}"
    unfolding finish_request_def u_def [symmetric] v_def [symmetric] w_def [symmetric] t_def [symmetric] Let_def by simp
  then show ?thesis
    using speaks_trans [OF w speaks_handlerEvent] speaks_trans [OF t(1) speaks_handlerEvent] t(2) by auto
qed

lemma speaks_setTaskId [speaks_intros]: "speaks s (setTaskId t s)"
  by (rule speaks_silent) (simp_all add: setTaskId_def silent_simps)

lemma setTaskId_status: "workStatus (setTaskId t s) = workStatus s" "exitStatus (setTaskId t s) = exitStatus s"
  by (simp_all add: setTaskId_def)

lemma speaks_parse_event:
  assumes "\<And>ev. frameEvent = Some ev \<Longrightarrow> ev_type ev \<noteq> Close \<and> workStatus s \<noteq> NodeClosed"
  shows "speaks s (snd (parse_event x frameEvent result s))"
proof (cases frameEvent)
  case None
  then show ?thesis
    by (auto simp: parse_event_def Let_def intro: speaks_close speaks_trans [OF speaks_close(1) speaks_handlerEvent])
next
  case (Some ev)
  with assms have ok: "ev_type ev \<noteq> Close" "workStatus s \<noteq> NodeClosed" by simp_all
  show ?thesis
  proof (cases "exitStatus s = ExitCancel")
    case True
    then show ?thesis by (simp add: parse_event_def Some)
  next
    case False
    define u where "u = (if started_event (ev_type ev) \<and> ev_taskId ev \<noteq> [] then setTaskId (ev_taskId ev) s else s)"
    obtain r v where v: "handlerFrame x ev u = (r, v)" by force
    have u: "speaks s u" "workStatus u \<noteq> NodeClosed" "exitStatus u \<noteq> ExitCancel"
      using ok False by (auto simp: u_def setTaskId_status intro: speaks_setTaskId)
    have "speaks s v" using speaks_trans [OF u(1) speaks_handlerFrame [OF ok(1) u(2,3)]] v by (metis snd_conv)
    moreover have "workStatus v \<noteq> NodeClosed" using handlerFrame_status(1) v u(2) by (metis snd_conv)
    ultimately have "speaks s (snd (snd (after_callback x (ev_type ev) v)))"
      using speaks_trans speaks_after_callback ok(1) by blast
    with \<open>speaks s v\<close> show ?thesis
      using False v by (auto simp: parse_event_def Some u_def [symmetric] Let_def split_beta
        intro: speaks_trans [OF _ speaks_finish_request])
  qed
qed

text \<open>The frames of one read are in order when none follows the one that closes the node, and the server
does not report the closing of the channel itself.\<close>

definition event_of :: "outside \<Rightarrow> in_frame \<Rightarrow> Node \<Rightarrow> NlsEvent option" where
  "event_of x fr s = fst (convertResult x fr s)"

fun frames_ok :: "(nat \<Rightarrow> outside) \<Rightarrow> in_frame list \<Rightarrow> Node \<Rightarrow> bool" where
  "frames_ok x [] s = True"
| "frames_ok x (fr # frs) s =
    (workStatus s \<noteq> NodeClosed \<and> map_option ev_type (event_of (x 0) fr s) \<noteq> Some Close \<and>
     (let (ret, s') = parseFrame (x 0) fr s in ret = 0 \<longrightarrow> frames_ok (\<lambda>k. x (Suc k)) frs s'))"

lemma speaks_parseFrame:
  assumes "workStatus s \<noteq> NodeClosed" "map_option ev_type (event_of x fr s) \<noteq> Some Close"
  shows "speaks s (snd (parseFrame x fr s))"
proof -
  obtain ev r s' where c: "convertResult x fr s = (ev, r, s')" by (metis prod_cases3)
  have s': "speaks s s'" "ev \<noteq> None \<Longrightarrow> s' = s"
    using convertResult_shape [OF c] by (auto intro: speaks_handlerEvent)
  have "speaks s' (snd (parse_event x ev r s'))"
    by (rule speaks_parse_event) (use assms s' c in \<open>auto simp: event_of_def\<close>)
  with s'(1) have "speaks s (snd (parse_event x ev r s'))" by (rule speaks_trans)
  then show ?thesis
    using assms c by (auto simp: parseFrame_def new_NlsEvent_def intro: speaks_parse_event)
qed

lemma speaks_parse_frames: "frames_ok x frs s \<Longrightarrow> speaks s (snd (parse_frames x frs s))"
proof (induction x frs s rule: frames_ok.induct)
  case (2 x fr frs s)
  obtain r t where p: "parseFrame (x 0) fr s = (r, t)" by force
  then have "speaks s t" using speaks_parseFrame [of s "x 0" fr] 2(2) by simp
  moreover have "r = 0 \<Longrightarrow> speaks t (snd (parse_frames (\<lambda>k. x (Suc k)) frs t))"
    using 2(1) [of "(r, t)" r t] 2(2) p by simp
  ultimately show ?case
    using p by (auto intro: speaks_trans)
qed simp

section \<open>Reading\<close>

lemma speaks_websocket_step:
  "frames_ok (i_outside i) (i_frames i) s \<Longrightarrow> speaks s (snd (websocket_step i s))"
  using speaks_parse_frames by (auto simp: websocket_step_def split_beta Let_def)

text \<open>What a read hands over, as the state it meets requires: frames are looked at only after the handshake.\<close>

definition input_ok :: "input \<Rightarrow> Node \<Rightarrow> bool" where
  "input_ok i s \<longleftrightarrow> frames_ok (i_outside i) (i_frames i) s"

lemma speaks_response_step:
  assumes "input_ok i s" "exitStatus s \<noteq> ExitCancel" "response_step x y i s = (ret, s', f)"
  shows "speaks s s'"
proof (cases "workStatus s = NodeHandshaking \<or> workStatus s = NodeHandshaked")
  case True
  define c where "c = addCmdDataBuffer y (if requestType (p_conn (nparam s)) = SpeechTextDialog then CmdTextDialog else CmdStart)
    [] (s\<lparr>workStatus := NodeStarting\<rparr>)"
  have c: "speaks s c" "workStatus c = NodeStarting" "exitStatus c \<noteq> ExitCancel"
    using True assms(2) speaks_trans [OF speaks_status [of s] speaks_addCmd]
    by (auto simp: c_def addCmd_status)
  define t where "t = snd (sendBuffer x CmdChannel False c)"
  have t: "speaks s t" "workStatus t \<noteq> NodeClosed" "exitStatus t \<noteq> ExitCancel"
    using c speaks_trans [OF c(1) speaks_sendBuffer] by (simp_all add: t_def sendBuffer_status)
  have "s' \<in> {s, s\<lparr>workStatus := NodeStarting\<rparr>, t, sendFakeSynthesisStarted x (i_started i) t}"
    using assms(3) True by (auto simp: response_step_def c_def t_def Let_def split_beta split: if_splits)
  then show ?thesis
    using t True speaks_status [of s] speaks_trans [OF t(1) speaks_sendFake [OF t(2,3)]] by auto
next
  case False
  then show ?thesis
    using assms(3) speaks_websocket_step [of i s] assms(1)
    by (auto simp: response_step_def input_ok_def Let_def split_beta split: if_splits
      intro: speaks_trans [OF _ speaks_sendBuffer] speaks_trans [OF _ speaks_trans [OF speaks_sendBuffer speaks_sendControlDirective]])
qed

lemma speaks_nodeResponseProcess:
  assumes "input_ok i s" "exitStatus s \<noteq> ExitCancel"
  shows "speaks s (snd (nodeResponseProcess x y i s))"
proof -
  obtain ret s' f where r: "response_step x y i s = (ret, s', f)" by (metis prod_cases3)
  note sp = speaks_response_step [OF assms r]
  then show ?thesis
    using r speaks_trans [OF sp speaks_trans [OF speaks_close(1) speaks_handlerTaskFailedEvent]]
    by (auto simp: nodeResponseProcess_def Let_def)
qed

lemma speaks_failed_event [speaks_intros]: "speaks s (failed_event x text code s)"
  unfolding failed_event_def by (rule speaks_trans [OF speaks_close(1) speaks_handlerTaskFailedEvent])

lemma speaks_readEventCallBack:
  assumes "input_ok i s"
  shows "speaks s (readEventCallBack x y i what s)"
  using speaks_nodeResponseProcess [OF assms, of x y] speaks_trans [OF _ speaks_close(1)]
  by (auto simp: readEventCallBack_def unknown_event_def split_beta Let_def
      intro: speaks_close speaks_failed_event)

lemma speaks_writeEventCallBack:
  "writeEventCallBack x y g check what s = Some s' \<Longrightarrow> speaks s s'"
  by (auto simp: writeEventCallBack_def unknown_event_def split: if_splits bind_splits
      dest!: speaks_nodeRequestProcess
      intro: speaks_close speaks_failed_event speaks_trans [OF _ speaks_destroy] speaks_trans)

section \<open>Connecting\<close>

lemma disconnect_status [simp]: "workStatus (disconnectProcess x s) = workStatus s"
  by (simp add: disconnectProcess_def close_socket_def emit_def Let_def)

lemma speaks_attempt:
  assumes "attempt x y l c ip s = Some r" "workStatus s \<noteq> NodeClosed"
  shows "case r of Inl s' \<Rightarrow> speaks s s' | Inr s' \<Rightarrow> speaks s s' \<and> workStatus s' \<noteq> NodeClosed"
proof -
  obtain r1 s1 where 1: "connectProcess c ip s = (r1, s1)" by force
  obtain r2 s2 where 2: "(if r1 = 0 then sslProcess x c s1 else (r1, s1)) = (r2, s2)" by force
  have s1: "speaks s s1" "workStatus s1 \<noteq> NodeClosed"
    using speaks_connectProcess [OF assms(2), of c ip] open_connect(1) [OF assms(2), of c ip] 1 by simp_all
  have s2: "speaks s s2" "workStatus s2 \<noteq> NodeClosed"
    using s1 2 speaks_trans [OF s1(1) speaks_sslProcess [OF s1(2), of x c]] open_connect(3) [OF s1(2), of x c]
    by (auto split: if_splits)
  have d: "speaks s2 ((disconnectProcess x s2)\<lparr>workStatus := NodeConnecting\<rparr>)"
    by (rule speaks_trans [OF speaks_close(2) speaks_status]) (use s2 in simp)
  show ?thesis
    using assms(1) 1 2 s2 speaks_trans [OF s2(1) d]
    by (auto simp: attempt_def split: if_splits bind_splits dest!: speaks_nodeRequestProcess
        intro: speaks_trans speaks_trans [OF speaks_trans speaks_destroy])
qed

lemma speaks_parseUrl: "parseUrlInformation d s = Some (ok, s') \<Longrightarrow> speaks s s' \<and> workStatus s' = workStatus s"
  by (auto simp: parseUrlInformation_def speaks_simps Let_def split: if_splits bind_splits)

lemma speaks_restart_long:
  assumes "workStatus s \<noteq> NodeClosed"
  shows "speaks s (snd (restart_long x y s))"
proof -
  define u where "u = update_status NodeStatusRunning (s\<lparr>connect_type := ConnectWithLongConnect, workStatus := NodeStarting\<rparr>)"
  have "speaks s u"
    using assms by (intro speaks_silent) (simp_all add: u_def update_status_def silent_simps)
  then have v: "speaks s (snd (sendBuffer x CmdChannel False (addCmdDataBuffer y t [] u)))" for t
    by (blast intro: speaks_trans speaks_addCmd speaks_sendBuffer)
  show ?thesis
    using v by (auto simp: restart_long_def u_def [symmetric] Let_def split_beta
        intro: speaks_trans [OF _ speaks_trans [OF speaks_handlerTaskFailedEvent speaks_close(1)]])
qed

lemma speaks_dns_prepare:
  assumes "dns_prepare x y l d s = Some r" "workStatus s \<noteq> NodeClosed"
  shows "case r of Inl p \<Rightarrow> speaks s (snd p) | Inr p \<Rightarrow> speaks s (snd p) \<and> workStatus (snd p) \<noteq> NodeClosed"
proof -
  obtain ok u where u: "checkConnectCount s = (ok, u)" by force
  have u': "speaks s u" "workStatus u = workStatus s"
    using u by (auto simp: checkConnectCount_def speaks_simps split: if_splits)
  define v where "v = update_status NodeStatusConnecting (u\<lparr>workStatus := NodeConnecting\<rparr>)"
  have v: "speaks s v" "workStatus v = NodeConnecting"
    using u' assms(2) speaks_trans [OF u'(1) speaks_trans [OF speaks_status speaks_update_status]]
    by (simp_all add: v_def) (simp add: update_status_def emit_def)
  have vb: "speaks v b \<Longrightarrow> speaks s b" for b using speaks_trans [OF v(1)] .
  have ub: "speaks s (handlerTaskFailedEvent x t c u)" for t c
    using speaks_trans [OF u'(1) speaks_handlerTaskFailedEvent] .
  show ?thesis
    using assms u u' v speaks_restart_long [of s x y]
    by (auto simp: dns_prepare_def v_def [symmetric] vb ub speaks_simps Let_def split: if_splits bind_splits
        dest!: speaks_parseUrl)
qed

lemma speaks_dnsProcess:
  "dnsProcess x y l d s = Some (ret, s') \<Longrightarrow> workStatus s \<noteq> NodeClosed \<Longrightarrow> speaks s s'"
proof (induction x y l d s arbitrary: ret s' rule: dnsProcess.induct)
  case (1 x y l d s)
  note eq = 1(2) [unfolded dnsProcess.simps [of x y l d s] Let_def]
  show ?case
  proof (cases "dns_prepare x y l d s")
    case (Some r)
    note p = speaks_dns_prepare [OF Some 1(3)]
    show ?thesis
    proof (cases r)
      case (Inl a)
      then show ?thesis using eq Some p by simp
    next
      case (Inr b)
      obtain ip s1 where b: "b = (ip, s1)" by force
      have s1: "speaks s s1" "workStatus s1 \<noteq> NodeClosed" using p Inr b by simp_all
      obtain q where q: "attempt x y l (l_try l (retryConnectCount s1)) ip s1 = Some q"
        using eq Some Inr b by (auto split: option.splits)
      note a = speaks_attempt [OF q s1(2)]
      show ?thesis
      proof (cases q)
        case (Inl s2)
        then show ?thesis using eq Some Inr b q a s1 by (auto intro: speaks_trans)
      next
        case q2: (Inr s2)
        have s2: "speaks s s2" "workStatus s2 \<noteq> NodeClosed"
          using a q2 s1(1) by (auto intro: speaks_trans)
        obtain r3 s3 where d: "dnsProcess x y l ip s2 = Some (r3, s3)"
          using eq Some Inr b q q2 by (auto split: option.splits)
        have "speaks s2 s3" using 1(1) [OF Some Inr b [symmetric] refl q q2 d s2(2)] .
        then have "speaks s s3" using speaks_trans [OF s2(1)] by blast
        then show ?thesis
          using eq Some Inr b q q2 d by (auto intro: speaks_trans [OF _ speaks_destroy])
      qed
    qed
  qed (use eq in simp)
qed

lemma speaks_dns_destroy:
  assumes "dnsProcess x y l d u = Some (ret, v)" "speaks s u" "workStatus u \<noteq> NodeClosed"
  shows "speaks s (if ret < 0 then destroyConnectNode check v else v)"
  using speaks_trans [OF assms(2) speaks_dnsProcess [OF assms(1,3)]] speaks_trans speaks_destroy by auto

lemma speaks_reconnect_step:
  assumes "reconnect_step x y l d check s = Some s'" "workStatus s \<noteq> NodeClosed"
  shows "speaks s s'"
proof -
  have "speaks s ((disconnectProcess x s)\<lparr>workStatus := NodeConnecting\<rparr>)"
    using speaks_trans [OF speaks_close(2) speaks_status] assms(2) by simp
  then show ?thesis
    using assms(1) speaks_dns_destroy by (auto simp: reconnect_step_def split: bind_splits)
qed

lemma speaks_handshake_step:
  assumes "handshake_step x y l c s = Some r" "workStatus s \<noteq> NodeClosed"
  shows "case r of Inl s' \<Rightarrow> speaks s s' | Inr s' \<Rightarrow> speaks s s' \<and> workStatus s' \<noteq> NodeClosed"
proof -
  obtain r1 s1 where 1: "sslProcess x c s = (r1, s1)" by force
  have "speaks s s1" "workStatus s1 \<noteq> NodeClosed"
    using speaks_sslProcess [OF assms(2), of x c] open_connect(3) [OF assms(2), of x c] 1 by simp_all
  then show ?thesis
    using assms(1) 1
    by (auto simp: handshake_step_def split: if_splits bind_splits dest!: speaks_nodeRequestProcess
        intro: speaks_trans speaks_trans [OF speaks_trans speaks_destroy])
qed

lemma speaks_connectEventCallback:
  assumes "connectEventCallback timer x y l d c err what s = Some s'" "workStatus s \<noteq> NodeClosed"
  shows "speaks s s'"
proof (cases "what = EV_CLOSED \<or> (what = EV_TIMEOUT \<and> \<not> timer)")
  case True
  then show ?thesis using assms speaks_reconnect_step by (simp add: connectEventCallback_def)
next
  case False
  obtain r1 s1 where 1: "socketConnect c s = (r1, s1)" by force
  define p where "p = (if workStatus s = NodeConnecting then
            (if err = 0 then (True, s\<lparr>workStatus := NodeConnected, isConnected := True\<rparr>) else (0 \<le> r1, s1))
          else (True, s))"
  obtain ok u where u: "p = (ok, u)" by force
  have "speaks s (s\<lparr>workStatus := NodeConnected, isConnected := True\<rparr>)"
    using assms(2) by (intro speaks_silent) (simp_all add: silent_simps)
  then have sp: "speaks s u" "workStatus u \<noteq> NodeClosed"
    using speaks_socketConnect [OF assms(2), of c] open_connect(2) [OF assms(2), of c] 1 u assms(2)
    by (auto simp: p_def split: if_splits)
  have "connectEventCallback timer x y l d c err what s = (let (ok, u) = p in if \<not> ok then reconnect_step x y l d (c_check c) u
      else if workStatus u = NodeConnected then do {
        r \<leftarrow> handshake_step x y l c u;
        (case r of Inl s \<Rightarrow> Some s | Inr s \<Rightarrow> reconnect_step x y l d (c_check c) s) }
      else Some u)"
    unfolding connectEventCallback_def p_def 1 by (simp only: False if_False Let_def split)
  then show ?thesis
    using sp u assms(1) by (auto split: if_splits bind_splits sum.splits dest!: speaks_reconnect_step [OF sym]
        speaks_handshake_step intro: speaks_trans speaks_trans [OF speaks_trans])
qed

lemma speaks_dnsEventCallback:
  assumes "dnsEventCallback x y l d c st ips s = Some s'" "workStatus s \<noteq> NodeClosed"
  shows "speaks s s'"
proof -
  have n: "speaks s (s\<lparr>workStatus := NodeConnecting\<rparr>)" by (rule speaks_status [OF assms(2)])
  have a: "case r of Inl t \<Rightarrow> speaks s t | Inr t \<Rightarrow> speaks s t \<and> workStatus t \<noteq> NodeClosed"
    if "attempt x y l c ip s = Some r" for ip r
    using speaks_attempt [OF that assms(2)] .
  show ?thesis
    using assms(1)
    by (auto simp: dnsEventCallback_def split: if_splits option.splits list.splits bind_splits sum.splits
        intro: speaks_destroy dest!: a dest: speaks_dns_destroy [OF _ n] speaks_dns_destroy)
qed

section \<open>Launching\<close>

lemma updateParameters_status:
  "speaks s (updateParameters u) = speaks s u" "workStatus (updateParameters u) = workStatus u"
  by (simp_all add: updateParameters_def speaks_def told_def settled_def reconnecting_def)

text \<open>A launch starts the node again, also when it was closed for a reconnection.\<close>

lemma speaks_launchEventCallback:
  assumes "launchEventCallback x y l d check s = Some s'" "workStatus s \<noteq> NodeClosed"
  shows "speaks s s'"
proof -
  define u where "u = updateParameters (s\<lparr>workStatus := NodeInvoked\<rparr>)"
  have n: "speaks s (s\<lparr>workStatus := NodeInvoked\<rparr>)" by (rule speaks_status [OF assms(2)])
  then have u: "speaks s u" "workStatus u \<noteq> NodeClosed" by (simp_all add: u_def updateParameters_status)
  consider "s' \<in> {s, s\<lparr>workStatus := NodeInvoked\<rparr>}"
    | ret v where "dnsProcess x y l d u = Some (ret, v)" "s' = (if ret < 0 then destroyConnectNode check v else v)"
    using assms(1) by (auto simp: launchEventCallback_def u_def [symmetric] split: if_splits bind_splits)
  then show ?thesis
    using n speaks_dns_destroy [OF _ u] by cases auto
qed

lemma speaks_startWithPool:
  assumes "workStatus s \<noteq> NodeClosed" "exitStatus s \<noteq> ExitCancel"
  shows "speaks s (startWithPoolEventCallback x y check w t s)"
proof -
  define c where "c = addCmdDataBuffer y CmdStart [] ((prestartProcess w s)\<lparr>workStatus := NodeStarting\<rparr>)"
  have "speaks s ((prestartProcess w s)\<lparr>workStatus := NodeStarting\<rparr>)"
    using assms(1) by (intro speaks_silent) (simp_all add: prestartProcess_def silent_simps)
  then have c: "speaks s c" "workStatus c = NodeStarting" "exitStatus c \<noteq> ExitCancel"
    using assms(2) by (auto simp: c_def addCmd_status prestartProcess_def intro: speaks_trans [OF _ speaks_addCmd])
  define t' where "t' = snd (sendBuffer x CmdChannel False c)"
  have t': "speaks s t'" "workStatus t' \<noteq> NodeClosed" "exitStatus t' \<noteq> ExitCancel"
    using c speaks_trans [OF c(1) speaks_sendBuffer] by (simp_all add: t'_def sendBuffer_status)
  have "startWithPoolEventCallback x y check w t s \<in> {s, t', sendFakeSynthesisStarted x t t'}"
    by (simp add: startWithPoolEventCallback_def c_def t'_def Let_def split_beta)
  then show ?thesis
    using t'(1) speaks_trans [OF t'(1) speaks_sendFake [OF t'(2,3)]] by auto
qed

text \<open>A text that is sent does not cancel.\<close>

lemma exit_handlerEvent: "exitStatus (handlerEvent x msg code type s) = exitStatus s"
  by (simp add: handlerEvent_def handlerFrame_status Let_def)

lemma exit_failed: "exitStatus (handlerTaskFailedEvent x t c (disconnectProcess x' s)) = exitStatus s"
  by (simp add: handlerTaskFailedEvent_def exit_handlerEvent disconnectProcess_def close_socket_def emit_def Let_def)

lemma exit_sendText: "exitStatus (snd (cmdNotify x y CmdSendText t s)) = exitStatus s"
  by (simp add: cmdNotify_def exit_failed sendBuffer_status addCmd_status Let_def split_beta)

lemma speaks_singleRound:
  assumes "exitStatus s \<noteq> ExitCancel"
  shows "speaks s (singleRoundTextEventCallback x y check s)"
proof -
  have "speaks s (snd (cmdNotify x y CmdStop [] (snd (cmdNotify x y CmdSendText t s))))" for t
    by (rule speaks_trans [OF speaks_cmdNotify speaks_cmdNotify]) (use assms in \<open>simp_all add: exit_sendText\<close>)
  then show ?thesis
    by (simp add: singleRoundTextEventCallback_def speaks_simps speaks_param Let_def split_beta)
qed

end
