(* ===== verification/NodeMachine.thy ===== *)
theory NodeMachine
  imports NodeRuns
begin

text \<open>
  A node as a state machine: its steps are the callbacks of the work thread and the calls of the
  client, each under the condition under which libevent, or the client, can make it. For every run:
  the user hears of the closing once and of nothing afterwards, and a cancelled node is silent. The
  calls of other threads during a sleep are steps of their own. Left out of the relation are long
  connections, a node that is being released, a start of a node that has failed or is being
  stopped, and the two callbacks that ignore a cancel: they have theorems of their own. The setters of
  the request may change the parameters at any time, but for the switch of the reconnection.
\<close>

section \<open>The calls of a client\<close>

definition alone :: "api \<Rightarrow> bool" where
  "alone a \<longleftrightarrow> a_other a = (\<lambda>_ s. s)"

lemma await_alone: "await n P (\<lambda>_ s. s) s = s"
  by (induction n) simp_all

lemma speaks_waitInvoke: "alone a \<Longrightarrow> speaks s (waitInvokeFinish a s)"
  by (intro speaks_silent) (auto simp: waitInvokeFinish_def alone_def silent_simps Let_def split: if_splits)

lemma speaks_launch_request: "speaks s (snd (launch_request a s))"
  by (intro speaks_silent) (auto simp: launch_request_def silent_simps Let_def split: if_splits)

lemma speaks_initNlsEncoder: "speaks s (initNlsEncoder m s)"
  by (intro speaks_silent) (auto simp: initNlsEncoder_def silent_simps Let_def split: if_splits)

lemma speaks_start:
  assumes "alone a" "exitStatus s = ExitInvalid" "workStatus s < NodeFailed" "NodeInvalid < workStatus s"
    "\<not> isLongConnection s"
  shows "speaks s (snd (start a s))"
proof -
  define u where "u = (if a_pool a then s\<lparr>usePreconnection := True, isLongConnection := False\<rparr>
             else s\<lparr>usePreconnection := False\<rparr>)"
  have u: "speaks s u" "workStatus u = workStatus s" "exitStatus u = exitStatus s" "\<not> isLongConnection u"
    using assms(5) by (auto simp: u_def silent_simps intro!: speaks_silent)
  have closed: "workStatus s \<noteq> NodeClosed"
    using assms(3) by (cases "workStatus s") (simp_all add: less_ConnectStatus_def)
  define v where "v = u\<lparr>workStatus := NodeInvoking, syncCallTimeoutMs := a_sync a\<rparr>"
  have v: "speaks u v" "speaks u (u\<lparr>workStatus := NodeCreated\<rparr>)"
    using closed u(2) by (auto simp: v_def silent_simps intro!: speaks_silent)
  define w where "w = snd (launch_request a v)"
  define t where "t = initNlsEncoder (a_encoder a) w"
  have w: "speaks s w"
    unfolding w_def by (rule speaks_trans [OF speaks_trans [OF u(1) v(1)] speaks_launch_request])
  have t: "speaks s t" unfolding t_def by (rule speaks_trans [OF w speaks_initNlsEncoder])
  have t': "speaks s (waitInvokeFinish a t)" by (rule speaks_trans [OF t speaks_waitInvoke [OF assms(1)]])
  have st: "NodeCreated \<le> workStatus s"
    using assms(4) by (cases "workStatus s") (simp_all add: less_ConnectStatus_def less_eq_ConnectStatus_def)
  have "snd (start a s) \<in> {s, u, u\<lparr>workStatus := NodeCreated\<rparr>, w, t, waitInvokeFinish a t}"
    using u assms(2-4) st
    by (auto simp: start_def u_def [symmetric] v_def w_def t_def Let_def split_beta)
  then show ?thesis
    using u(1) w t t' speaks_trans [OF u(1) v(2)] by auto
qed

lemma speaks_sendAudio: "alone a \<Longrightarrow> speaks s (snd (sendAudio x y a e bytes s))"
  by (simp add: sendAudio_def await_started_def alone_def await_alone Let_def
      speaks_addSliced speaks_addAudioDataBuffer)

lemma speaks_request_sendAudio: "alone a \<Longrightarrow> speaks s (snd (request_sendAudio x y a e bytes s))"
  using speaks_sendAudio by (simp add: request_sendAudio_def Let_def split_beta)

lemma speaks_stop:
  assumes "alone a"
  shows "speaks s (snd (stop x y a s))"
proof (cases "exitStatus s = ExitInvalid")
  case True
  then have "speaks s (snd (cmdNotify x y CmdStop [] s))" by (intro speaks_cmdNotify) simp
  then show ?thesis
    using assms speaks_trans [OF _ speaks_waitInvoke [OF assms]]
    by (simp add: stop_def alone_def await_alone Let_def split_beta)
next
  case False
  then show ?thesis using assms by (simp add: stop_def alone_def await_alone Let_def)
qed

lemma speaks_cancel: "alone a \<Longrightarrow> speaks s (snd (cancel x y a s))"
  using speaks_cmdNotify [of s CmdCancel x y]
  by (simp add: cancel_def alone_def await_alone Let_def split_beta)

lemma speaks_stControl: "speaks s (snd (stControl x y a m s))"
  by (simp add: stControl_def speaks_cmdNotify)

lemma speaks_send_command:
  "alone a \<Longrightarrow> type \<noteq> CmdStop \<Longrightarrow> speaks s (snd (send_command x y a type m s))"
  by (simp add: send_command_def await_started_def alone_def await_alone Let_def speaks_cmdNotify)

section \<open>The steps\<close>

inductive node_step :: "Node \<Rightarrow> Node \<Rightarrow> bool" where
  step_read: "readEvent s \<Longrightarrow> input_ok i s \<Longrightarrow> node_step s (readEventCallBack x y i w s)"
| step_write: "writeEvent s \<Longrightarrow> writeEventCallBack x y g check w s = Some s' \<Longrightarrow> node_step s s'"
| step_connect: "workStatus s \<noteq> NodeClosed \<Longrightarrow>
    connectEventCallback timer x y l d c err w s = Some s' \<Longrightarrow> node_step s s'"
| step_dns: "workStatus s \<noteq> NodeClosed \<Longrightarrow> dnsEventCallback x y l d c st ips s = Some s' \<Longrightarrow> node_step s s'"
| step_launch: "workStatus s \<noteq> NodeClosed \<Longrightarrow> launchEventCallback x y l d check s = Some s' \<Longrightarrow> node_step s s'"
| step_reconnect: "rc_state s = TriggerReconnection \<Longrightarrow>
    launchEventCallback x y l d check s = Some s' \<Longrightarrow> node_step s s'"
| step_pool: "startWithPoolEvent s \<Longrightarrow> workStatus s \<noteq> NodeClosed \<Longrightarrow> exitStatus s \<noteq> ExitCancel \<Longrightarrow>
    node_step s (startWithPoolEventCallback x y check ev t s)"
| step_single: "exitStatus s \<noteq> ExitCancel \<Longrightarrow> node_step s (singleRoundTextEventCallback x y check s)"
| step_start: "alone a \<Longrightarrow> exitStatus s = ExitInvalid \<Longrightarrow> NodeInvalid < workStatus s \<Longrightarrow> workStatus s < NodeFailed \<Longrightarrow>
    node_step s (snd (start a s))"
| step_audio: "alone a \<Longrightarrow> node_step s (snd (request_sendAudio x y a e bytes s))"
| step_stop: "alone a \<Longrightarrow> node_step s (snd (stop x y a s))"
| step_cancel: "alone a \<Longrightarrow> node_step s (snd (cancel x y a s))"
| step_control: "node_step s (snd (stControl x y a m s))"
| step_text: "alone a \<Longrightarrow> node_step s (snd (sendText x y a m s))"
| step_ping: "alone a \<Longrightarrow> node_step s (snd (sendPing x y a s))"
| step_flush: "alone a \<Longrightarrow> node_step s (snd (sendFlush x y a m s))"
| step_set: "enableReconnect (p_conn p) = enableReconnect (p_conn (nparam s)) \<Longrightarrow> node_step s (s\<lparr>nparam := p\<rparr>)"

definition node_init :: "Node \<Rightarrow> bool" where
  "node_init s \<longleftrightarrow> (\<exists>garbage param handler. s = new_ConnectNode garbage param handler False)"

text \<open>Between two steps either the step speaks, or the node is being started again.\<close>

definition restarted :: "Node \<Rightarrow> Node" where
  "restarted s = s\<lparr>workStatus := NodeInvoked\<rparr>"

lemma relaunch:
  assumes "launchEventCallback x y l d check s = Some s'"
  shows "s' = s \<or> speaks (restarted s) s'"
proof -
  define u where "u = updateParameters (restarted s)"
  have u: "speaks (restarted s) u" "workStatus u \<noteq> NodeClosed"
    by (simp_all add: u_def updateParameters_status) (simp add: restarted_def)
  show ?thesis
    using assms speaks_dns_destroy [OF _ u]
    by (fastforce simp: launchEventCallback_def u_def restarted_def split: if_splits bind_splits)
qed

lemma speaks_set:
  "enableReconnect (p_conn p) = enableReconnect (p_conn (nparam s)) \<Longrightarrow> speaks s (s\<lparr>nparam := p\<rparr>)"
  by (auto simp: speaks_def settled_def told_def reconnecting_def)

lemma node_step_speaks:
  assumes "node_step s s'" "\<not> isLongConnection s"
  shows "speaks s s' \<or> rc_state s = TriggerReconnection \<and> speaks (restarted s) s'"
  using assms
proof cases
  case (step_reconnect x y l d check)
  then show ?thesis using relaunch by blast
qed (use assms in \<open>auto simp: sendText_def sendPing_def sendFlush_def
    intro: speaks_readEventCallBack speaks_writeEventCallBack speaks_connectEventCallback
      speaks_dnsEventCallback speaks_launchEventCallback speaks_startWithPool speaks_singleRound speaks_start
      speaks_request_sendAudio speaks_stop speaks_cancel speaks_stControl speaks_send_command
      speaks_set\<close>)

text \<open>The invariant: \<open>Close\<close> is the last the user has heard, the node is closed then, and no reconnection
is under way.\<close>

definition node_inv :: "Node \<Rightarrow> bool" where
  "node_inv s \<longleftrightarrow> \<not> isLongConnection s \<and> settled s \<and> \<not> closes (butlast (told s)) \<and>
    (closes (told s) \<longrightarrow> workStatus s = NodeClosed \<and> \<not> reconnecting s)"

lemma node_inv_speaks:
  assumes "node_inv s" "speaks s s'"
  shows "node_inv s'"
proof -
  obtain seg where seg: "told s' = told s @ seg" "\<not> closes (butlast seg)"
    "closes seg \<Longrightarrow> workStatus s' = NodeClosed \<and> (settled s \<longrightarrow> \<not> reconnecting s')"
    "workStatus s = NodeClosed \<Longrightarrow> seg = [] \<and> workStatus s' = NodeClosed \<and> (reconnecting s' \<longrightarrow> reconnecting s)"
    and k: "isLongConnection s' = isLongConnection s" "settled s \<Longrightarrow> settled s'"
    using assms(2) by (auto simp: speaks_def)
  have "\<not> closes (butlast (told s @ seg))"
    using assms(1) seg(2,4) by (cases "seg = []") (auto simp: node_inv_def butlast_append)
  then show ?thesis using assms(1) seg k by (auto simp: node_inv_def)
qed

lemma node_inv_restarted: "node_inv s \<Longrightarrow> rc_state s = TriggerReconnection \<Longrightarrow> node_inv (restarted s)"
  by (auto simp: node_inv_def restarted_def settled_def reconnecting_def told_def)

interpretation node: invariant_system node_init node_step node_inv
proof unfold_locales
  show "node_inv s" if "node_init s" for s
    using that by (auto simp: node_init_def node_inv_def new_ConnectNode_def told_def settled_def reconnecting_def)
  show "node_inv s'" if "node_inv s" "node_step s s'" for s s'
  proof -
    from that have "\<not> isLongConnection s" by (simp add: node_inv_def)
    with that(2) show ?thesis
      using node_step_speaks node_inv_speaks node_inv_restarted that(1) by blast
  qed
qed

text \<open>A node, and an outside in which everything succeeds, for the examples.\<close>

definition ex_param :: INlsRequestParam where
  "ex_param = new_INlsRequestParam 0 TypeAsr [] 0"

definition ex_node :: Node where
  "ex_node = new_ConnectNode empty_url ex_param True False"

definition ex_done :: string where
  "ex_done = ''{\"header\":{\"name\":\"RecognitionCompleted\",\"status\":20000000}}''"

definition ex_json :: reader where
  "ex_json t = (if t = ex_done
     then Some (JObject [(''header'', JObject [(''name'', JString ''RecognitionCompleted''), (''status'', JInt 20000000)])])
     else None)"

definition ex_outside :: outside where
  "ex_outside = \<lparr>x_try_lock = True, x_json = ex_json, x_dump = (\<lambda>_. []),
     x_word = \<lparr>w_text = [], w_startTime = 0, w_endTime = 0\<rparr>, x_record = [], x_utf8ToGbk = (\<lambda>t. t),
     x_event_add = True, x_pool = False, x_write = (\<lambda>bs. int (length bs)), x_errorText = ''error''\<rparr>"

definition ex_feed :: feed where
  "ex_feed = \<lparr>y_alloc = (\<lambda>_. True), y_json = (\<lambda>_. None), y_dump = (\<lambda>_. ''{}''),
     y_uuid = (\<lambda>_ n. if n = 0 then ''m1'' else ''t1''), y_offset = 0, y_encode = (\<lambda>bs. (int (length bs), bs)),
     y_frameBytes = 4\<rparr>"

definition ex_api :: api where
  "ex_api = \<lparr>a_client = True, a_pool = True, a_thread = 0, a_popped = PreNodeStarted, a_fd = 5,
     a_event_add = True, a_encoder = True, a_sync = 0, a_timedout = False, a_other = (\<lambda>_ s. s)\<rparr>"

definition ex_input :: input where
  "ex_input = \<lparr>i_check = Success, i_gateway = 0, i_frames = [], i_outside = (\<lambda>_. ex_outside), i_result = 0,
     i_started = []\<rparr>"

text \<open>The node takes a pooled connection and starts, though its command cannot be packed for want of memory;
nothing is received for too long.\<close>

definition ex_invoked :: Node where
  "ex_invoked = snd (start ex_api ex_node)"

definition ex_starting :: Node where
  "ex_starting = startWithPoolEventCallback ex_outside (ex_feed\<lparr>y_alloc := (\<lambda>_. False)\<rparr>) Success (\<lambda>_. True) [] ex_invoked"

definition ex_timeout :: Node where
  "ex_timeout = readEventCallBack ex_outside ex_feed ex_input EV_TIMEOUT ex_starting"

lemmas ex_defs = ex_node_def ex_param_def ex_outside_def ex_feed_def ex_api_def ex_input_def

lemma ex_node_simps [simp]:
  "isLongConnection ex_node = False" "workStatus ex_node = NodeCreated" "exitStatus ex_node = ExitInvalid"
  "hasRequest ex_node" "hasHandler ex_node" "nodeOnMessage ex_node = False" "effects ex_node = []"
  "rc_state ex_node = NoReconnection" "nparam ex_node = ex_param" "syncCallTimeoutMs ex_node = 0"
  "encoderType ex_node = ENCODER_NONE" "readEvent ex_node = False" "writeEvent ex_node = False"
  "cmdEvBuffer ex_node = []" "binaryEvBuffer ex_node = []" "wwvEvBuffer ex_node = []" "limitSize ex_node = 192000"
  "isStop ex_node = False" "isWakeStop ex_node = False" "nodeErrMsg ex_node = []" "ownSsl ex_node"
  "socketFd ex_node = INVALID_SOCKET" "usePreconnection ex_node = False" "audioFrame ex_node = None"
  "isFirstAudioFrame ex_node" "nlsEncoder ex_node = False" "isConnected ex_node = False"
  "retryConnectCount ex_node = 0" "tw_index_offset ex_node = 0" "connect_type ex_node = ConnectWithSSL"
  "reconnected_count ex_node = 0" "nurl ex_node = empty_url" "releasingFlag ex_node = False"
  by (simp_all add: ex_node_def new_ConnectNode_def ex_param_def new_INlsRequestParam_def)

lemma ex_param_simps [simp]:
  "enableReconnect (p_conn ex_param) = False" "enableOnMessage (p_conn ex_param) = False"
  "p_format (p_conn ex_param) = ''pcm''" "p_mode (p_conn ex_param) = TypeAsr"
  "requestType (p_conn ex_param) = SpeechNormal" "p_taskId (p_text ex_param) = []"
  "outputFormat (p_conn ex_param) = ''UTF-8''" "enableWakeWord (p_conn ex_param) = False"
  by (simp_all add: ex_param_def new_INlsRequestParam_def)

lemma ex_invoked_eq: "ex_invoked = ex_node\<lparr>usePreconnection := True, workStatus := NodeInvoking, socketFd := 5,
    ownSsl := False, startWithPoolEvent := True, connect_type := ConnectWithPrestartedNodePool,
    nlsEncoder := False, effects := [StartWithPool]\<rparr>"
  by (simp add: ex_invoked_def start_def ex_api_def launch_request_def initNlsEncoder_def emit_def Let_def)

lemma ex_invoked: "workStatus ex_invoked = NodeInvoking \<and> startWithPoolEvent ex_invoked \<and> exitStatus ex_invoked = ExitInvalid"
  by (simp add: ex_invoked_eq)

lemma sendBuffer_empty: "buffer ch s = [] \<Longrightarrow> sendBuffer x ch af s = (0, s)"
  by (cases ch) (simp_all add: sendBuffer_def nlsSendFrame_def)

definition ex_task :: INlsRequestParam where
  "ex_task = snd (getStartCommand (y_json ex_feed) (y_dump ex_feed) (y_uuid ex_feed CmdStart) ex_param)"

lemma ex_task_conn [simp]: "p_conn ex_task = p_conn ex_param"
  by (simp add: ex_task_def)

lemma textBytes_short: "y_alloc y = (\<lambda>_. False) \<Longrightarrow> textBytes y t = []"
  by (auto simp: textBytes_def packed_def textFrame_def framePackage_def Let_def)

lemma ex_starting_eq: "ex_starting = ex_invoked\<lparr>readEvent := True, writeEvent := True, workStatus := NodeStarting,
    nparam := ex_task, rc_state := NewReconnectionStarting\<rparr>"
  by (simp add: ex_starting_def ex_invoked_eq startWithPoolEventCallback_def prestartProcess_def ex_task_def
      addCmdDataBuffer_def command_text_def start_command_def split_beta sendBuffer_empty textBytes_short Let_def)

lemma ex_starting: "workStatus ex_starting = NodeStarting \<and> readEvent ex_starting \<and> told ex_starting = [] \<and>
    exitStatus ex_starting = ExitInvalid \<and> \<not> isLongConnection ex_starting"
  by (simp add: ex_starting_eq ex_invoked_eq told_def)

text \<open>A node with a plain handler and no reconnection that fails reports the failure, then the closing.\<close>

definition plain :: "Node \<Rightarrow> bool" where
  "plain s \<longleftrightarrow> hasRequest s \<and> hasHandler s \<and> \<not> nodeOnMessage s \<and> \<not> enableReconnect (p_conn (nparam s)) \<and>
     exitStatus s \<noteq> ExitCancel \<and> workStatus s \<notin> {NodeInvalid, NodeClosed}"

lemma plain_emit: "plain (emit es s) = plain s" "nparam (emit es s) = nparam s"
  by (simp_all add: plain_def emit_def)

lemma plain_counts:
  "plain (s\<lparr>reconnected_count := n\<rparr>) = plain s" "plain (s\<lparr>retryConnectCount := k\<rparr>) = plain s"
  "plain (s\<lparr>rc_state := r\<rparr>) = plain s" "plain (s\<lparr>tw_index_offset := t\<rparr>) = plain s"
  "told (s\<lparr>reconnected_count := n\<rparr>) = told s" "told (s\<lparr>retryConnectCount := k\<rparr>) = told s"
  "told (s\<lparr>rc_state := r\<rparr>) = told s" "told (s\<lparr>tw_index_offset := t\<rparr>) = told s"
  by (simp_all add: plain_def told_def)

lemma handlerFrame_tells:
  assumes "plain s"
  shows "told (snd (handlerFrame x ev s)) = told s @ [ev] \<and> plain (snd (handlerFrame x ev s)) \<and>
    fst (handlerFrame x ev s) = Success \<and> nparam (snd (handlerFrame x ev s)) = nparam s"
proof -
  define u where "u = updateTwIndexOffset ev s"
  have u: "plain u" "told u = told s" "nparam u = nparam s"
    using assms by (simp_all add: u_def updateTwIndexOffset_def plain_counts)
  then have ig: "ignoreCallbackWhenReconnecting (ev_type ev) (ev_status ev) u = (False, u)"
    "ignoreCallbackWhenNodeClosedWhenLongConnection ty u = False" "\<not> nodeOnMessage u" for ty
    by (simp_all add: plain_def ignoreCallbackWhenReconnecting_def ignoreCallbackWhenNodeClosedWhenLongConnection_def)
  define v where "v = tell_user False ev u"
  have v: "plain v" "told v = told s @ [ev]" "nparam v = nparam s"
    using u ig(3) by (simp_all add: v_def tell_user_def sendFinishCondSignal_def plain_emit told_emit Let_def)
  define w where "w = (if ev_type ev = Close then ((nodeReconnecting x v)\<lparr>reconnected_count := 0\<rparr>)\<lparr>retryConnectCount := 0\<rparr>
      else if ev_type ev = TaskFailed \<and> hasRequest v \<and> x_pool x then emit [MarkAbnormal] v else v)"
  have "handlerFrame x ev s = (Success, w)"
    using assms ig by (simp add: handlerFrame_def plain_def u_def [symmetric] v_def [symmetric] w_def Let_def)
  then show ?thesis
    using v by (simp add: w_def nodeReconnecting_def plain_emit plain_counts told_emit)
qed

lemma handlerEvent_tells:
  assumes "plain s"
  shows "\<exists>ev. told (handlerEvent x msg code ty s) = told s @ [ev] \<and> ev_type ev = ty \<and> ev_status ev = code"
    "ty \<noteq> Close \<Longrightarrow> plain (handlerEvent x msg code ty s)"
    "ty = Close \<Longrightarrow> workStatus (handlerEvent x msg code ty s) = NodeClosed"
proof -
  define u where "u = (if code \<noteq> CloseCode then s\<lparr>nodeErrCode := code\<rparr> else s)"
  have u: "plain u" "told u = told s" using assms by (simp_all add: u_def plain_def told_def)
  define ev where "ev = new_NlsEvent (if ty = Close \<or> ty = TaskFailed then replenishNodeProcess x msg else msg) code ty
      (p_taskId (p_text (nparam s)))"
  have e: "handlerEvent x msg code ty s = (if ty = Close then (snd (handlerFrame x ev u))\<lparr>workStatus := NodeClosed\<rparr>
      else snd (handlerFrame x ev u))"
    using assms unfolding plain_def by (simp add: handlerEvent_def u_def ev_def Let_def)
  show "\<exists>ev. told (handlerEvent x msg code ty s) = told s @ [ev] \<and> ev_type ev = ty \<and> ev_status ev = code"
    using handlerFrame_tells [OF u(1), of x ev] u(2)
    by (intro exI [of _ ev]) (simp add: e told_def, simp add: ev_def new_NlsEvent_def)
  show "ty \<noteq> Close \<Longrightarrow> plain (handlerEvent x msg code ty s)"
    using handlerFrame_tells [OF u(1), of x ev] by (simp add: e)
  show "ty = Close \<Longrightarrow> workStatus (handlerEvent x msg code ty s) = NodeClosed"
    unfolding e by simp
qed

lemma failed_tells:
  assumes "plain s"
  shows "map ev_type (told (handlerTaskFailedEvent x info code s)) = map ev_type (told s) @ [TaskFailed, Close] \<and>
    workStatus (handlerTaskFailedEvent x info code s) = NodeClosed"
proof -
  have "\<exists>m c t. handlerTaskFailedEvent x info code s = handlerEvent x t CloseCode Close (handlerEvent x m c TaskFailed s)"
    unfolding handlerTaskFailedEvent_def Let_def split_beta by blast
  then obtain m c t where
    e: "handlerTaskFailedEvent x info code s = handlerEvent x t CloseCode Close (handlerEvent x m c TaskFailed s)" by blast
  have p: "plain (handlerEvent x m c TaskFailed s)" by (rule handlerEvent_tells [OF assms]) simp
  show ?thesis
    using handlerEvent_tells(1) [OF assms, of x m c TaskFailed]
      handlerEvent_tells(1) [OF p, of x t CloseCode Close] handlerEvent_tells(3) [OF p, of Close x t CloseCode]
    by (auto simp: e)
qed

lemma plain_closeNode: "plain (closeNode x s) = plain s" "told (closeNode x s) = told s"
  by (simp_all add: plain_def told_def closeNode_def drop_audio_def free_events_def close_socket_def emit_def)

lemma ex_timeout: "map ev_type (told ex_timeout) = [TaskFailed, Close] \<and> workStatus ex_timeout = NodeClosed"
proof -
  have p: "plain (closeNode ex_outside ex_starting)"
    by (simp add: plain_closeNode) (simp add: plain_def ex_starting_eq ex_invoked_eq)
  have "\<exists>t. ex_timeout = handlerTaskFailedEvent ex_outside t EvRecvTimeout (closeNode ex_outside ex_starting)"
    by (simp add: ex_timeout_def readEventCallBack_def ex_input_def ex_starting failed_event_def, blast)
  then obtain t where e: "ex_timeout = handlerTaskFailedEvent ex_outside t EvRecvTimeout (closeNode ex_outside ex_starting)" ..
  show ?thesis
    using failed_tells [OF p, of ex_outside t EvRecvTimeout] by (simp add: e plain_closeNode(2) ex_starting)
qed

lemma ex_node_run: "node_init ex_node" "node_step\<^sup>*\<^sup>* ex_node ex_starting" "node_step ex_starting ex_timeout"
proof -
  show "node_init ex_node" by (auto simp: node_init_def ex_node_def)
  have "node_step ex_node ex_invoked"
    unfolding ex_invoked_def
    by (rule step_start) (simp_all add: alone_def ex_defs new_ConnectNode_def less_ConnectStatus_def)
  moreover have "node_step ex_invoked ex_starting"
    unfolding ex_starting_def using ex_invoked by (intro step_pool) simp_all
  ultimately show "node_step\<^sup>*\<^sup>* ex_node ex_starting"
    by (meson converse_rtranclp_into_rtranclp rtranclp.rtrancl_refl)
  show "node_step ex_starting ex_timeout"
    unfolding ex_timeout_def using ex_starting by (intro step_read) (simp_all add: input_ok_def ex_input_def)
qed




text \<open>The node is cancelled while it starts; the time-out that follows is not reported.\<close>

definition ex_cancelled :: Node where
  "ex_cancelled = snd (cancel ex_outside ex_feed ex_api ex_starting)"

lemma ex_cancelled: "exitStatus ex_cancelled = ExitCancel" "readEvent ex_cancelled" "\<not> isLongConnection ex_cancelled"
  "told ex_cancelled = []"
  by (simp_all add: ex_cancelled_def cancel_def cmdNotify_def ex_starting_eq ex_invoked_eq less_ConnectStatus_def
      less_eq_ConnectStatus_def ex_api_def await_alone told_def)


end
