(* ===== verification/NodeReconnect.thy ===== *)
theory NodeReconnect
  imports NodeMachine
begin

text \<open>
  The reconnection of a node: which failures the user does not hear of, how many there can be, and
  what becomes of a reconnection that fails itself.
\<close>

section \<open>One event\<close>

definition hears :: "Node \<Rightarrow> bool" where
  "hears s \<longleftrightarrow> hasRequest s \<and> hasHandler s \<and> \<not> nodeOnMessage s \<and> exitStatus s \<noteq> ExitCancel \<and>
     workStatus s \<notin> {NodeInvalid, NodeClosed}"

definition reconnects :: "Node \<Rightarrow> nat" where
  "reconnects s = count_list (effects s) Reconnect"

lemma reconnects_emit: "reconnects (emit es s) = reconnects s + count_list es Reconnect"
  by (simp add: reconnects_def emit_def)

text \<open>The two parts of \<open>ignoreCallbackWhenReconnecting\<close>: a failure may begin a reconnection, and failures
and closings are hidden while one is under way and not too many have been counted.\<close>

definition begin_reconnection :: "EventType \<Rightarrow> int \<Rightarrow> Node \<Rightarrow> Node" where
  "begin_reconnection ty code s =
    (if ty = TaskFailed \<and> reconnect_code code \<and> (rc_state s = NoReconnection \<or> rc_state s = NewReconnectionStarting)
     then s\<lparr>reconnected_count := reconnected_count s + 1, rc_state := WillReconnect\<rparr> else s)"

definition few :: "Node \<Rightarrow> bool" where
  "few s \<longleftrightarrow> reconnected_count s \<le> max_try_count"

lemma ignore_eq:
  "ignoreCallbackWhenReconnecting ty code s =
    (if hasRequest s \<and> enableReconnect (p_conn (nparam s)) then
       (let s = begin_reconnection ty code s
        in if reconnecting s \<and> (ty = TaskFailed \<or> ty = Close)
           then (if few s then (True, s) else (False, s\<lparr>rc_state := NoReconnection\<rparr>))
           else (False, s))
     else (False, s))"
  unfolding ignoreCallbackWhenReconnecting_def begin_reconnection_def few_def reconnecting_def Let_def
  by (simp only: de_Morgan_conj not_not if_not_P if_P split: if_split) blast

lemma ignore_err:
  assumes "ignoreCallbackWhenReconnecting ty code s = (ig, v)"
  shows "ignoreCallbackWhenReconnecting ty code (s\<lparr>nodeErrCode := c\<rparr>) = (ig, v\<lparr>nodeErrCode := c\<rparr>)"
proof -
  have b: "begin_reconnection ty code (s\<lparr>nodeErrCode := c\<rparr>) = (begin_reconnection ty code s)\<lparr>nodeErrCode := c\<rparr>"
    by (auto simp: begin_reconnection_def)
  have f: "few (s\<lparr>nodeErrCode := c\<rparr>) = few s" "reconnecting (s\<lparr>nodeErrCode := c\<rparr>) = reconnecting s" for s
    by (simp_all add: few_def reconnecting_def)
  show ?thesis using assms by (auto simp: ignore_eq b f Let_def split: if_splits)
qed

lemma signal_rc:
  "rc_state (sendFinishCondSignal ty s) = rc_state s"
  "reconnected_count (sendFinishCondSignal ty s) = reconnected_count s"
  "reconnects (sendFinishCondSignal ty s) = reconnects s" "hears (sendFinishCondSignal ty s) = hears s"
  "hasHandler (sendFinishCondSignal ty s) = hasHandler s" "nodeOnMessage (sendFinishCondSignal ty s) = nodeOnMessage s"
  by (simp_all add: sendFinishCondSignal_def reconnects_emit) (simp_all add: emit_def hears_def)

lemma emit_rc:
  "rc_state (emit es s) = rc_state s" "reconnected_count (emit es s) = reconnected_count s"
  "hears (emit es s) = hears s" "workStatus (emit es s) = workStatus s" "nparam (emit es s) = nparam s"
  "hasHandler (emit es s) = hasHandler s" "nodeOnMessage (emit es s) = nodeOnMessage s"
  by (simp_all add: emit_def hears_def)

lemma tell_user_rc:
  "rc_state (tell_user ig ev s) = rc_state s" "reconnected_count (tell_user ig ev s) = reconnected_count s"
  "reconnects (tell_user ig ev s) = reconnects s" "hears (tell_user ig ev s) = hears s"
  "hasHandler (tell_user ig ev s) = hasHandler s" "nodeOnMessage (tell_user ig ev s) = nodeOnMessage s"
  by (simp_all add: tell_user_def handlerMessage_def signal_rc emit_rc reconnects_emit Let_def)

lemma tell_user_types:
  "\<not> nodeOnMessage s \<Longrightarrow> told (tell_user ig ev s) = told s @ (if ig then [] else [ev])"
  by (simp add: tell_user_def told_emit told_signal Let_def)

lemma handlerEvent_rc:
  fixes x :: outside and msg :: string
  assumes "hears s" "ty = TaskFailed \<or> ty = Close" "ignoreCallbackWhenReconnecting ty code s = (ig, v)"
  defines "s' \<equiv> handlerEvent x msg code ty s"
  defines "again \<equiv> ty = Close \<and> rc_state v = WillReconnect \<and> x_event_add x"
  shows "map ev_type (told s') = map ev_type (told s) @ (if ig then [] else [ty])"
    "rc_state s' = (if again then TriggerReconnection else rc_state v)"
    "reconnected_count s' = (if ty = Close \<and> \<not> ig then 0 else reconnected_count v)"
    "reconnects s' = reconnects s + (if again then 1 else 0)"
    "nparam s' = nparam s" "workStatus s' = (if ty = Close then NodeClosed else workStatus s)"
    "ty = TaskFailed \<Longrightarrow> hears s'" "ig \<Longrightarrow> told s' = told s"
proof -
  define u where "u = (if code \<noteq> CloseCode then s\<lparr>nodeErrCode := code\<rparr> else s)"
  define v' where "v' = (if code \<noteq> CloseCode then v\<lparr>nodeErrCode := code\<rparr> else v)"
  define ev where "ev = new_NlsEvent (replenishNodeProcess x msg) code ty (p_taskId (p_text (nparam s)))"
  have ev: "ev_type ev = ty" "ev_status ev = code" by (simp_all add: ev_def new_NlsEvent_def)
  have ig: "ignoreCallbackWhenReconnecting ty code u = (ig, v')"
    using assms(3) ignore_err [OF assms(3)] by (cases "code = CloseCode") (simp_all add: u_def v'_def)
  note k = ignoreReconnecting_frame [OF assms(3)]
  have v: "hears v'" "told v' = told s" "rc_state v' = rc_state v" "reconnected_count v' = reconnected_count v"
    "reconnects v' = reconnects s" "nparam v' = nparam s" "workStatus v' = workStatus s"
    using assms(1) k by (simp_all add: v'_def hears_def told_def reconnects_def)
  define w where "w = tell_user ig ev v'"
  have w: "hears w" "ig \<Longrightarrow> told w = told s" "map ev_type (told w) = map ev_type (told s) @ (if ig then [] else [ty])"
    "rc_state w = rc_state v" "reconnected_count w = reconnected_count v" "reconnects w = reconnects s"
    "nparam w = nparam s" "workStatus w = workStatus s"
    using v ev by (auto simp: w_def tell_user_rc tell_user_frame tell_user_types hears_def)
  have "handlerFrame x ev u = (Success, if ty = Close then
        (let s = nodeReconnecting x w in (if ig then s else s\<lparr>reconnected_count := 0\<rparr>)\<lparr>retryConnectCount := 0\<rparr>)
      else if \<not> ig \<and> hasRequest w \<and> x_pool x then emit [MarkAbnormal] w else w)"
    using assms(1,2) ig ev v(1)
    by (auto simp: handlerFrame_def u_def hears_def updateTwIndexOffset_def w_def
        ignoreCallbackWhenNodeClosedWhenLongConnection_def Let_def)
  then have e: "s' = (if ty = Close then
        ((let s = nodeReconnecting x w in (if ig then s else s\<lparr>reconnected_count := 0\<rparr>)\<lparr>retryConnectCount := 0\<rparr>)\<lparr>workStatus := NodeClosed\<rparr>)
      else if \<not> ig \<and> hasRequest w \<and> x_pool x then emit [MarkAbnormal] w else w)"
    using assms(1,2) unfolding s'_def by (auto simp: handlerEvent_def hears_def u_def ev_def Let_def)
  show "map ev_type (told s') = map ev_type (told s) @ (if ig then [] else [ty])"
    "rc_state s' = (if again then TriggerReconnection else rc_state v)"
    "reconnected_count s' = (if ty = Close \<and> \<not> ig then 0 else reconnected_count v)"
    "reconnects s' = reconnects s + (if again then 1 else 0)"
    "nparam s' = nparam s" "workStatus s' = (if ty = Close then NodeClosed else workStatus s)"
    "ty = TaskFailed \<Longrightarrow> hears s'" "ig \<Longrightarrow> told s' = told s"
    using w assms(2) by (auto simp: e again_def nodeReconnecting_def told_def reconnects_def hears_def emit_def Let_def split: if_splits)
qed

section \<open>A failure\<close>

text \<open>The code a failure is reported with.\<close>

definition failure_code :: "outside \<Rightarrow> string \<Rightarrow> int \<Rightarrow> int" where
  "failure_code x info code =
    (if info = [] then DefaultErrorCode else if code = DefaultErrorCode then getErrorCodeFromMsg x info else code)"

lemma failed_eq:
  obtains m t where "handlerTaskFailedEvent x info code s =
    handlerEvent x t CloseCode Close (handlerEvent x m (failure_code x info code) TaskFailed s)"
proof -
  define m where "m = (if info = [] then ''{\"TaskFailed\":\"Unknown failed.\"}''
      else take 1022 (''{\"TaskFailed\":\"'' @ c_string info @ ''\"}''))"
  have "handlerTaskFailedEvent x info code s =
      (let s = handlerEvent x m (failure_code x info code) TaskFailed s
       in handlerEvent x (genCloseMsg x s) CloseCode Close s)"
    unfolding handlerTaskFailedEvent_def m_def failure_code_def Let_def split_beta by simp
  then show ?thesis using that by (simp add: Let_def)
qed

text \<open>C14: a failure the SDK counts as an interruption is hidden from the user, and the node is started
again shortly afterwards; after four hidden failures the next one is reported, with the closing,
and the count starts over. So a user waits for at most four reconnections.\<close>

theorem reconnection_bounded:
  assumes "hears s" "enableReconnect (p_conn (nparam s))" "reconnect_code (failure_code x info code)"
    "rc_state s = NoReconnection \<or> rc_state s = NewReconnectionStarting" "x_event_add x"
    "reconnected_count s \<le> max_try_count"
  defines "s' \<equiv> handlerTaskFailedEvent x info code s"
  shows "workStatus s' = NodeClosed \<and>
    (if reconnected_count s < max_try_count
     then told s' = told s \<and> reconnected_count s' = reconnected_count s + 1 \<and>
       rc_state s' = TriggerReconnection \<and> reconnects s' = Suc (reconnects s)
     else map ev_type (told s') = map ev_type (told s) @ [TaskFailed, Close] \<and> reconnected_count s' = 0 \<and>
       rc_state s' = NoReconnection \<and> reconnects s' = reconnects s)"
proof -
  obtain m t where e: "s' = handlerEvent x t CloseCode Close (handlerEvent x m (failure_code x info code) TaskFailed s)"
    unfolding s'_def by (rule failed_eq)
  define f where "f = handlerEvent x m (failure_code x info code) TaskFailed s"
  define b where "b = s\<lparr>reconnected_count := reconnected_count s + 1, rc_state := WillReconnect\<rparr>"
  define hid where "hid = (reconnected_count s < max_try_count)"
  have few: "few b = hid"
    using assms(6) unfolding few_def b_def hid_def by simp (unat_arith; auto)
  define v where "v = (if hid then b else b\<lparr>rc_state := NoReconnection\<rparr>)"
  have "reconnecting b" by (simp add: b_def reconnecting_def)
  then have ig: "ignoreCallbackWhenReconnecting TaskFailed (failure_code x info code) s = (hid, v)"
    using assms(1-4) few
    by (simp add: ignore_eq begin_reconnection_def b_def [symmetric] v_def hears_def Let_def)
  note f = handlerEvent_rc [OF assms(1) disjI1 [OF refl] ig, of x m, folded f_def]
  have v: "rc_state v = (if hid then WillReconnect else NoReconnection)"
    "reconnected_count v = reconnected_count s + 1"
    by (simp_all add: v_def b_def)
  have bf: "begin_reconnection Close CloseCode f = f" by (simp add: begin_reconnection_def)
  have "few f = few b" using f(3) v(2) by (simp add: few_def b_def)
  then have ig2: "ignoreCallbackWhenReconnecting Close CloseCode f = (hid, f)"
    using f(2,5,7) assms(2) v(1) few
    by (auto simp: ignore_eq bf reconnecting_def hears_def Let_def)
  note g = handlerEvent_rc [OF f(7) [OF refl] disjI2 [OF refl] ig2, of x t, folded e [folded f_def]]
  show ?thesis
  proof (cases hid)
    case True
    then show ?thesis using g f v assms(5) by (simp add: hid_def)
  next
    case False
    then show ?thesis using g f v by (simp add: hid_def)
  qed
qed

text \<open>A recognizer with reconnection enabled, at work.\<close>

definition ex_working :: Node where
  "ex_working = ex_starting\<lparr>workStatus := NodeStarted, rc_state := NoReconnection,
     nparam := ex_param\<lparr>p_conn := (p_conn ex_param)\<lparr>enableReconnect := True\<rparr>\<rparr>\<rparr>"

lemma ex_working: "hears ex_working" "enableReconnect (p_conn (nparam ex_working))"
  "rc_state ex_working = NoReconnection" "reconnected_count ex_working = 0" "told ex_working = []"
  by (simp_all add: ex_working_def hears_def told_def ex_starting_eq ex_invoked_eq)

theorem reconnection_bounded_witness:
  "told (handlerTaskFailedEvent ex_outside ''x'' SysConnectFailed ex_working) = [] \<and>
   rc_state (handlerTaskFailedEvent ex_outside ''x'' SysConnectFailed ex_working) = TriggerReconnection \<and>
   map ev_type (told (handlerTaskFailedEvent ex_outside ''x'' SysConnectFailed (ex_working\<lparr>reconnected_count := 4\<rparr>))) =
     [TaskFailed, Close]"
proof -
  have c: "reconnect_code (failure_code ex_outside ''x'' SysConnectFailed)" "x_event_add ex_outside"
    by (simp_all add: failure_code_def reconnect_code_def ex_outside_def)
  have h: "hears (ex_working\<lparr>reconnected_count := 4\<rparr>)" "told (ex_working\<lparr>reconnected_count := 4\<rparr>) = []"
    using ex_working by (simp_all add: hears_def told_def)
  show ?thesis
    using reconnection_bounded [OF ex_working(1,2) c(1) disjI1 [OF ex_working(3)] c(2)]
      reconnection_bounded [OF h(1) _ c(1) _ c(2)] ex_working h(2) by simp
qed

text \<open>C24: a reconnection that fails before its start command is sent is lost: the failure is hidden like
the interruption it was meant to repair, but no further attempt is made. The node is closed, and
its user is never told.\<close>

theorem failed_reconnection_is_silent:
  fixes x :: outside and info :: string and code :: int
  assumes "hears s" "enableReconnect (p_conn (nparam s))" "rc_state s = TriggerReconnection"
    "reconnected_count s \<le> max_try_count"
  defines "s' \<equiv> handlerTaskFailedEvent x info code s"
  shows "told s' = told s \<and> workStatus s' = NodeClosed \<and> reconnects s' = reconnects s \<and>
    rc_state s' = TriggerReconnection \<and> reconnected_count s' = reconnected_count s"
proof -
  obtain m t where e: "s' = handlerEvent x t CloseCode Close (handlerEvent x m (failure_code x info code) TaskFailed s)"
    unfolding s'_def by (rule failed_eq)
  define f where "f = handlerEvent x m (failure_code x info code) TaskFailed s"
  have b: "begin_reconnection ty c u = u" if "rc_state u = TriggerReconnection" for ty c u
    using that by (simp add: begin_reconnection_def)
  have ig: "ignoreCallbackWhenReconnecting TaskFailed (failure_code x info code) s = (True, s)"
    using assms(1-4) by (simp add: ignore_eq b few_def reconnecting_def hears_def Let_def)
  note f = handlerEvent_rc [OF assms(1) disjI1 [OF refl] ig, of x m, folded f_def]
  have ig2: "ignoreCallbackWhenReconnecting Close CloseCode f = (True, f)"
    using f assms(2-4) by (simp add: ignore_eq b few_def reconnecting_def hears_def Let_def)
  note g = handlerEvent_rc [OF f(7) [OF refl] disjI2 [OF refl] ig2, of x t, folded e [folded f_def]]
  show ?thesis using f g assms(3) by simp
qed

theorem failed_reconnection_is_silent_witness:
  "told (handlerTaskFailedEvent ex_outside ''connect failed.'' SysConnectFailed
     (ex_working\<lparr>rc_state := TriggerReconnection, workStatus := NodeConnecting, reconnected_count := 1\<rparr>)) = []"
proof -
  let ?s = "ex_working\<lparr>rc_state := TriggerReconnection, workStatus := NodeConnecting, reconnected_count := 1\<rparr>"
  have "hears ?s" "told ?s = []" "enableReconnect (p_conn (nparam ?s))"
    using ex_working by (simp_all add: hears_def told_def)
  then show ?thesis
    using failed_reconnection_is_silent [of ?s ex_outside "''connect failed.''" SysConnectFailed] by simp
qed

end
