(* ===== verification/NodeRetries.thy ===== *)
theory NodeRetries
  imports NodeReconnect
begin

text \<open>
  The attempts to connect: how many there are, where they go, and what the user is told when all
  of them fail.
\<close>

section \<open>Sockets opened\<close>

fun opened_in :: "effect list \<Rightarrow> string list" where
  "opened_in [] = []"
| "opened_in (SocketOpen fd ip # es) = ip # opened_in es"
| "opened_in (_ # es) = opened_in es"

lemma opened_in_append [simp]: "opened_in (xs @ ys) = opened_in xs @ opened_in ys"
  by (induction xs rule: opened_in.induct) simp_all

text \<open>The addresses to which the node has opened sockets, in order.\<close>

definition opened :: "Node \<Rightarrow> string list" where
  "opened s = opened_in (effects s)"

lemma opened_emit: "opened (emit es s) = opened s @ opened_in es"
  by (simp add: opened_def emit_def)

lemma opened_update:
  "opened (s\<lparr>workStatus := st\<rparr>) = opened s" "opened (s\<lparr>retryConnectCount := n\<rparr>) = opened s"
  "opened (s\<lparr>nodeErrCode := c\<rparr>) = opened s" "opened (s\<lparr>rc_state := r\<rparr>) = opened s"
  "opened (s\<lparr>reconnected_count := k\<rparr>) = opened s" "opened (s\<lparr>tw_index_offset := ofs\<rparr>) = opened s"
  "opened (s\<lparr>isDestroy := b\<rparr>) = opened s" "opened (s\<lparr>hasRequest := b\<rparr>) = opened s"
  "opened (s\<lparr>isConnected := b\<rparr>) = opened s" "opened (s\<lparr>dnsEvent := b\<rparr>) = opened s"
  "opened (s\<lparr>nurl := u\<rparr>) = opened s" "opened (s\<lparr>connect_type := ct\<rparr>) = opened s"
  "opened (s\<lparr>socketFd := fd\<rparr>) = opened s"
  by (simp_all add: opened_def)

lemma opened_signal: "opened (sendFinishCondSignal ty s) = opened s"
  by (simp add: sendFinishCondSignal_def opened_emit)

lemma opened_tell_user: "opened (tell_user ig ev s) = opened s"
  by (simp add: tell_user_def handlerMessage_def opened_signal opened_emit Let_def)

lemma opened_ignore: "ignoreCallbackWhenReconnecting ty code s = (ig, v) \<Longrightarrow> opened v = opened s"
  using ignoreReconnecting_frame(6) [of ty code s ig v] by (simp add: opened_def)

lemma opened_handlerFrame: "opened (snd (handlerFrame x ev s)) = opened s"
proof -
  obtain ig v where ig: "ignoreCallbackWhenReconnecting (ev_type ev) (ev_status ev) (updateTwIndexOffset ev s) = (ig, v)"
    by force
  have "opened v = opened s"
    using opened_ignore [OF ig] by (simp add: updateTwIndexOffset_def opened_update)
  then have w: "opened (tell_user ig' ev v) = opened s" for ig' by (simp add: opened_tell_user)
  then show ?thesis
    by (simp add: handlerFrame_def ig nodeReconnecting_def opened_update opened_emit Let_def)
qed

lemma opened_handlerEvent: "opened (handlerEvent x msg code ty s) = opened s"
  by (simp add: handlerEvent_def opened_handlerFrame opened_update Let_def)

lemma opened_failed: "opened (handlerTaskFailedEvent x info code s) = opened s"
  by (simp add: handlerTaskFailedEvent_def opened_handlerEvent split_beta Let_def)

lemma opened_disconnect: "opened (disconnectProcess x s) = opened s"
  by (simp add: disconnectProcess_def close_socket_def opened_update opened_emit Let_def)

lemma opened_destroy: "opened (destroyConnectNode check s) = opened s"
  by (simp add: destroyConnectNode_def opened_update opened_emit)

section \<open>A refused attempt\<close>

text \<open>The system lets a socket be made, but the peer refuses the connection.\<close>

definition refuses :: "sys \<Rightarrow> bool" where
  "refuses c \<longleftrightarrow> c_check c = Success \<and> 0 \<le> c_socket c \<and> c_setsockopt c \<and> c_nonblocking c \<and>
     (\<forall>k<4. c_event_new c k) \<and> c_pton c \<and> c_connect c = Refused"

text \<open>The node reports failures, and \<open>u\<close> is its URL when \<open>d\<close> is given as a direct address.\<close>

definition direct_to :: "string \<Rightarrow> urlAddress \<Rightarrow> Node \<Rightarrow> bool" where
  "direct_to d u s \<longleftrightarrow> plain s \<and> url_directIp u \<and> url_address u = d \<and>
     (\<forall>t. hasRequest t \<longrightarrow> nparam t = nparam s \<longrightarrow> parseUrlInformation d t = Some (True, t\<lparr>nurl := u\<rparr>))"

lemma plain_update:
  "plain (s\<lparr>retryConnectCount := n\<rparr>) = plain s" "plain (s\<lparr>nurl := u\<rparr>) = plain s"
  "plain (s\<lparr>connect_type := ct\<rparr>) = plain s" "plain (s\<lparr>isConnected := b\<rparr>) = plain s"
  "plain (s\<lparr>dnsEvent := b\<rparr>) = plain s" "plain (s\<lparr>socketFd := fd\<rparr>) = plain s"
  "plain s \<Longrightarrow> plain (s\<lparr>workStatus := NodeConnecting\<rparr>)"
  by (simp_all add: plain_def)

lemma disconnect_keeps:
  "plain (disconnectProcess x s) = plain s" "told (disconnectProcess x s) = told s"
  "nparam (disconnectProcess x s) = nparam s" "isConnected (disconnectProcess x s) = False"
  "isLongConnection (disconnectProcess x s) = isLongConnection s"
  by (simp_all add: disconnectProcess_def close_socket_def plain_def told_def emit_def Let_def)

lemma refused_attempt:
  assumes "plain s" "refuses c"
  obtains s' where "attempt x y l c ip s = Some (Inr s')" "plain s'" "told s' = told s"
    "opened s' = opened s @ [ip]" "nparam s' = nparam s" "retryConnectCount s' = retryConnectCount s"
    "\<not> isConnected s'"
proof -
  define t where "t = (emit [SocketOpen (c_socket c) ip] s)\<lparr>connectEvent := True, connectTimerEvent := True,
    readEvent := True, writeEvent := True, socketFd := c_socket c\<rparr>"
  have "connectProcess c ip s = (- SocketConnectFailed, t)"
    using assms by (simp add: connectProcess_def socketConnect_def refuses_def plain_def t_def emit_def Let_def)
  then have a: "attempt x y l c ip s = Some (Inr ((disconnectProcess x t)\<lparr>workStatus := NodeConnecting\<rparr>))"
    by (simp add: attempt_def)
  have t: "plain t" "told t = told s" "nparam t = nparam s" "opened t = opened s @ [ip]"
    "retryConnectCount t = retryConnectCount s"
    using assms(1) by (simp_all add: t_def plain_def told_def opened_def emit_def)
  let ?d = "(disconnectProcess x t)\<lparr>workStatus := NodeConnecting\<rparr>"
  have "plain ?d" using t by (intro plain_update(7)) (simp add: disconnect_keeps)
  moreover have "told ?d = told s" using t disconnect_keeps(2) [of x t] by (simp add: told_def)
  ultimately show ?thesis
    using that [OF a] t by (simp add: opened_update opened_disconnect disconnect_keeps keeps_count)
qed

lemma direct_prepare:
  assumes "direct_to d u s" "\<not> isConnected s" "c_check (l_try l (retryConnectCount s)) = Success"
    "retryConnectCount s < RetryConnectCount"
  obtains s' where "dns_prepare x y l d s = Some (Inr (d, s'))" "direct_to d u s'" "told s' = told s"
    "opened s' = opened s" "\<not> isConnected s'" "retryConnectCount s' = Suc (retryConnectCount s)" "nparam s' = nparam s"
proof -
  define v where "v = update_status NodeStatusConnecting (s\<lparr>retryConnectCount := Suc (retryConnectCount s), workStatus := NodeConnecting\<rparr>)"
  define w where "w = v\<lparr>nurl := u\<lparr>url_enableSysGetAddr := l_sysGetAddr l\<rparr>, connect_type := ConnectWithDirectIP\<rparr>"
  have p: "plain s" using assms(1) by (simp add: direct_to_def)
  have v: "plain v" "told v = told s" "opened v = opened s" "nparam v = nparam s" "isConnected v = isConnected s"
    "retryConnectCount v = Suc (retryConnectCount s)"
    using p by (simp_all add: v_def update_status_def plain_def told_emit opened_emit)
      (simp_all add: emit_def told_def opened_def)
  have "parseUrlInformation d v = Some (True, v\<lparr>nurl := u\<rparr>)"
    using assms(1) v(1,4) by (simp add: direct_to_def plain_def)
  then have "dns_prepare x y l d s = Some (Inr (d, w))"
    using assms p by (simp add: dns_prepare_def checkConnectCount_def v_def [symmetric] direct_to_def plain_def w_def Let_def)
  moreover have "direct_to d u w" using assms(1) v by (simp add: direct_to_def w_def plain_update)
  ultimately show ?thesis
    using that [of w] v assms(2) by (simp add: w_def opened_update) (simp add: told_def)
qed

lemma last_prepare:
  assumes "plain s" "\<not> isConnected s" "c_check (l_try l (retryConnectCount s)) = Success"
    "retryConnectCount s = RetryConnectCount"
  obtains s' where "dns_prepare x y l d s = Some (Inl (- ConnectFailed, s'))" "opened s' = opened s"
    "map ev_type (told s') = map ev_type (told s) @ [TaskFailed, Close]" "workStatus s' = NodeClosed"
proof -
  have p: "plain (s\<lparr>retryConnectCount := 0\<rparr>)" "told (s\<lparr>retryConnectCount := 0\<rparr>) = told s"
    using assms(1) by (simp_all add: plain_update told_def)
  show ?thesis
    using that [of "handlerTaskFailedEvent x ''connect failed.'' SysConnectFailed (s\<lparr>retryConnectCount := 0\<rparr>)"]
      failed_tells [OF p(1), of x "''connect failed.''" SysConnectFailed] assms p(2)
    by (simp add: dns_prepare_def checkConnectCount_def plain_def opened_failed opened_update)
qed

section \<open>Giving up\<close>

lemma destroy_keeps:
  "told (destroyConnectNode check s) = told s" "workStatus (destroyConnectNode check s) = workStatus s"
  by (simp_all add: destroyConnectNode_def told_emit) (simp_all add: told_def emit_def)

lemma direct_attempts:
  assumes "\<And>k. refuses (l_try l k)" "direct_to d u s" "\<not> isConnected s" "retryConnectCount s \<le> RetryConnectCount"
  shows "\<exists>ret s'. dnsProcess x y l d s = Some (ret, s') \<and>
    map ev_type (told s') = map ev_type (told s) @ [TaskFailed, Close] \<and> workStatus s' = NodeClosed \<and>
    opened s' = opened s @ replicate (RetryConnectCount - retryConnectCount s) d"
  using assms(2-)
proof (induction "RetryConnectCount - retryConnectCount s" arbitrary: s)
  case 0
  then have "retryConnectCount s = RetryConnectCount" by simp
  with 0 assms(1) obtain s' where "dns_prepare x y l d s = Some (Inl (- ConnectFailed, s'))" "opened s' = opened s"
    "map ev_type (told s') = map ev_type (told s) @ [TaskFailed, Close]" "workStatus s' = NodeClosed"
    using last_prepare [of s l x y d] by (auto simp: direct_to_def refuses_def)
  then show ?case using 0 by (simp add: dnsProcess.simps [of x y l d s])
next
  case (Suc n)
  have c: "c_check (l_try l k) = Success" for k using assms(1) by (simp add: refuses_def)
  obtain s1 where 1: "dns_prepare x y l d s = Some (Inr (d, s1))" "direct_to d u s1" "told s1 = told s"
    "opened s1 = opened s" "\<not> isConnected s1" "retryConnectCount s1 = Suc (retryConnectCount s)" "nparam s1 = nparam s"
  proof (rule direct_prepare [of d u s l x y])
    show "retryConnectCount s < RetryConnectCount" using Suc.hyps(2) by linarith
  qed (use Suc.prems c in simp_all)
  have p1: "plain s1" using 1(2) by (simp add: direct_to_def)
  obtain s2 where 2: "attempt x y l (l_try l (retryConnectCount s1)) d s1 = Some (Inr s2)" "plain s2" "told s2 = told s1"
    "opened s2 = opened s1 @ [d]" "nparam s2 = nparam s1" "retryConnectCount s2 = retryConnectCount s1" "\<not> isConnected s2"
    by (rule refused_attempt [OF p1 assms(1)])
  have n: "n = RetryConnectCount - retryConnectCount s2" "retryConnectCount s2 \<le> RetryConnectCount"
    using 1(6) 2(6) Suc.hyps(2) by linarith+
  have "direct_to d u s2" using 1(2) 2 by (simp add: direct_to_def)
  then obtain ret s3 where 3: "dnsProcess x y l d s2 = Some (ret, s3)"
    "map ev_type (told s3) = map ev_type (told s2) @ [TaskFailed, Close]" "workStatus s3 = NodeClosed"
    "opened s3 = opened s2 @ replicate (RetryConnectCount - retryConnectCount s2) d"
    using Suc.hyps(1) [OF n(1) _ 2(7) n(2)] by blast
  have r: "replicate (RetryConnectCount - retryConnectCount s) d = d # replicate (RetryConnectCount - retryConnectCount s2) d"
    using 1 2 Suc.hyps(2) by (simp flip: replicate_Suc)
  show ?case
    using 1 2 3 r by (simp add: dnsProcess.simps [of x y l d s] destroy_keeps opened_destroy)
qed


text \<open>A node whose address is cached, and a peer that refuses.\<close>

definition ex_refused :: sys where
  "ex_refused = \<lparr>c_check = Success, c_socket = 7, c_setsockopt = True, c_nonblocking = True,
     c_event_new = (\<lambda>_. True), c_pton = True, c_connect = Refused, c_ssl = 0\<rparr>"

definition ex_link :: link where
  "ex_link = \<lparr>l_sysGetAddr = False, l_cache = (\<lambda>_. ''1.2.3.4''), l_resolve = Success, l_try = (\<lambda>_. ex_refused),
     l_gateway = \<lparr>g_header = [], g_sdkInfo = [], g_version = [], g_os = [], g_arch = []\<rparr>\<rparr>"

lemma store_arg_keeps:
  "store_arg f a url = Some u \<Longrightarrow> url_directIp u = url_directIp url \<and> url_address u = url_address url"
  by (cases "(f, a, url)" rule: store_arg.cases) (auto split: if_splits)

lemma store_args_keeps:
  "store_args fs as url = Some u \<Longrightarrow> url_directIp u = url_directIp url \<and> url_address u = url_address url"
  by (induction fs as url rule: store_args.induct) (auto split: bind_splits dest!: store_arg_keeps)

lemma scan_url_keeps:
  "scan_url fmt fs a url = Some (n, u) \<Longrightarrow> url_directIp u = url_directIp url \<and> url_address u = url_address url"
  by (auto simp: scan_url_def split: bind_splits dest!: store_args_keeps)

lemma parseUrlAddress_keeps:
  "parseUrlAddress url a = Some (ret, u) \<Longrightarrow> url_directIp u = url_directIp url \<and> url_address u = url_address url"
  by (auto simp: parseUrlAddress_def default_port_def Let_def split: bind_splits if_splits dest!: scan_url_keeps)

lemma ex_parse:
  assumes "url = empty_url \<or> url = empty_url\<lparr>url_address := ''1.2.3.4'', url_directIp := True\<rparr>"
  obtains u where "parseUrlAddress url (p_url (p_conn ex_param)) = Some (Success, u)"
    "url_directIp u = url_directIp url" "url_address u = url_address url"
proof -
  have p: "p_url (p_conn ex_param) = ''wss://nls-gateway.cn-shanghai.aliyuncs.com/ws/v1''"
    by (simp add: ex_param_def new_INlsRequestParam_def)
  have "map_option fst (parseUrlAddress empty_url ''wss://nls-gateway.cn-shanghai.aliyuncs.com/ws/v1'') = Some Success"
    "map_option fst (parseUrlAddress (empty_url\<lparr>url_address := ''1.2.3.4'', url_directIp := True\<rparr>)
      ''wss://nls-gateway.cn-shanghai.aliyuncs.com/ws/v1'') = Some Success"
    by code_simp+
  then obtain u where "parseUrlAddress url (p_url (p_conn ex_param)) = Some (Success, u)"
    using assms p by auto
  with parseUrlAddress_keeps [OF this] show ?thesis using that by blast
qed

lemma ex_direct:
  obtains u where "url_directIp u" "url_address u = ''1.2.3.4''"
    "\<And>t. hasRequest t \<Longrightarrow> nparam t = ex_param \<Longrightarrow> parseUrlInformation ''1.2.3.4'' t = Some (True, t\<lparr>nurl := u\<rparr>)"
proof -
  let ?d = "empty_url\<lparr>url_address := ''1.2.3.4'', url_directIp := True\<rparr>"
  obtain u where u: "parseUrlAddress ?d (p_url (p_conn ex_param)) = Some (Success, u)" "url_directIp u" "url_address u = ''1.2.3.4''"
    by (rule ex_parse [of ?d]) simp_all
  have d: "scan_direct ''1.2.3.4'' empty_url = Some (True, ?d)" by code_simp
  have "p_token (p_text ex_param) = []" "p_apikey (p_text ex_param) = []"
    by (simp_all add: ex_param_def new_INlsRequestParam_def)
  then show ?thesis
    using u d by (intro that [of "u\<lparr>url_token := [], url_apikey := []\<rparr>"]) (simp_all add: parseUrlInformation_def)
qed


end
