(* ===== verification/NodeStreams.thy ===== *)
theory NodeStreams
  imports NodeMachine "HOL-Library.Sublist"
begin

text \<open>
  What a node sends, over its life. The \<open>stream\<close> of a channel is what has been sent on it and what
  waits in its buffer. No part of a step loses, repeats or reorders bytes of a channel: a stream
  only grows at its end. What does not hold is that the channels, which share one connection, keep
  to whole frames.
\<close>

section \<open>Streams\<close>

fun sent_on :: "channel \<Rightarrow> effect list \<Rightarrow> byte list" where
  "sent_on ch [] = []"
| "sent_on ch (Sent ch' bs # es) = (if ch' = ch then bs else []) @ sent_on ch es"
| "sent_on ch (_ # es) = sent_on ch es"

lemma sent_on_append [simp]: "sent_on ch (xs @ ys) = sent_on ch xs @ sent_on ch ys"
  by (induction ch xs rule: sent_on.induct) simp_all

definition stream :: "channel \<Rightarrow> Node \<Rightarrow> byte list" where
  "stream ch s = sent_on ch (effects s) @ buffer ch s"

definition grows :: "Node \<Rightarrow> Node \<Rightarrow> bool" where
  "grows s s' \<longleftrightarrow> (\<forall>ch. prefix (stream ch s) (stream ch s'))"

lemma grows_refl [simp, intro]: "grows s s"
  by (simp add: grows_def)

lemma grows_trans: "grows s s' \<Longrightarrow> grows s' s'' \<Longrightarrow> grows s s''"
  unfolding grows_def using prefix_order.trans by blast

lemma grows_eq: "(\<And>ch. stream ch s' = stream ch s) \<Longrightarrow> grows s s'"
  by (simp add: grows_def)

named_theorems keeps_stream "functions that neither queue nor send"

lemma stream_emit: "sent_on ch es = [] \<Longrightarrow> stream ch (emit es s) = stream ch s"
  by (cases ch) (simp_all add: stream_def emit_def)

lemma stream_emits [keeps_stream]:
  "stream ch (emit [Callback ev] s) = stream ch s" "stream ch (emit [FinishSignal] s) = stream ch s"
  "stream ch (emit [MarkAbnormal] s) = stream ch s" "stream ch (emit [StorePrestarted b] s) = stream ch s"
  "stream ch (emit [PromotePrestarted] s) = stream ch s" "stream ch (emit [SocketOpen fd ip] s) = stream ch s"
  "stream ch (emit [SocketClose fd] s) = stream ch s" "stream ch (emit [UpdateStatus n] s) = stream ch s"
  "stream ch (emit [DeleteRequest] s) = stream ch s" "stream ch (emit [Launch] s) = stream ch s"
  "stream ch (emit [StartWithPool] s) = stream ch s" "stream ch (emit [Reconnect] s) = stream ch s"
  "stream ch (emit [SingleRoundText] s) = stream ch s" "stream ch (emit [SslClose, SocketClose fd] s) = stream ch s"
  by (simp_all add: stream_emit)

lemma stream_update [keeps_stream]:
  "stream ch (s\<lparr>workStatus := a1\<rparr>) = stream ch s" "stream ch (s\<lparr>exitStatus := a2\<rparr>) = stream ch s"
  "stream ch (s\<lparr>isStop := a3\<rparr>) = stream ch s" "stream ch (s\<lparr>isDestroy := a3\<rparr>) = stream ch s"
  "stream ch (s\<lparr>isWakeStop := a3\<rparr>) = stream ch s" "stream ch (s\<lparr>isFirstBinaryFrame := a3\<rparr>) = stream ch s"
  "stream ch (s\<lparr>isConnected := a3\<rparr>) = stream ch s" "stream ch (s\<lparr>isLongConnection := a3\<rparr>) = stream ch s"
  "stream ch (s\<lparr>usePreconnection := a3\<rparr>) = stream ch s" "stream ch (s\<lparr>isPreconnecting := a3\<rparr>) = stream ch s"
  "stream ch (s\<lparr>isSendSingleRoundText := a3\<rparr>) = stream ch s" "stream ch (s\<lparr>syncCallTimeoutMs := a4\<rparr>) = stream ch s"
  "stream ch (s\<lparr>nodeErrCode := a5\<rparr>) = stream ch s" "stream ch (s\<lparr>nodeErrMsg := a6\<rparr>) = stream ch s"
  "stream ch (s\<lparr>retryConnectCount := a4\<rparr>) = stream ch s" "stream ch (s\<lparr>socketFd := a5\<rparr>) = stream ch s"
  "stream ch (s\<lparr>ownSsl := a3\<rparr>) = stream ch s" "stream ch (s\<lparr>nurl := a7\<rparr>) = stream ch s"
  "stream ch (s\<lparr>dnsEvent := a3\<rparr>) = stream ch s" "stream ch (s\<lparr>readEvent := a3\<rparr>) = stream ch s"
  "stream ch (s\<lparr>writeEvent := a3\<rparr>) = stream ch s" "stream ch (s\<lparr>connectEvent := a3\<rparr>) = stream ch s"
  "stream ch (s\<lparr>launchEvent := a3\<rparr>) = stream ch s" "stream ch (s\<lparr>startWithPoolEvent := a3\<rparr>) = stream ch s"
  "stream ch (s\<lparr>connectTimerEvent := a3\<rparr>) = stream ch s" "stream ch (s\<lparr>connectTimerFlag := a3\<rparr>) = stream ch s"
  "stream ch (s\<lparr>rc_state := a8\<rparr>) = stream ch s" "stream ch (s\<lparr>reconnected_count := a9\<rparr>) = stream ch s"
  "stream ch (s\<lparr>tw_index_offset := a10\<rparr>) = stream ch s" "stream ch (s\<lparr>connect_type := a11\<rparr>) = stream ch s"
  "stream ch (s\<lparr>hasRequest := a3\<rparr>) = stream ch s" "stream ch (s\<lparr>nodeOnMessage := a3\<rparr>) = stream ch s"
  "stream ch (s\<lparr>nparam := a12\<rparr>) = stream ch s"
  "stream ch (s\<lparr>limitSize := a4\<rparr>) = stream ch s" "stream ch (s\<lparr>nlsEncoder := a3\<rparr>) = stream ch s"
  "stream ch (s\<lparr>encoderType := a13\<rparr>) = stream ch s" "stream ch (s\<lparr>audioFrame := a14\<rparr>) = stream ch s"
  "stream ch (s\<lparr>isFirstAudioFrame := a3\<rparr>) = stream ch s"
  by (cases ch; simp add: stream_def)+

lemma stream_closing [keeps_stream]:
  "stream ch (drop_audio s) = stream ch s" "stream ch (close_socket s) = stream ch s"
  "stream ch (free_events s) = stream ch s" "stream ch (disconnectProcess x s) = stream ch s"
  "stream ch (closeNode x s) = stream ch s" "stream ch (closeStatusConnectNode s) = stream ch s"
  "stream ch (closeStatusConnectNodeForConnectedPool x s) = stream ch s"
  by (simp_all add: drop_audio_def close_socket_def free_events_def disconnectProcess_def closeNode_def
      closeStatusConnectNode_def closeStatusConnectNodeForConnectedPool_def keeps_stream Let_def)

lemma stream_signal [keeps_stream]: "stream ch (sendFinishCondSignal ty s) = stream ch s"
  by (simp add: sendFinishCondSignal_def keeps_stream)

lemma stream_tell_user [keeps_stream]: "stream ch (tell_user ig ev s) = stream ch s"
  by (simp add: tell_user_def handlerMessage_def keeps_stream Let_def)

lemma stream_ignore: "ignoreCallbackWhenReconnecting ty code s = (ig, v) \<Longrightarrow> stream ch v = stream ch s"
  by (auto simp: ignoreCallbackWhenReconnecting_def keeps_stream Let_def split: if_splits)

lemma stream_handlerFrame [keeps_stream]: "stream ch (snd (handlerFrame x ev s)) = stream ch s"
proof -
  obtain ig v where ig: "ignoreCallbackWhenReconnecting (ev_type ev) (ev_status ev) (updateTwIndexOffset ev s) = (ig, v)"
    by force
  have "stream ch v = stream ch s"
    using stream_ignore [OF ig, of ch] by (simp add: updateTwIndexOffset_def keeps_stream)
  then show ?thesis
    by (simp add: handlerFrame_def ig nodeReconnecting_def keeps_stream Let_def)
qed

lemma stream_handlerEvent [keeps_stream]: "stream ch (handlerEvent x msg code ty s) = stream ch s"
  by (simp add: handlerEvent_def keeps_stream Let_def)

lemma stream_failed [keeps_stream]: "stream ch (handlerTaskFailedEvent x info code s) = stream ch s"
  by (simp add: handlerTaskFailedEvent_def keeps_stream split_beta Let_def)

lemma stream_update_status [keeps_stream]: "stream ch (update_status st s) = stream ch s"
  by (simp add: update_status_def keeps_stream)

lemma stream_destroy [keeps_stream]: "stream ch (destroyConnectNode check s) = stream ch s"
  by (simp add: destroyConnectNode_def keeps_stream)

lemma stream_connecting [keeps_stream]:
  "stream ch (snd (socketConnect c s)) = stream ch s" "stream ch (snd (connectProcess c ip s)) = stream ch s"
  "stream ch (snd (sslProcess x c s)) = stream ch s"
  by (simp_all add: socketConnect_def connectProcess_def sslProcess_def keeps_stream Let_def split: connect_result.split)

section \<open>Sending\<close>

lemma nlsSendFrame_whole: "nlsSendFrame w we buf = (ret, rest, got) \<Longrightarrow> buf = got @ rest"
  by (auto simp: nlsSendFrame_def Let_def split: if_splits)

lemma buffer_set_buffer: "buffer c (set_buffer ch bs s) = (if c = ch then bs else buffer c s)"
  by (cases ch; cases c; simp)

lemma buffer_update:
  "buffer c (s\<lparr>isFirstBinaryFrame := b\<rparr>) = buffer c s" "buffer c (s\<lparr>nodeErrMsg := t\<rparr>) = buffer c s"
  "buffer c (emit es s) = buffer c s"
  by (cases c; simp add: emit_def)+

lemma stream_sendBuffer [keeps_stream]: "stream ch' (snd (sendBuffer x ch af s)) = stream ch' s"
proof -
  obtain ret rest got where r: "nlsSendFrame (x_write x) (writeEvent s) (buffer ch s) = (ret, rest, got)"
    by (metis prod_cases3)
  have b: "buffer ch s = got @ rest" by (rule nlsSendFrame_whole [OF r])
  define u where "u = (let s = (if af \<and> buffer ch s \<noteq> [] \<and> ret \<noteq> - NlsSendFailed
              then s\<lparr>isFirstBinaryFrame := False\<rparr> else s)
         in if ret = - NlsSendFailed then s\<lparr>nodeErrMsg := x_errorText x\<rparr> else s)"
  have u: "effects u = effects s" "buffer c u = buffer c s" for c
    by (simp_all add: u_def buffer_update Let_def)
  have e: "snd (sendBuffer x ch af s) = (let s = set_buffer ch rest u in if got = [] then s else emit [Sent ch got] s)"
    unfolding sendBuffer_def r u_def Let_def split by (simp only: snd_conv)
  have "stream ch' (if got = [] then set_buffer ch rest u else emit [Sent ch got] (set_buffer ch rest u)) =
      sent_on ch' (effects s) @ (if ch' = ch then got @ rest else buffer ch' s)"
    using u by (simp add: stream_def buffer_set_buffer buffer_update) (simp add: emit_def)
  then show ?thesis using b unfolding e Let_def by (simp add: stream_def)
qed

lemma grows_set_buffer: "buffer ch s = old \<Longrightarrow> grows s (set_buffer ch (old @ new) s)"
  unfolding grows_def
proof
  fix c assume "buffer ch s = old"
  then show "prefix (stream c s) (stream c (set_buffer ch (old @ new) s))"
    by (cases ch; cases c) (simp_all add: stream_def)
qed

section \<open>Queueing\<close>

text \<open>What a command adds to its channel.\<close>

definition command_bytes :: "feed \<Rightarrow> CmdType \<Rightarrow> string \<Rightarrow> Node \<Rightarrow> byte list" where
  "command_bytes y ty message s =
    (if \<not> hasRequest s then []
     else if ty = CmdSendPing then pingBytes y
     else case fst (command_text y ty message s) of None \<Rightarrow> [] | Some cmd \<Rightarrow> textBytes y (c_string cmd))"

lemma stream_cmd: "stream ch (s\<lparr>cmdEvBuffer := cmdEvBuffer s @ bs\<rparr>) = stream ch s @ (if ch = CmdChannel then bs else [])"
  by (cases ch) (simp_all add: stream_def)

lemma stream_addCmd:
  "stream ch (addCmdDataBuffer y ty message s) =
    stream ch s @ (if ch = CmdChannel then command_bytes y ty message s else [])"
proof -
  obtain cmd p where c: "command_text y ty message s = (cmd, p)" by force
  have b: "stream c (s\<lparr>nparam := p, cmdEvBuffer := cmdEvBuffer s @ bs\<rparr>) = stream c s @ (if c = CmdChannel then bs else [])"
    "stream c (s\<lparr>nparam := p, rc_state := r, cmdEvBuffer := cmdEvBuffer s @ bs\<rparr>) =
      stream c s @ (if c = CmdChannel then bs else [])" for c r bs p
    using stream_cmd [of c "s\<lparr>nparam := p\<rparr>" bs] stream_cmd [of c "s\<lparr>nparam := p, rc_state := r\<rparr>" bs]
    by (simp_all add: keeps_stream)
  show ?thesis
    by (auto simp: addCmdDataBuffer_def command_bytes_def c stream_cmd b keeps_stream Let_def split: option.split)
qed

named_theorems grows_intros "parts of a step that only queue"

lemma grows_addCmd [grows_intros]: "grows s (addCmdDataBuffer y ty message s)"
  by (simp add: grows_def stream_addCmd)

lemma grows_iff: "(\<And>ch. stream ch v = stream ch u) \<Longrightarrow> grows s v = grows s u"
  by (simp add: grows_def)

lemma grows_sent [grows_intros]: "grows s (snd (sendBuffer x ch af s))"
  by (rule grows_eq) (rule keeps_stream)

lemma grows_failed: "grows s (handlerTaskFailedEvent x info code u) = grows s u"
  by (rule grows_iff) (rule keeps_stream)

lemma grows_disconnect: "grows s (disconnectProcess x u) = grows s u"
  by (rule grows_iff) (rule keeps_stream)

lemma grows_close: "grows s (closeNode x u) = grows s u"
  by (rule grows_iff) (rule keeps_stream)

lemma grows_destroy: "grows s (destroyConnectNode check u) = grows s u"
  by (rule grows_iff) (rule keeps_stream)

lemma grows_event: "grows s (handlerEvent x m c ty u) = grows s u"
  by (rule grows_iff) (rule keeps_stream)

lemmas grows_neutral = grows_failed grows_disconnect grows_close grows_destroy grows_event

lemma grows_update:
  "grows s (u\<lparr>isStop := b\<rparr>) = grows s u" "grows s (u\<lparr>exitStatus := e\<rparr>) = grows s u"
  "grows s (u\<lparr>isFirstAudioFrame := b\<rparr>) = grows s u" "grows s (u\<lparr>audioFrame := af\<rparr>) = grows s u"
  "grows s (u\<lparr>isSendSingleRoundText := b\<rparr>) = grows s u" "grows s (u\<lparr>nparam := p\<rparr>) = grows s u"
  "grows s (u\<lparr>workStatus := w\<rparr>) = grows s u" "grows s (u\<lparr>isWakeStop := b\<rparr>) = grows s u"
  "grows s (u\<lparr>nurl := ur\<rparr>) = grows s u" "grows s (u\<lparr>connect_type := ct\<rparr>) = grows s u"
  "grows s (u\<lparr>nodeErrCode := c\<rparr>) = grows s u" "grows s (u\<lparr>isConnected := b\<rparr>) = grows s u"
  by (rule grows_iff; simp add: keeps_stream)+

lemma grows_control [grows_intros]: "grows s (snd (sendControlDirective x y s))"
  by (auto simp: sendControlDirective_def grows_update Let_def split_beta
      intro: grows_sent grows_trans [OF grows_addCmd grows_sent])

lemma grows_push [grows_intros]: "grows s (snd (push_audio x y ch e s))"
  by (auto simp: push_audio_def Let_def split_beta
      intro: grows_sent grows_control grows_trans [OF grows_sent grows_control])

lemma grows_audio [grows_intros]: "grows s (snd (addAudioDataBuffer x y frame s))"
proof -
  have "grows s (snd (push_audio x y ch e (set_buffer ch (buffer ch s @ t) s)))" for ch e t
    by (rule grows_trans [OF grows_set_buffer [OF refl] grows_push])
  then show ?thesis
    by (simp add: addAudioDataBuffer_def grows_neutral grows_update Let_def split_beta)
qed

lemma grows_slice_done [grows_intros]: "grows s (snd (slice_done x y chunk s))"
  using grows_audio [of s x y chunk] by (simp add: slice_done_def grows_update split_beta)

lemma grows_slice_loop [grows_intros]: "grows s (snd (slice_loop x y m filling buf frame s))"
proof (induction x y m filling buf frame s rule: slice_loop.induct)
  case (1 x y m filling buf frame s)
  obtain r s1 where d: "slice_done x y (buf @ take (m - length buf) frame) s = (r, s1)" by force
  then have "grows s s1" using grows_slice_done by (metis snd_conv)
  then show ?case
    using 1 d by (subst slice_loop.simps) (auto simp: Let_def grows_update intro: grows_trans)
qed

lemma grows_sliced [grows_intros]: "grows s (snd (addSlicedAudioDataBuffer x y frame s))"
proof -
  have "grows s (snd (slice_loop x y m f b fr (s\<lparr>audioFrame := af\<rparr>)))" for m f b fr af
    by (rule grows_trans [OF _ grows_slice_loop]) (simp add: grows_update)
  then show ?thesis
    by (simp add: addSlicedAudioDataBuffer_def grows_audio Let_def)
qed

lemma grows_remain [grows_intros]: "grows s (snd (addRemainAudioData x y s))"
  using grows_audio [of s x y]
  by (auto simp: addRemainAudioData_def grows_update split_beta split: option.split)

lemma grows_notify_stop [grows_intros]: "grows s (snd (notify_stop x y s))"
proof -
  have "grows s (snd (sendControlDirective x y ((snd (addRemainAudioData x y s))\<lparr>exitStatus := ExitStopping\<rparr>)))"
    by (rule grows_trans [OF _ grows_control]) (simp add: grows_update grows_remain)
  then show ?thesis
    by (simp add: notify_stop_def grows_update grows_remain split_beta Let_def)
qed

lemma grows_cmdNotify [grows_intros]: "grows s (snd (cmdNotify x y ty message s))"
proof -
  have w: "grows s (snd (sendBuffer x CmdChannel False (addCmdDataBuffer y CmdWarkWord [] (s\<lparr>isWakeStop := True\<rparr>))))"
    by (rule grows_trans [OF _ grows_trans [OF grows_addCmd grows_sent]]) (simp add: grows_update)
  show ?thesis
    using w by (cases ty) (auto simp: cmdNotify_def grows_neutral grows_update Let_def split_beta
      intro: grows_notify_stop grows_addCmd grows_trans [OF grows_addCmd grows_sent])
qed

section \<open>Requests and frames\<close>

lemma stream_gateway:
  assumes "gatewayRequest g s = Some (ret, s')"
  obtains bs where "\<And>ch. stream ch s' = stream ch s @ (if ch = CmdChannel then bs else [])"
proof -
  have "\<exists>bs. \<forall>ch. stream ch s' = stream ch s @ (if ch = CmdChannel then bs else [])"
    using assms stream_cmd [of _ s] by (auto simp: gatewayRequest_def Let_def split: if_splits prod.splits)
  then show ?thesis using that by blast
qed

lemma grows_request_step: "request_step x y g s = Some r \<Longrightarrow> grows s (snd r)"
proof (cases "workStatus s")
  case NodeHandshaking
  assume "request_step x y g s = Some r"
  then obtain r1 s1 where g: "gatewayRequest g s = Some (r1, s1)"
    "snd r = (snd (sendBuffer x CmdChannel False s1))\<lparr>workStatus := NodeHandshaked\<rparr>"
    using NodeHandshaking by (auto simp: request_step_def split: bind_splits prod.splits)
  have "grows s s1" by (rule stream_gateway [OF g(1)]) (simp add: grows_def)
  then show ?thesis using g(2) by (simp add: grows_update grows_trans [OF _ grows_sent])
qed (auto simp: request_step_def Let_def split_beta split: if_splits
    intro: grows_sent grows_trans [OF grows_sent grows_trans [OF grows_addCmd grows_sent]]
      grows_trans [OF grows_sent grows_control])

lemma grows_request: "nodeRequestProcess x y g check s = Some (ret, s') \<Longrightarrow> grows s s'"
  by (auto simp: nodeRequestProcess_def grows_neutral split: if_splits bind_splits dest!: grows_request_step)

lemma stream_convertResult: "convertResult x fr s = (ev, r, s') \<Longrightarrow> stream ch s' = stream ch s"
  using convertResult_shape [of x fr s ev r s'] by (auto simp: keeps_stream)

lemma stream_after [keeps_stream]:
  "stream ch (start_working x s) = stream ch s" "stream ch (snd (snd (after_callback x ty s))) = stream ch s"
  by (auto simp: start_working_def after_callback_def keeps_stream Let_def)

lemma stream_finish [keeps_stream]: "stream ch (finish_request x ig s) = stream ch s"
  by (simp add: finish_request_def store_in_pool_def keeps_stream Let_def)

lemma stream_parse_event [keeps_stream]: "stream ch (snd (parse_event x ev r s)) = stream ch s"
  by (auto simp: parse_event_def setTaskId_def keeps_stream Let_def split_beta split: option.split)

lemma stream_parseFrame [keeps_stream]: "stream ch (snd (parseFrame x fr s)) = stream ch s"
proof -
  obtain ev r s' where c: "convertResult x fr s = (ev, r, s')" by (metis prod_cases3)
  show ?thesis
    using stream_convertResult [OF c, of ch] by (simp add: parseFrame_def c keeps_stream)
qed

lemma stream_parse_frames: "stream ch (snd (parse_frames x frs s)) = stream ch s"
proof (induction x frs s rule: parse_frames.induct)
  case (2 x fr frs s)
  obtain r t where p: "parseFrame (x 0) fr s = (r, t)" by force
  then have "stream ch t = stream ch s" using stream_parseFrame [of ch "x 0" fr s] by simp
  then show ?case using 2 [of "(r, t)" r t] p by simp
qed simp

lemma stream_websocket [keeps_stream]: "stream ch (snd (websocket_step i s)) = stream ch s"
  by (simp add: websocket_step_def stream_parse_frames split_beta Let_def)

lemma stream_fake [keeps_stream]: "stream ch (sendFakeSynthesisStarted x m s) = stream ch s"
  by (simp add: sendFakeSynthesisStarted_def keeps_stream)

lemma grows_websocket: "grows s (snd (websocket_step i s))"
  by (rule grows_eq) (rule keeps_stream)

lemma grows_response_step: "grows s (fst (snd (response_step x y i s)))"
proof -
  have f: "grows s (sendFakeSynthesisStarted x m u) = grows s u" for m u
    by (rule grows_iff) (rule keeps_stream)
  have c: "grows s (snd (sendBuffer x CmdChannel False (addCmdDataBuffer y t [] (s\<lparr>workStatus := NodeStarting\<rparr>))))" for t
    by (rule grows_trans [OF _ grows_trans [OF grows_addCmd grows_sent]]) (simp add: grows_update)
  show ?thesis
    using c grows_websocket grows_trans [OF grows_websocket grows_sent]
      grows_trans [OF grows_websocket grows_trans [OF grows_sent grows_control]]
    by (simp add: response_step_def f grows_update Let_def split_beta)
qed

lemma grows_response: "grows s (snd (nodeResponseProcess x y i s))"
  using grows_response_step [of s x y i]
  by (simp add: nodeResponseProcess_def grows_neutral Let_def split_beta)

section \<open>Connecting\<close>

lemma grows_attempt:
  assumes "attempt x y l c ip s = Some r"
  shows "grows s (case r of Inl t \<Rightarrow> t | Inr t \<Rightarrow> t)"
proof -
  obtain r1 s1 where 1: "connectProcess c ip s = (r1, s1)" by force
  obtain r2 s2 where 2: "(if r1 = 0 then sslProcess x c s1 else (r1, s1)) = (r2, s2)" by force
  have "stream ch s1 = stream ch s" for ch using stream_connecting(2) [of ch c ip s] 1 by simp
  moreover have "stream ch s2 = stream ch s1" for ch
    using stream_connecting(3) [of ch x c s1] 2 by (auto split: if_splits)
  ultimately have "grows s s2" by (simp add: grows_eq)
  then show ?thesis
    using assms 1 2
    by (auto simp: attempt_def grows_update grows_neutral split: if_splits bind_splits dest!: grows_request intro: grows_trans)
qed

lemma stream_parseUrl: "parseUrlInformation d s = Some (ok, s') \<Longrightarrow> stream ch s' = stream ch s"
  by (auto simp: parseUrlInformation_def keeps_stream Let_def split: if_splits bind_splits)

lemma grows_restart_long: "grows s (snd (restart_long x y s))"
proof -
  define u where "u = update_status NodeStatusRunning (s\<lparr>connect_type := ConnectWithLongConnect, workStatus := NodeStarting\<rparr>)"
  have "stream ch u = stream ch s" for ch by (simp add: u_def keeps_stream)
  then have "grows s u" by (simp add: grows_eq)
  then have "grows s (snd (sendBuffer x CmdChannel False (addCmdDataBuffer y t [] u)))" for t
    by (rule grows_trans [OF _ grows_trans [OF grows_addCmd grows_sent]])
  then show ?thesis
    by (simp add: restart_long_def u_def [symmetric] grows_neutral Let_def split_beta)
qed

lemma grows_dns_prepare:
  assumes "dns_prepare x y l d s = Some r"
  shows "grows s (case r of Inl p \<Rightarrow> snd p | Inr p \<Rightarrow> snd p)"
proof -
  obtain ok u where u: "checkConnectCount s = (ok, u)" by force
  have u': "stream ch u = stream ch s" for ch
    using u by (auto simp: checkConnectCount_def keeps_stream split: if_splits)
  then have g: "grows s u" by (simp add: grows_eq)
  define v where "v = update_status NodeStatusConnecting (u\<lparr>workStatus := NodeConnecting\<rparr>)"
  have v: "stream ch v = stream ch s" for ch using u' by (simp add: v_def keeps_stream)
  have "grows s w" if "parseUrlInformation d v = Some (ok, w)" for ok w
    using stream_parseUrl [OF that] v by (intro grows_eq) simp
  then show ?thesis
    using assms u g grows_restart_long [of s x y]
    by (auto simp: dns_prepare_def v_def [symmetric] grows_update grows_neutral Let_def split: if_splits bind_splits)
qed

lemma grows_dnsProcess: "dnsProcess x y l d s = Some (ret, s') \<Longrightarrow> grows s s'"
proof (induction x y l d s arbitrary: ret s' rule: dnsProcess.induct)
  case (1 x y l d s)
  note eq = 1(2) [unfolded dnsProcess.simps [of x y l d s] Let_def]
  show ?case
  proof (cases "dns_prepare x y l d s")
    case (Some r)
    note p = grows_dns_prepare [OF Some]
    show ?thesis
    proof (cases r)
      case (Inl a)
      then show ?thesis using eq Some p by simp
    next
      case (Inr b)
      obtain ip s1 where b: "b = (ip, s1)" by force
      have s1: "grows s s1" using p Inr b by simp
      obtain q where q: "attempt x y l (l_try l (retryConnectCount s1)) ip s1 = Some q"
        using eq Some Inr b by (auto split: option.splits)
      note a = grows_attempt [OF q]
      show ?thesis
      proof (cases q)
        case (Inl s2)
        then show ?thesis using eq Some \<open>r = Inr b\<close> b q a s1 by (auto intro: grows_trans)
      next
        case q2: (Inr s2)
        obtain r3 s3 where d: "dnsProcess x y l ip s2 = Some (r3, s3)"
          using eq Some Inr b q q2 by (auto split: option.splits)
        have "grows s2 s3" using 1(1) [OF Some Inr b [symmetric] refl q q2 d] .
        then have "grows s s3" using a q2 s1 by (auto intro: grows_trans)
        then show ?thesis using eq Some Inr b q q2 d by (auto simp: grows_neutral)
      qed
    qed
  qed (use eq in simp)
qed

lemma grows_dns:
  "dnsProcess x y l d u = Some (ret, v) \<Longrightarrow> grows s u \<Longrightarrow> grows s v"
  using grows_dnsProcess grows_trans by blast

lemma grows_reconnect: "reconnect_step x y l d check s = Some s' \<Longrightarrow> grows s s'"
  by (auto simp: reconnect_step_def grows_neutral grows_update split: bind_splits dest!: grows_dns [where s = s])

lemma grows_handshake:
  assumes "handshake_step x y l c s = Some r"
  shows "grows s (case r of Inl t \<Rightarrow> t | Inr t \<Rightarrow> t)"
proof -
  obtain r1 s1 where 1: "sslProcess x c s = (r1, s1)" by force
  have "stream ch s1 = stream ch s" for ch using stream_connecting(3) [of ch x c s] 1 by simp
  then have "grows s s1" by (simp add: grows_eq)
  then show ?thesis
    using assms 1
    by (auto simp: handshake_step_def grows_neutral split: if_splits bind_splits dest!: grows_request intro: grows_trans)
qed

lemma grows_connectEvent:
  assumes "connectEventCallback timer x y l d c err what s = Some s'"
  shows "grows s s'"
proof (cases "what = EV_CLOSED \<or> (what = EV_TIMEOUT \<and> \<not> timer)")
  case True
  then show ?thesis using assms grows_reconnect by (simp add: connectEventCallback_def)
next
  case False
  obtain r1 s1 where 1: "socketConnect c s = (r1, s1)" by force
  define p where "p = (if workStatus s = NodeConnecting then
            (if err = 0 then (True, s\<lparr>workStatus := NodeConnected, isConnected := True\<rparr>) else (0 \<le> r1, s1))
          else (True, s))"
  obtain ok u where u: "p = (ok, u)" by force
  have "stream ch u = stream ch s" for ch
    using stream_connecting(1) [of ch c s] 1 u by (auto simp: p_def keeps_stream split: if_splits)
  then have sp: "grows s u" by (simp add: grows_eq)
  have "connectEventCallback timer x y l d c err what s = (let (ok, u) = p in if \<not> ok then reconnect_step x y l d (c_check c) u
      else if workStatus u = NodeConnected then do {
        r \<leftarrow> handshake_step x y l c u;
        (case r of Inl s \<Rightarrow> Some s | Inr s \<Rightarrow> reconnect_step x y l d (c_check c) s) }
      else Some u)"
    unfolding connectEventCallback_def p_def 1 by (simp only: False if_False Let_def split)
  then show ?thesis
    using sp u assms by (auto split: if_splits bind_splits sum.splits dest!: grows_reconnect [OF sym]
        grows_handshake intro: grows_trans grows_trans [OF grows_trans])
qed

lemma grows_dnsEvent:
  assumes "dnsEventCallback x y l d c st ips s = Some s'"
  shows "grows s s'"
proof -
  have a: "grows s (case r of Inl t \<Rightarrow> t | Inr t \<Rightarrow> t)" if "attempt x y l c ip s = Some r" for ip r
    using grows_attempt [OF that] .
  show ?thesis
    using assms
    by (auto simp: dnsEventCallback_def grows_neutral grows_update
        split: if_splits option.splits list.splits bind_splits sum.splits
        dest!: a dest: grows_dns [where s = s])
qed

lemma grows_launch:
  assumes "launchEventCallback x y l d check s = Some s'"
  shows "grows s s'"
proof -
  define u where "u = updateParameters (s\<lparr>workStatus := NodeInvoked\<rparr>)"
  have "stream ch u = stream ch s" for ch by (cases ch) (simp_all add: u_def updateParameters_def stream_def)
  then have "grows s u" by (simp add: grows_eq)
  then show ?thesis
    using assms by (auto simp: launchEventCallback_def u_def [symmetric] grows_neutral grows_update
        split: if_splits bind_splits dest: grows_dns)
qed

section \<open>Callbacks and calls\<close>

lemma grows_callbacks:
  "grows s (readEventCallBack x y i w s)" "writeEventCallBack x y g check w s = Some s' \<Longrightarrow> grows s s'"
  "grows s (startWithPoolEventCallback x y check ev t s)" "grows s (singleRoundTextEventCallback x y check s)"
proof -
  show "grows s (readEventCallBack x y i w s)"
    using grows_response [of s x y i]
    by (simp add: readEventCallBack_def failed_event_def unknown_event_def grows_neutral split_beta Let_def)
  show "writeEventCallBack x y g check w s = Some s' \<Longrightarrow> grows s s'"
    by (auto simp: writeEventCallBack_def failed_event_def unknown_event_def grows_neutral
        split: if_splits bind_splits dest!: grows_request)
  have p: "grows s ((prestartProcess ev s)\<lparr>workStatus := NodeStarting\<rparr>)"
    by (rule grows_eq) (simp add: prestartProcess_def keeps_stream)
  have f: "grows s (sendFakeSynthesisStarted x m u) = grows s u" for m u
    by (rule grows_iff) (rule keeps_stream)
  show "grows s (startWithPoolEventCallback x y check ev t s)"
    using grows_trans [OF p grows_trans [OF grows_addCmd grows_sent]]
    by (simp add: startWithPoolEventCallback_def f Let_def split_beta)
  have "grows s (snd (cmdNotify x y CmdStop [] (snd (cmdNotify x y CmdSendText t s))))" for t
    by (rule grows_trans [OF grows_cmdNotify grows_cmdNotify])
  then show "grows s (singleRoundTextEventCallback x y check s)"
    by (simp add: singleRoundTextEventCallback_def grows_update Let_def split_beta)
qed

lemma grows_start:
  assumes "alone a"
  shows "grows s (snd (start a s))"
proof -
  have i: "stream ch (initAllStatus u) = stream ch u" for ch u
    by (cases ch) (simp_all add: initAllStatus_def stream_def emit_def)
  have l: "stream ch (snd (launch_request a u)) = stream ch u" for ch u
    by (simp add: launch_request_def keeps_stream Let_def)
  have e: "stream ch (initNlsEncoder m u) = stream ch u" for ch m u
    by (simp add: initNlsEncoder_def keeps_stream Let_def)
  have w: "stream ch (waitInvokeFinish a u) = stream ch u" for ch u
    using assms by (simp add: waitInvokeFinish_def alone_def keeps_stream Let_def)
  define u where "u = (if a_pool a then s\<lparr>usePreconnection := True, isLongConnection := False\<rparr>
             else s\<lparr>usePreconnection := False\<rparr>)"
  define v where "v = (if isLongConnection u then (if workStatus u = NodeClosed then initAllStatus u else u) else u)"
  define p where "p = launch_request a (v\<lparr>workStatus := NodeInvoking, syncCallTimeoutMs := a_sync a\<rparr>)"
  define t where "t = initNlsEncoder (a_encoder a) (snd p)"
  have v: "stream ch v = stream ch s" for ch by (simp add: v_def u_def i keeps_stream)
  then have t: "stream ch (snd p) = stream ch s" "stream ch t = stream ch s" "stream ch (waitInvokeFinish a t) = stream ch s" for ch
    by (simp_all add: p_def t_def e l w keeps_stream)
  have "a_other a = (\<lambda>_ s. s)" using assms by (simp add: alone_def)
  then have "start a s = (if \<not> a_client a then (- EventClientEmpty, s)
      else if workStatus v = NodeCreated \<and> exitStatus v = ExitInvalid then
        (if a_thread a < 0 then (- SelectThreadFailed, v\<lparr>workStatus := NodeInvoking, workStatus := NodeCreated\<rparr>)
         else if fst p \<noteq> Success then (fst p, snd p)
         else if 0 < syncCallTimeoutMs t then
           (if nodeErrCode (waitInvokeFinish a t) \<noteq> Success then (- nodeErrCode (waitInvokeFinish a t), waitInvokeFinish a t)
            else (Success, waitInvokeFinish a t))
         else (Success, t))
      else if exitStatus v = ExitInvalid \<and> NodeCreated < workStatus v \<and> workStatus v < NodeFailed then (Success, v)
      else (- InvokeStartFailed, v\<lparr>workStatus := NodeCreated\<rparr>))"
    unfolding start_def Let_def u_def [symmetric] by (simp only: await_alone v_def [symmetric] p_def [symmetric]
        t_def [symmetric] case_prod_beta)
  then have "snd (start a s) \<in> {s, v, v\<lparr>workStatus := NodeCreated\<rparr>, snd p, t, waitInvokeFinish a t}"
    by simp
  then show ?thesis
    using v t by (auto intro!: grows_eq simp: keeps_stream)
qed

lemma grows_calls:
  assumes "alone a"
  shows "grows s (snd (request_sendAudio x y a enc bytes s))" "grows s (snd (stop x y a s))"
    "grows s (snd (cancel x y a s))" "grows s (snd (send_command x y a ty m s))"
proof -
  have w: "grows s (waitInvokeFinish a u) = grows s u" for u
    using assms by (intro grows_iff) (simp add: waitInvokeFinish_def alone_def keeps_stream Let_def)
  show "grows s (snd (request_sendAudio x y a enc bytes s))"
    using assms by (simp add: request_sendAudio_def sendAudio_def await_started_def alone_def await_alone
        grows_sliced grows_audio split_beta Let_def)
  show "grows s (snd (stop x y a s))"
    using assms by (simp add: stop_def alone_def await_alone w grows_cmdNotify split_beta Let_def)
  show "grows s (snd (cancel x y a s))"
    using assms by (simp add: cancel_def alone_def await_alone grows_cmdNotify split_beta Let_def)
  show "grows s (snd (send_command x y a ty m s))"
    using assms by (simp add: send_command_def await_started_def alone_def await_alone grows_cmdNotify Let_def)
qed

lemma grows_stControl: "grows s (snd (stControl x y a m s))"
  by (simp add: stControl_def grows_cmdNotify)

lemma node_step_grows: "node_step s s' \<Longrightarrow> grows s s'"
  by (erule node_step.cases)
    (auto simp: sendText_def sendPing_def sendFlush_def
      grows_update intro: grows_callbacks grows_connectEvent grows_dnsEvent grows_launch grows_start grows_calls grows_stControl)

text \<open>C3: on each of its channels a node sends what was queued, in the order in which it was queued,
without loss and without repetition: in every run what has been sent and what waits only grows at
its end, whatever is received, however short the writes are and even when connections fail.\<close>

theorem streams_only_grow:
  "node_step\<^sup>*\<^sup>* s s' \<Longrightarrow> prefix (sent_on ch (effects s) @ buffer ch s) (sent_on ch (effects s') @ buffer ch s')"
proof (induction rule: rtranclp_induct)
  case (step t u)
  then show ?case
    using node_step_grows [of t u] unfolding grows_def stream_def by (blast intro: prefix_order.trans)
qed simp

text \<open>A node at work.\<close>

definition ex_started :: Node where
  "ex_started = ex_starting\<lparr>workStatus := NodeStarted\<rparr>"

theorem streams_only_grow_witness:
  "prefix (sent_on CmdChannel (effects ex_started) @ buffer CmdChannel ex_started)
    (sent_on CmdChannel (effects (snd (sendPing ex_outside ex_feed ex_api ex_started))) @
      buffer CmdChannel (snd (sendPing ex_outside ex_feed ex_api ex_started)))"
  by (rule streams_only_grow) (rule r_into_rtranclp, rule step_ping, simp add: alone_def ex_api_def)

end
