(* ===== verification/NodeSending.thy ===== *)
theory NodeSending
  imports NodeStreams NodeRetries
begin

text \<open>
  How what a node sends arrives: the order of audio and stop command, and the cases in which the
  bytes on the connection are not whole frames.
\<close>

section \<open>Frames\<close>

text \<open>All that has gone over the connection, whatever the channel.\<close>

fun on_wire :: "effect list \<Rightarrow> byte list" where
  "on_wire [] = []"
| "on_wire (Sent ch bs # es) = bs @ on_wire es"
| "on_wire (_ # es) = on_wire es"

lemma on_wire_append [simp]: "on_wire (xs @ ys) = on_wire xs @ on_wire ys"
  by (induction xs rule: on_wire.induct) simp_all

lemma await_stop: "\<not> P s \<Longrightarrow> await n P other s = s"
  by (cases n) simp_all

text \<open>C40: a PING, a flush or a text is sent at once, also in the middle of an audio frame: when a frame
of more than \<open>NodeFrameSize\<close> bytes has been sent in part and the client sends a PING, its bytes
follow the first part of the frame, and the server takes them for audio.\<close>

theorem ping_splits_audio_frame:
  assumes "a_client a" "hasRequest s" "can_command s" "\<not> encoding s" "\<not> enableWakeWord (p_conn (nparam s))" "\<not> isStop s"
    "writeEvent s" "binaryEvBuffer s = []" "cmdEvBuffer s = []" "0 < limitSize s" "frame \<noteq> []"
    "x_write x = (\<lambda>bs. int (length bs))" "NodeFrameSize < length (audioBytes y frame)"
  defines "s' \<equiv> snd (sendPing x y a (snd (sendAudio x y a False frame s)))"
  shows "on_wire (effects s') = on_wire (effects s) @ take NodeFrameSize (audioBytes y frame) @ take NodeFrameSize (pingBytes y) \<and>
    binaryEvBuffer s' = drop NodeFrameSize (audioBytes y frame)"
proof -
  let ?f = "audioBytes y frame"
  define s1 where "s1 = s\<lparr>binaryEvBuffer := ?f\<rparr>"
  define s2 where "s2 = emit [Sent AudioChannel (take NodeFrameSize ?f)] (s\<lparr>binaryEvBuffer := drop NodeFrameSize ?f\<rparr>)"
  have ne: "?f \<noteq> []" using assms(13) by auto
  have "nlsSendFrame (x_write x) (writeEvent s) ?f =
      (int (length ?f) - int NodeFrameSize, drop NodeFrameSize ?f, take NodeFrameSize ?f)"
    using assms(7,12,13) ne by (simp add: nlsSendFrame_def nlsSend_def Let_def)
  then have b: "sendBuffer x AudioChannel False s1 = (int (length ?f) - int NodeFrameSize, s2)"
    using assms(13) ne by (simp add: sendBuffer_def s1_def s2_def Let_def)
  have wk: "workStatus s = NodeStarted" "exitStatus s = ExitInvalid" using assms(3) by (simp_all add: can_command_def)
  have "push_audio x y AudioChannel True s1 = (int (length ?f) - int NodeFrameSize, s2)"
    using b assms(6,13) wk by (simp add: push_audio_def s1_def)
  then have au: "sendAudio x y a False frame s = (int (length frame), s2\<lparr>isFirstAudioFrame := False\<rparr>)"
    using assms wk by (simp add: sendAudio_def await_started_def await_stop can_command_def
        addAudioDataBuffer_def audio_channel_def s1_def Let_def)
  define t where "t = s2\<lparr>isFirstAudioFrame := False, cmdEvBuffer := pingBytes y\<rparr>"
  have t: "workStatus t = NodeStarted" "cmdEvBuffer t = pingBytes y" "writeEvent t"
    "binaryEvBuffer t = drop NodeFrameSize ?f" "effects t = effects s @ [Sent AudioChannel (take NodeFrameSize ?f)]"
    using assms(7) wk by (simp_all add: t_def s2_def emit_def)
  have add: "addCmdDataBuffer y CmdSendPing [] (s2\<lparr>isFirstAudioFrame := False\<rparr>) = t"
    using assms(2,9) by (simp add: addCmdDataBuffer_def t_def s2_def emit_def)
  have ns: "nlsSendFrame (x_write x) (writeEvent t) (pingBytes y) =
      (int (length (pingBytes y) - NodeFrameSize), drop NodeFrameSize (pingBytes y), take NodeFrameSize (pingBytes y))"
    using t(3) assms(12)
    by (cases "length (pingBytes y) \<le> NodeFrameSize") (auto simp: nlsSendFrame_def nlsSend_def Let_def)
  obtain r u where p: "sendBuffer x CmdChannel False t = (r, u)" by force
  have u: "0 \<le> r" "effects u = effects t @ (if pingBytes y = [] then [] else [Sent CmdChannel (take NodeFrameSize (pingBytes y))])"
    "binaryEvBuffer u = binaryEvBuffer t"
    using p ns t(2) by (auto simp: sendBuffer_def emit_def Let_def split: if_splits)
  have "s' = u"
    using assms(1) wk u(1) p add
    by (simp add: s'_def au sendPing_def send_command_def await_started_def await_stop can_command_def cmdNotify_def)
      (simp add: s2_def emit_def await_stop can_command_def cmdNotify_def)
  then show ?thesis using u t by simp
qed

lemma nlsSendFrame_all:
  assumes "w = (\<lambda>bs. int (length bs))"
  shows "\<exists>ret. nlsSendFrame w we bs = (ret, drop NodeFrameSize bs, take NodeFrameSize bs)"
  using assms by (cases "length bs \<le> NodeFrameSize") (auto simp: nlsSendFrame_def nlsSend_def Let_def)

text \<open>A frame is longer than its payload.\<close>

lemma audioBytes_length:
  assumes "\<forall>n. y_alloc y n" "length bs < 2 ^ 63"
  shows "length bs < length (audioBytes y bs)"
proof -
  have "unat (of_nat (length bs) :: u64) = length bs"
    using assms(2) by (simp add: unat_of_nat take_bit_eq_mod)
  from framePackage_eq [OF this assms(2,1), of BINARY_FRAME "[]"]
  have "audioBytes y bs = frame_header BINARY_FRAME (of_nat (length bs)) @ xor_key masKingKey_const 0 bs"
    by (simp add: audioBytes_def packed_def binaryFrame_def)
  moreover have "0 < length (frame_header BINARY_FRAME (of_nat (length bs)))"
    by (simp add: frame_header_eq masKingKey_const_def)
  ultimately show ?thesis by simp
qed

lemma ex_started: "can_command ex_started" "hasRequest ex_started" "\<not> encoding ex_started"
  "\<not> enableWakeWord (p_conn (nparam ex_started))" "\<not> isStop ex_started" "writeEvent ex_started"
  "binaryEvBuffer ex_started = []" "cmdEvBuffer ex_started = []" "limitSize ex_started = 192000"
  "effects ex_started = [StartWithPool]" "\<not> isWakeStop ex_started"
  by (simp_all add: ex_started_def can_command_def encoding_def ex_starting_eq ex_invoked_eq)

theorem ping_splits_audio_frame_witness:
  "\<exists>s' audio. s' = snd (sendPing ex_outside ex_feed ex_api (snd (sendAudio ex_outside ex_feed ex_api False (replicate 3000 0) ex_started))) \<and>
    3000 < length audio \<and> on_wire (effects s') = take NodeFrameSize audio @ take NodeFrameSize (pingBytes ex_feed) \<and>
    binaryEvBuffer s' = drop NodeFrameSize audio"
proof -
  have l: "3000 < length (audioBytes ex_feed (replicate 3000 0))"
    using audioBytes_length [of ex_feed "replicate 3000 0"] by (simp add: ex_feed_def)
  have x: "x_write ex_outside = (\<lambda>bs. int (length bs))" "a_client ex_api" by (simp_all add: ex_outside_def ex_api_def)
  show ?thesis
    using ping_splits_audio_frame [OF x(2) ex_started(2,1,3-8) _ _ x(1), of "replicate 3000 0" ex_feed] l ex_started(9,10)
    by (intro exI [of _ "audioBytes ex_feed (replicate 3000 0)"] exI) simp
qed

section \<open>Stopping\<close>

text \<open>C16: a stop is sent after the audio. While a stopping node still has audio its write events send
audio only; the first one that empties the audio's buffer queues the stop command, behind the
commands that wait already, and marks it as sent, so that it is queued once.\<close>

theorem stop_follows_audio:
  assumes "workStatus s = NodeStarted" "exitStatus s = ExitStopping" "\<not> isStop s"
    "request_step x y g s = Some (ret, s')" "nlsSendFrame (x_write x) (writeEvent s) (binaryEvBuffer s) = (sent, rest, got)"
  shows "stream AudioChannel s' = stream AudioChannel s \<and> binaryEvBuffer s' = rest \<and>
    isStop s' = (sent = 0) \<and> (sent = 0 \<longrightarrow> rest = []) \<and>
    stream CmdChannel s' = stream CmdChannel s @ (if sent = 0 then command_bytes y CmdStop [] s else [])"
proof -
  define u where "u = snd (sendBuffer x AudioChannel True s)"
  have r: "fst (sendBuffer x AudioChannel True s) = sent" "binaryEvBuffer u = rest" "workStatus u = NodeStarted"
    "exitStatus u = ExitStopping" "isStop u = isStop s" "hasRequest u = hasRequest s" "rc_state u = rc_state s"
    "nparam u = nparam s"
    using assms(1,2,5) unfolding u_def by (simp_all add: sendBuffer_def emit_def Let_def)
  have st: "stream ch u = stream ch s" for ch by (simp add: u_def keeps_stream)
  show ?thesis
  proof (cases "sent = 0")
    case False
    then have "s' = u" using assms(1,4) r(1) by (auto simp: request_step_def u_def split_beta Let_def split: if_splits)
    then show ?thesis using False st r assms(3) by simp
  next
    case True
    define c where "c = snd (sendBuffer x CmdChannel False (addCmdDataBuffer y CmdStop [] u))"
    have "s' = c\<lparr>isStop := True\<rparr>"
      using assms(1,3,4) r True
      by (auto simp: request_step_def u_def [symmetric] c_def sendControlDirective_def split_beta Let_def split: if_splits)
    moreover have "binaryEvBuffer c = rest"
    proof -
      obtain a b d where n: "nlsSendFrame (x_write x) (writeEvent (addCmdDataBuffer y CmdStop [] u))
          (buffer CmdChannel (addCmdDataBuffer y CmdStop [] u)) = (a, b, d)" by (metis prod_cases3)
      have "binaryEvBuffer (addCmdDataBuffer y CmdStop [] u) = rest"
        using r(2) addCmd_shape [of u y CmdStop "[]"] by auto
      with n show ?thesis by (simp add: c_def sendBuffer_def emit_def Let_def)
    qed
    moreover have "rest = []"
      using assms(5) True by (auto simp: nlsSendFrame_def Let_def split: if_splits)
    moreover have "command_bytes y CmdStop [] u = command_bytes y CmdStop [] s"
      using r by (simp add: command_bytes_def command_text_def)
    ultimately show ?thesis
      using True st by (simp add: keeps_stream stream_addCmd c_def)
  qed
qed

theorem stop_follows_audio_witness:
  "\<exists>ret s'. request_step ex_outside ex_feed (l_gateway ex_link)
      (ex_started\<lparr>exitStatus := ExitStopping, binaryEvBuffer := [1, 2, 3]\<rparr>) = Some (ret, s') \<and>
    isStop s' \<and> binaryEvBuffer s' = [] \<and> stream AudioChannel s' = [1, 2, 3]"
proof -
  let ?s = "ex_started\<lparr>exitStatus := ExitStopping, binaryEvBuffer := [1, 2, 3]\<rparr>"
  have w: "workStatus ex_started = NodeStarted" using ex_started(1) by (simp add: can_command_def)
  then have "request_step ex_outside ex_feed (l_gateway ex_link) ?s \<noteq> None"
    by (auto simp: request_step_def split_beta Let_def)
  then obtain r where r: "request_step ex_outside ex_feed (l_gateway ex_link) ?s = Some r" by blast
  have n: "nlsSendFrame (x_write ex_outside) (writeEvent ?s) (binaryEvBuffer ?s) = (0, [], [1, 2, 3])"
    by (simp add: nlsSendFrame_def nlsSend_def ex_outside_def)
  have "stream AudioChannel ?s = [1, 2, 3]" using ex_started(10) by (simp add: stream_def)
  then show ?thesis
    using stop_follows_audio [of ?s ex_outside ex_feed "l_gateway ex_link" "fst r" "snd r"] w r n ex_started(5)
    by (intro exI [of _ "fst r"] exI [of _ "snd r"]) simp
qed

text \<open>What is left of a stop command that could be sent in part only is never sent: once the command is
marked as sent, no write event looks at the commands' buffer any more. The server waits for the
rest of the frame.\<close>

theorem rest_of_stop_is_stuck:
  assumes "workStatus s = NodeStarted" "exitStatus s = ExitStopping" "isStop s" "binaryEvBuffer s = []"
  shows "nodeRequestProcess x y g Success s = Some (Success, s)"
  using assms by (simp add: nodeRequestProcess_def request_step_def sendBuffer_empty sendControlDirective_def)

theorem rest_of_stop_is_stuck_witness:
  "nodeRequestProcess ex_outside ex_feed (l_gateway ex_link) Success
      (ex_started\<lparr>exitStatus := ExitStopping, isStop := True, cmdEvBuffer := [0x7d]\<rparr>) =
    Some (Success, ex_started\<lparr>exitStatus := ExitStopping, isStop := True, cmdEvBuffer := [0x7d]\<rparr>)"
  by (rule rest_of_stop_is_stuck) (use ex_started in \<open>simp_all add: can_command_def\<close>)

section \<open>The upgrade request\<close>

text \<open>Commands that a broken connection left in the buffer go to the new connection first: the upgrade
request is queued behind them, so that what the server gets does not begin with an HTTP request.\<close>

theorem stale_command_precedes_upgrade:
  assumes "workStatus s = NodeHandshaking" "cmdEvBuffer s \<noteq> []" "request_step x y g s = Some (ret, s')"
    "x_write x = (\<lambda>bs. int (length bs))"
  shows "\<exists>request. effects s' = effects s @ [Sent CmdChannel (take NodeFrameSize (cmdEvBuffer s @ request))]"
proof -
  obtain r1 s1 where g: "gatewayRequest g s = Some (r1, s1)"
    "s' = (snd (sendBuffer x CmdChannel False s1))\<lparr>workStatus := NodeHandshaked\<rparr>"
    using assms(1,3) by (auto simp: request_step_def split: bind_splits prod.splits)
  have "\<exists>bs. cmdEvBuffer s1 = cmdEvBuffer s @ bs \<and> effects s1 = effects s"
    using g(1) by (auto simp: gatewayRequest_def Let_def split: if_splits prod.splits)
  then obtain bs where c: "cmdEvBuffer s1 = cmdEvBuffer s @ bs" "effects s1 = effects s" by blast
  let ?b = "cmdEvBuffer s @ bs"
  obtain r rest where n: "nlsSendFrame (x_write x) (writeEvent s1) ?b = (r, rest, take NodeFrameSize ?b)"
    using nlsSendFrame_all [OF assms(4), of "writeEvent s1" ?b] by blast
  have "effects (snd (sendBuffer x CmdChannel False s1)) = effects s1 @ [Sent CmdChannel (take NodeFrameSize ?b)]"
    using n c(1) assms(2) by (simp add: sendBuffer_def emit_def Let_def)
  then show ?thesis using g(2) c(2) by auto
qed

theorem stale_command_precedes_upgrade_witness:
  "\<exists>ret s' request. request_step ex_outside ex_feed (l_gateway ex_link)
      (ex_started\<lparr>workStatus := NodeHandshaking, cmdEvBuffer := [0x7d]\<rparr>) = Some (ret, s') \<and>
    effects s' = [StartWithPool, Sent CmdChannel (take NodeFrameSize (0x7d # request))]"
proof -
  let ?s = "ex_started\<lparr>workStatus := NodeHandshaking, cmdEvBuffer := [0x7d]\<rparr>"
  have "fst (requestPackage empty_url []) \<le> 2048" by code_simp
  then have "\<exists>r. gatewayRequest (l_gateway ex_link) ?s = Some r"
    by (auto simp: gatewayRequest_def ex_link_def ex_started_def ex_starting_eq ex_invoked_eq empty_url_def
        Let_def split_beta)
  then have "request_step ex_outside ex_feed (l_gateway ex_link) ?s \<noteq> None"
    by (auto simp: request_step_def split_beta Let_def)
  then obtain r where r: "request_step ex_outside ex_feed (l_gateway ex_link) ?s = Some r" by blast
  then show ?thesis
    using stale_command_precedes_upgrade [of ?s ex_outside ex_feed "l_gateway ex_link" "fst r" "snd r"] ex_started(10)
    by (intro exI [of _ "fst r"] exI [of _ "snd r"]) (auto simp: ex_outside_def)
qed

end
