(* ===== verification/NodeFrames.thy ===== *)
theory NodeFrames
  imports NodeMachine
begin

text \<open>
  What a frame does to a node at work: the events that end a request, and what becomes of frames
  that arrive together with them.
\<close>

section \<open>The end of a request\<close>

definition ends :: "EventType \<Rightarrow> Node \<Rightarrow> bool" where
  "ends ty s \<longleftrightarrow> ty \<in> {TranscriptionCompleted, SynthesisCompleted, DialogResultGenerated, TaskFailed} \<or>
     ty = RecognitionCompleted \<and> p_mode (p_conn (nparam s)) \<noteq> TypeDialog"

lemma convertResult_event:
  "event_of x fr s = Some ev \<Longrightarrow> \<exists>r. convertResult x fr s = (Some ev, r, s)"
  using convertResult_shape [of x fr s] by (cases "convertResult x fr s") (auto simp: event_of_def)

lemma after_ending:
  assumes "ends ty s" "plain s"
  shows "\<exists>u. after_callback x ty s = (True, False, u) \<and> plain u \<and> told u = told s \<and>
    isLongConnection u = isLongConnection s \<and> usePreconnection u = usePreconnection s \<and>
    releasingFlag u = releasingFlag s \<and>
    (workStatus u = NodeFailed \<longleftrightarrow> ty = TaskFailed \<or> ty = DialogResultGenerated \<and> workStatus s = NodeFailed)"
  using assms
  by (auto simp: ends_def after_callback_def started_event_def plain_def told_def
      ignoreCallbackWhenNodeClosedWhenLongConnection_def)

lemma closing_tells:
  assumes "plain s"
  shows "\<exists>c. told (handlerEvent x (genCloseMsg x s) CloseCode Close s) = told s @ [c] \<and> ev_type c = Close \<and>
    workStatus (handlerEvent x (genCloseMsg x s) CloseCode Close s) = NodeClosed"
  using handlerEvent_tells(1) [OF assms, of x "genCloseMsg x s" CloseCode Close]
    handlerEvent_tells(3) [OF assms, of Close x "genCloseMsg x s" CloseCode] by auto

lemma plain_pool:
  "plain (closeStatusConnectNodeForConnectedPool x s) = plain s" "told (closeStatusConnectNodeForConnectedPool x s) = told s"
  "plain (s\<lparr>isPreconnecting := b\<rparr>) = plain s" "told (s\<lparr>isPreconnecting := b\<rparr>) = told s"
  "plain (store_in_pool x s) = plain s" "told (store_in_pool x s) = told s"
  by (simp_all add: closeStatusConnectNodeForConnectedPool_def drop_audio_def free_events_def store_in_pool_def
      plain_emit told_emit) (simp_all add: plain_def told_def)

lemma finish_tells:
  assumes "plain s" "\<not> isLongConnection s"
  shows "\<exists>c. told (finish_request x False s) = told s @ [c] \<and> ev_type c = Close \<and>
    workStatus (finish_request x False s) = NodeClosed"
proof -
  define u where "u = s\<lparr>isPreconnecting := False\<rparr>"
  define v where "v = (if usePreconnection u \<and> workStatus u \<noteq> NodeFailed
      then (closeStatusConnectNodeForConnectedPool x u)\<lparr>isPreconnecting := True\<rparr> else closeNode x u)"
  define w where "w = (if isPreconnecting v then store_in_pool x v else v)"
  have "plain u" "told u = told s" using assms(1) by (simp_all add: u_def plain_pool)
  then have "plain v" "told v = told s" by (simp_all add: v_def plain_pool plain_closeNode)
  then have w: "plain w" "told w = told s" by (simp_all add: w_def plain_pool)
  have "finish_request x False s = handlerEvent x (genCloseMsg x w) CloseCode Close w"
    using assms(2) unfolding finish_request_def u_def [symmetric] v_def [symmetric] w_def [symmetric] Let_def
    by (simp add: u_def)
  then show ?thesis using closing_tells [OF w(1), of x] w(2) by simp
qed

text \<open>C15: a message that ends the request is told to the user, followed by the closing, and closes the node:
nothing else is told, whatever the event, and whether the connection is closed or goes to the pool.\<close>

theorem ending_event_closes:
  assumes "plain s" "\<not> isLongConnection s" "event_of x fr s = Some ev" "ends (ev_type ev) s"
    "fr_type fr \<noteq> CLOSE" "fr_type fr \<noteq> PONG"
  shows "\<exists>s' c. parseFrame x fr s = (Success, s') \<and> told s' = told s @ [ev, c] \<and> ev_type c = Close \<and>
    workStatus s' = NodeClosed"
proof -
  obtain r where c: "convertResult x fr s = (Some ev, r, s)" using convertResult_event [OF assms(3)] by blast
  have ty: "\<not> started_event (ev_type ev)" using assms(4) by (auto simp: ends_def started_event_def)
  obtain q v where v: "handlerFrame x ev s = (q, v)" by force
  have h: "told v = told s @ [ev]" "plain v" "q = Success" "nparam v = nparam s"
    using handlerFrame_tells [OF assms(1), of x ev] v by simp_all
  have l: "\<not> isLongConnection v"
    using handlerFrame_speaks [of x ev s] v assms(2) by (metis snd_conv)
  obtain u where u: "after_callback x (ev_type ev) v = (True, False, u)" "plain u" "told u = told v" "\<not> isLongConnection u"
    using after_ending [OF _ h(2), of "ev_type ev" x] assms(4) h(4) l by (auto simp: ends_def)
  have "parseFrame x fr s = (Success, finish_request x False u)"
    using assms(1,5,6) c ty v h(3) u(1) by (simp add: parseFrame_def parse_event_def plain_def)
  then show ?thesis
    using finish_tells [OF u(2,4), of x] u(3) h(1) by auto
qed

lemma chars_bytes_of: "chars (bytes_of t) = t"
proof -
  have "char_of (unat (of_nat (of_char c) :: byte)) = c" for c
    using of_char_mod_256 [of c] by (simp add: unat_of_nat)
  then show ?thesis by (simp add: chars_def bytes_of_def o_def)
qed

lemma ex_done_event:
  "parseJsonMsg ex_json w TypeAsr WsServiceProtocolNls False (new_NlsEvent ex_done Success Message []) =
    Inr (new_NlsEvent ex_done 20000000 RecognitionCompleted [])"
proof -
  have "ex_done \<noteq> []" by (simp add: ex_done_def)
  moreover have "parseMsgType (c_string ''RecognitionCompleted'') = Some RecognitionCompleted"
    by (simp add: parseMsgType_def c_string_def)
  ultimately show ?thesis
    by (simp add: parseJsonMsg_def ex_json_def parse_head_def parse_name_def parse_status_def parse_rest_def
        parse_payload_def int_range_def new_NlsEvent_def parse_ok_def)
qed

theorem ending_event_closes_witness:
  "\<exists>s' c. parseFrame ex_outside \<lparr>fr_type = TEXT_FRAME, fr_data = bytes_of ex_done, fr_closeCode = 0\<rparr>
      (ex_starting\<lparr>workStatus := NodeStarted\<rparr>) = (Success, s') \<and>
    told s' = [new_NlsEvent ex_done 20000000 RecognitionCompleted [], c] \<and> ev_type c = Close \<and> workStatus s' = NodeClosed"
proof -
  let ?s = "ex_starting\<lparr>workStatus := NodeStarted\<rparr>"
  let ?fr = "\<lparr>fr_type = TEXT_FRAME, fr_data = bytes_of ex_done, fr_closeCode = 0\<rparr>"
  have s: "plain ?s" "\<not> isLongConnection ?s" "told ?s = []"
    by (simp_all add: plain_def told_def ex_starting_eq ex_invoked_eq)
  have e: "event_of ex_outside ?fr ?s = Some (new_NlsEvent ex_done 20000000 RecognitionCompleted [])"
    by (simp add: event_of_def convertResult_def ex_starting_eq ex_invoked_eq ex_outside_def chars_bytes_of ex_done_event
        empty_url_def) (simp add: ex_done_def)
  have "ends RecognitionCompleted ?s" by (simp add: ends_def ex_starting_eq ex_invoked_eq)
  then show ?thesis
    using ending_event_closes [OF s(1,2) e] s(3) by (simp add: new_NlsEvent_def)
qed

section \<open>Frames behind the end\<close>

text \<open>Frames that arrive together with the one that closes the node are still handed over: the user hears
of them after the closing, and a first binary frame makes the closed node work again.\<close>

theorem frame_after_close:
  assumes "workStatus s = NodeClosed" "hasRequest s" "hasHandler s" "\<not> nodeOnMessage s" "exitStatus s \<noteq> ExitCancel"
    "\<not> enableReconnect (p_conn (nparam s))" "fr_type fr = BINARY_FRAME" "fr_data fr \<noteq> []"
  shows "\<exists>s' ev. parseFrame x fr s = (Success, s') \<and> told s' = told s @ [ev] \<and> ev_type ev = Binary \<and>
    ev_binary ev = fr_data fr \<and> workStatus s' = (if isFirstBinaryFrame s then NodeStarted else NodeClosed)"
proof -
  define ev where "ev = (new_NlsEvent [] Success Binary (p_taskId (p_text (nparam s))))\<lparr>ev_binary := fr_data fr\<rparr>"
  have ev: "ev_type ev = Binary" "ev_binary ev = fr_data fr" by (simp_all add: ev_def new_NlsEvent_def)
  have c: "convertResult x fr s = (Some ev, Success, s)"
    using assms(2,7,8) by (simp add: convertResult_def ev_def)
  have "handlerFrame x ev s = (Success, tell_user False ev s)"
    using assms(1,3,6) ev
    by (simp add: handlerFrame_def updateTwIndexOffset_def ignoreCallbackWhenReconnecting_def
        ignoreCallbackWhenNodeClosedWhenLongConnection_def)
  moreover have t: "told (tell_user False ev s) = told s @ [ev]" "workStatus (tell_user False ev s) = workStatus s"
    "isFirstBinaryFrame (tell_user False ev s) = isFirstBinaryFrame s"
    using assms(4) ev(1) by (simp_all add: tell_user_def sendFinishCondSignal_def told_emit) (simp_all add: emit_def)
  ultimately have "parseFrame x fr s = (Success, if isFirstBinaryFrame s
      then (tell_user False ev s)\<lparr>isFirstBinaryFrame := False, workStatus := NodeStarted\<rparr> else tell_user False ev s)"
    using assms(2,5,7) c ev
    by (simp add: parseFrame_def parse_event_def started_event_def after_callback_def)
  then show ?thesis using t ev assms(1) by (auto simp: told_def)
qed

theorem frame_after_close_witness:
  "\<exists>s' ev. parseFrame ex_outside \<lparr>fr_type = BINARY_FRAME, fr_data = [1, 2], fr_closeCode = 0\<rparr>
      (ex_starting\<lparr>workStatus := NodeClosed\<rparr>) = (Success, s') \<and> told s' = [ev] \<and> ev_type ev = Binary \<and>
    workStatus s' = NodeStarted"
proof -
  let ?s = "ex_starting\<lparr>workStatus := NodeClosed\<rparr>"
  have s: "isFirstBinaryFrame ?s" "told ?s = []"
    by (simp_all add: told_def ex_starting_eq ex_invoked_eq ex_node_def new_ConnectNode_def)
  have "\<exists>s' ev. parseFrame ex_outside \<lparr>fr_type = BINARY_FRAME, fr_data = [1, 2], fr_closeCode = 0\<rparr> ?s = (Success, s') \<and>
    told s' = told ?s @ [ev] \<and> ev_type ev = Binary \<and> ev_binary ev = [1, 2] \<and>
    workStatus s' = (if isFirstBinaryFrame ?s then NodeStarted else NodeClosed)"
    using frame_after_close [of ?s "\<lparr>fr_type = BINARY_FRAME, fr_data = [1, 2], fr_closeCode = 0\<rparr>" ex_outside]
    by (simp add: ex_starting_eq ex_invoked_eq)
  then show ?thesis using s by auto
qed

end
