(* ===== verification/RequestCommands.thy ===== *)
theory RequestCommands
  imports RequestParam
begin

text \<open>
  What holds of the parameters of a request whatever its user sets and whichever commands are made
  from them, and which task the commands belong to.
\<close>

section \<open>Well-formed parameters\<close>

definition param_ok :: "NlsType \<Rightarrow> INlsRequestParam \<Rightarrow> bool" where
  "param_ok mode p \<longleftrightarrow> p_mode (p_conn p) = mode \<and> json_ok (header_of p) \<and> json_ok (payload_of p) \<and>
     json_ok (context_of p) \<and> json_ok (JObject (p_httpHeader (p_text p)))"

text \<open>What the parser yields are values as the library holds them.\<close>

definition reads_ok :: "reader \<Rightarrow> bool" where
  "reads_ok rd \<longleftrightarrow> (\<forall>t v. rd t = Some v \<longrightarrow> json_ok v)"

lemma param_ok_members [intro]:
  "param_ok mode p \<Longrightarrow> json_ok v \<Longrightarrow> param_ok mode (set_header k v p)"
  "param_ok mode p \<Longrightarrow> json_ok v \<Longrightarrow> param_ok mode (set_payload k v p)"
  "param_ok mode p \<Longrightarrow> json_ok v \<Longrightarrow> param_ok mode (set_context k v p)" "param_ok mode p \<Longrightarrow> param_ok mode (remove_payload k p)"
  by (auto simp: param_ok_def set_header_def set_payload_def set_context_def remove_payload_def)

lemma param_ok_other [simp]:
  "param_ok mode (p\<lparr>p_speech := sp\<rparr>) = param_ok mode p" "param_ok mode (p\<lparr>p_derived := d\<rparr>) = param_ok mode p"
  "param_ok mode (p\<lparr>p_tokenExpirationTime := e\<rparr>) = param_ok mode p"
  by (simp_all add: param_ok_def)

lemma param_ok_new: "param_ok mode (new_INlsRequestParam garbage mode sdkName version)"
proof -
  have "''format'' < ''sample_rate''" by code_simp
  moreover have "''language'' < ''name''" "''name'' < ''version''" "''language'' < ''version''" by code_simp+
  ultimately show ?thesis
    by (simp add: param_ok_def new_INlsRequestParam_def members_ok_def getSdkInfo_def json_ok.simps(2))
qed

lemma param_ok_new_Request: "param_ok mode (new_RequestParam garbage mode sdkName version)"
  using param_ok_new [of mode] by (cases mode) (auto simp: new_RequestParam_def Let_def intro!: param_ok_members)

lemma json_ok_merge:
  "json_ok (JObject ms) \<Longrightarrow> (\<forall>kv\<in>set new. json_ok (snd kv)) \<Longrightarrow> json_ok (JObject (merge_members new ms))"
  unfolding merge_members_def
proof (induction new arbitrary: ms)
  case (Cons kv new)
  then show ?case using json_ok_set [of ms "snd kv" "fst kv"] by (auto simp: split_beta)
qed simp

lemma parse_object_ok: "reads_ok rd \<Longrightarrow> parse_object rd t = Inr ms \<Longrightarrow> json_ok (JObject ms)"
  by (auto simp: reads_ok_def parse_object_def split: option.splits json.splits)

lemma param_ok_inline: "param_ok mode p \<Longrightarrow> param_ok mode (apply_inline st p)"
  by (cases st) (simp_all add: apply_inline_def param_ok_def)

lemma param_ok_conn: "p_mode (f (p_conn p)) = p_mode (p_conn p) \<Longrightarrow> param_ok mode (p\<lparr>p_conn := f (p_conn p)\<rparr>) = param_ok mode p"
  by (simp add: param_ok_def)

lemma param_ok_setting: "param_ok mode p \<Longrightarrow> param_ok mode (apply_setting st p)"
  using param_ok_inline [of mode p st]
  by (cases st) (auto simp: apply_setting_def intro!: param_ok_members, simp_all add: param_ok_def)

lemma param_ok_merge:
  assumes "param_ok mode p" "reads_ok rd"
  shows "param_ok mode (snd (setPayloadParam rd t p))" "param_ok mode (snd (setContextParam rd t p))"
    "param_ok mode (snd (setQueryParams rd t p))"
proof -
  have v: "\<forall>kv\<in>set ms. json_ok (snd kv)" if "parse_object rd u = Inr ms" for u ms
    using parse_object_ok [OF assms(2) that] by (simp add: json_ok.simps(2))
  show "param_ok mode (snd (setPayloadParam rd t p))" "param_ok mode (snd (setContextParam rd t p))"
    using assms(1) v by (auto simp: setPayloadParam_def setContextParam_def param_ok_def json_ok_merge split: sum.split)
  show "param_ok mode (snd (setQueryParams rd t p))"
    using assms parse_object_ok [OF assms(2)]
    by (auto simp: setQueryParams_def split: sum.split option.split intro!: param_ok_members intro: json_ok_member)
qed

lemma param_ok_http:
  "param_ok mode p \<Longrightarrow> param_ok mode (AppendHttpHeader k v p)" "param_ok mode p \<Longrightarrow> param_ok mode (snd (GetHttpHeader p))"
  by (auto simp: AppendHttpHeader_def GetHttpHeader_def Let_def param_ok_def)

lemma param_ok_derived:
  "param_ok mode p \<Longrightarrow> param_ok mode (apply_recognizer a p)" "param_ok mode p \<Longrightarrow> param_ok mode (apply_transcriber b p)"
  "param_ok mode p \<Longrightarrow> param_ok mode (apply_synthesizer c p)" "param_ok mode p \<Longrightarrow> param_ok mode (apply_flowing d p)"
  "param_ok mode p \<Longrightarrow> param_ok mode (apply_dialog e p)" "param_ok mode p \<Longrightarrow> param_ok mode (apply_paraformer f p)"
  "param_ok mode p \<Longrightarrow> param_ok mode (apply_cosyvoice g p)"
  by (cases a, auto)
    (cases b, auto, cases c, auto, cases d, auto, cases e, auto, cases f, auto, cases g, auto)

lemma param_ok_round:
  "param_ok mode p \<Longrightarrow> param_ok mode (snd (setSingleRoundText t p))" "param_ok mode p \<Longrightarrow> param_ok mode (clearSingleRoundText p)"
  by (auto simp: setSingleRoundText_def clearSingleRoundText_def Let_def split: sum.split)

section \<open>Commands keep them so\<close>

lemma param_ok_kept [simp]:
  "param_ok mode (p\<lparr>p_text := (p_text p)\<lparr>startCommand := t\<rparr>\<rparr>) = param_ok mode p"
  "param_ok mode (p\<lparr>p_text := (p_text p)\<lparr>stopCommand := t\<rparr>\<rparr>) = param_ok mode p"
  "param_ok mode (p\<lparr>p_text := (p_text p)\<lparr>controlCommand := t\<rparr>\<rparr>) = param_ok mode p"
  by (simp_all add: param_ok_def)

lemma param_ok_stamp: "param_ok mode p \<Longrightarrow> param_ok mode (stamp_header t p)" "param_ok mode p \<Longrightarrow> param_ok mode (named t p)"
  "param_ok mode p \<Longrightarrow> param_ok mode (new_task u p)"
  by (auto simp: stamp_header_def named_def intro!: param_ok_members) (simp add: new_task_def Let_def param_ok_def)

lemma param_ok_documents:
  "param_ok mode p \<Longrightarrow> param_ok mode (snd (base_start u p))" "param_ok mode p \<Longrightarrow> param_ok mode (snd (base_stop u p))"
  "param_ok mode p \<Longrightarrow> param_ok mode (snd (base_control rd t u p))" "param_ok mode p \<Longrightarrow> param_ok mode (snd (dash_start rd u p))"
  by (auto simp: base_start_def base_stop_def base_control_def dash_start_def Let_def param_ok_stamp split: sum.split)

lemma param_ok_start: "param_ok mode p \<Longrightarrow> param_ok mode (snd (start_document rd u p))"
  by (cases "p_mode (p_conn p)")
    (auto simp: start_document_def Let_def intro!: param_ok_documents param_ok_stamp param_ok_members)

lemma param_ok_commands:
  "param_ok mode p \<Longrightarrow> param_ok mode (snd (getStartCommand rd wr u p))"
  "param_ok mode p \<Longrightarrow> param_ok mode (snd (getStopCommand wr u p))"
  "param_ok mode p \<Longrightarrow> param_ok mode (snd (getExecuteDialog wr u p))"
  "param_ok mode p \<Longrightarrow> param_ok mode (snd (getStopWakeWordCommand wr u p))"
  "param_ok mode p \<Longrightarrow> param_ok mode (snd (getControlCommand rd wr t u p))"
  "param_ok mode p \<Longrightarrow> param_ok mode (snd (getRunFlowingSynthesisCommand wr t u p))"
  "param_ok mode p \<Longrightarrow> param_ok mode (snd (getFlushFlowingTextCommand rd wr t u p))"
proof -
  assume p: "param_ok mode p"
  show "param_ok mode (snd (getStartCommand rd wr u p))"
    using param_ok_start [OF p, of rd u] by (simp add: getStartCommand_def split_beta)
  show "param_ok mode (snd (getStopCommand wr u p))"
    using p by (cases "p_mode (p_conn p)")
      (auto simp: getStopCommand_def stop_document_def kept_stop_def split_beta intro!: param_ok_documents param_ok_stamp)
  show "param_ok mode (snd (getExecuteDialog wr u p))"
    using p by (auto simp: getExecuteDialog_def split_beta intro!: param_ok_documents param_ok_stamp)
  show "param_ok mode (snd (getStopWakeWordCommand wr u p))"
    using p by (auto simp: getStopWakeWordCommand_def kept_stop_def split_beta intro!: param_ok_documents param_ok_stamp)
  show "param_ok mode (snd (getControlCommand rd wr t u p))"
  proof -
    define q where "q = (if p_mode (p_conn p) = TypeRealTime
        then named (if controlHeaderName (p_derived p) \<noteq> [] then controlHeaderName (p_derived p) else ''ControlTranscriber'') p
        else p)"
    obtain doc r where d: "base_control rd t u q = (doc, r)" by force
    have "param_ok mode q" using p by (simp add: q_def param_ok_stamp)
    from param_ok_documents(3) [OF this, of rd t u] have "param_ok mode r" by (simp add: d)
    then show ?thesis
      by (cases doc) (simp_all only: getControlCommand_def Let_def q_def [symmetric] d prod.case option.case snd_conv param_ok_kept)
  qed
  show "param_ok mode (snd (getRunFlowingSynthesisCommand wr t u p))"
    using p by (auto simp: getRunFlowingSynthesisCommand_def Let_def intro!: param_ok_members param_ok_stamp)
  show "param_ok mode (snd (getFlushFlowingTextCommand rd wr t u p))"
    using p by (auto simp: getFlushFlowingTextCommand_def Let_def intro!: param_ok_stamp)
qed

section \<open>Reachable parameters\<close>

inductive param_step :: "INlsRequestParam \<Rightarrow> INlsRequestParam \<Rightarrow> bool" where
  param_setting: "param_step p (apply_setting st p)"
| param_recognizer: "param_step p (apply_recognizer a p)"
| param_transcriber: "param_step p (apply_transcriber b p)"
| param_synthesizer: "param_step p (apply_synthesizer c p)"
| param_flowing: "param_step p (apply_flowing d p)"
| param_dialog: "param_step p (apply_dialog e p)"
| param_paraformer: "param_step p (apply_paraformer f p)"
| param_cosyvoice: "param_step p (apply_cosyvoice g p)"
| param_payload: "reads_ok rd \<Longrightarrow> param_step p (snd (setPayloadParam rd t p))"
| param_context: "reads_ok rd \<Longrightarrow> param_step p (snd (setContextParam rd t p))"
| param_query: "reads_ok rd \<Longrightarrow> param_step p (snd (setQueryParams rd t p))"
| param_remove: "param_step p (remove_payload k p)"
| param_round: "param_step p (snd (setSingleRoundText t p))"
| param_clear: "param_step p (clearSingleRoundText p)"
| param_http: "param_step p (AppendHttpHeader k v p)"
| param_headers: "param_step p (snd (GetHttpHeader p))"
| param_start: "param_step p (snd (getStartCommand rd wr u p))"
| param_stop: "param_step p (snd (getStopCommand wr u p))"
| param_dialog_command: "param_step p (snd (getExecuteDialog wr u p))"
| param_wake_command: "param_step p (snd (getStopWakeWordCommand wr u p))"
| param_control: "param_step p (snd (getControlCommand rd wr t u p))"
| param_run: "param_step p (snd (getRunFlowingSynthesisCommand wr t u p))"
| param_flush: "param_step p (snd (getFlushFlowingTextCommand rd wr t u p))"
| param_copy: "p_mode (p_conn q) = p_mode (p_conn p) \<Longrightarrow> param_ok (p_mode (p_conn q)) q \<Longrightarrow> param_step p (param_assign p q)"

interpretation parameters: invariant_system
  "\<lambda>p. \<exists>garbage sdkName version. p = new_RequestParam garbage mode sdkName version" param_step "param_ok mode" for mode
proof unfold_locales
  show "param_ok mode p" if "\<exists>garbage sdkName version. p = new_RequestParam garbage mode sdkName version" for p
    using that param_ok_new_Request by blast
  show "param_ok mode p'" if "param_ok mode p" "param_step p p'" for p p'
    using that(2,1)
  proof cases
    case (param_copy q)
    then show ?thesis using that(1) by (simp add: param_ok_def param_assign_def)
  qed (auto intro: param_ok_setting param_ok_derived param_ok_merge param_ok_members param_ok_round param_ok_http param_ok_commands)
qed

lemma dash_documents_ok:
  assumes "reads_ok rd"
  shows "json_ok (fst (dash_start rd u p))" "json_ok (dash_header t p)" "json_ok (dash_finish p)"
proof -
  have rd: "json_ok v" if "rd t = Some v" for t v using assms that by (simp add: reads_ok_def)
  have arr: "kv \<in> set (json_array rd k t) \<Longrightarrow> json_ok (snd kv)" for kv k t
    using rd by (auto simp: json_array_def simp del: json_ok.simps(1) split: if_splits option.splits json.splits)
  have empty: "json_ok (JObject [])" by (simp add: json_ok.simps(2))
  have tsk: "kv \<in> set (dash_task rd q) \<Longrightarrow> json_ok (snd kv)" for kv q
    using rd empty by (auto simp: dash_task_def only_def Let_def split: if_splits option.splits json.splits)
  have aud: "kv \<in> set (dash_audio q) \<Longrightarrow> json_ok (snd kv)" for kv q
    by (auto simp: dash_audio_def only_def split: if_splits)
  have fun_: "kv \<in> set (funasr_parameters q) \<Longrightarrow> json_ok (snd kv)" for kv q
    using aud by (cases kv) (auto simp: funasr_parameters_def only_def Let_def split: if_splits)
  have para: "kv \<in> set (paraformer_parameters rd q) \<Longrightarrow> json_ok (snd kv)" for kv q
    using aud arr by (cases kv) (auto simp: paraformer_parameters_def only_def Let_def split: if_splits)
  have cosy: "kv \<in> set (cosyvoice_parameters rd q) \<Longrightarrow> json_ok (snd kv)" for kv q
    using aud arr by (cases kv) (auto simp: cosyvoice_parameters_def only_def Let_def split: if_splits)
  show h: "json_ok (dash_header t p)" for t p by (auto simp: dash_header_def intro!: json_ok_object)
  have "json_ok (object [])" by (rule json_ok_object) simp
  then show "json_ok (dash_finish p)"
    using h by (auto simp: dash_finish_def json_ok.simps(2) intro!: json_ok_object)
  show "json_ok (fst (dash_start rd u p))"
    using h tsk arr fun_ para cosy by (auto simp: dash_start_def Let_def intro!: json_ok_object split: if_splits)
qed

lemma documents_ok:
  assumes "param_ok mode p" "reads_ok rd"
  shows "json_ok (fst (start_document rd u p))" "fst (stop_document u p) = Some doc \<Longrightarrow> json_ok doc"
proof -
  have b: "json_ok (fst (base_start u q))" "json_ok (fst (base_stop u q))" if "param_ok mode q" for q
    using param_ok_stamp(1) [OF param_ok_stamp(3) [OF that], of "u 2"] param_ok_stamp(1) [OF that, of "u 0"]
    by (auto simp: base_start_def base_stop_def Let_def param_ok_def intro!: json_ok_object)
  show "json_ok (fst (start_document rd u p))"
    using b param_ok_stamp(2) [OF assms(1)] dash_documents_ok [OF assms(2)] assms(1)
    by (cases "p_mode (p_conn p)") (auto simp: start_document_def Let_def intro!: b param_ok_members)
  show "fst (stop_document u p) = Some doc \<Longrightarrow> json_ok doc"
    using b param_ok_stamp(2) [OF assms(1)] dash_documents_ok [OF assms(2)] assms(1)
    by (cases "p_mode (p_conn p)") (auto simp: stop_document_def split_beta)
qed



section \<open>Tasks\<close>

text \<open>The task a document names.\<close>

definition doc_task :: "json \<Rightarrow> json option" where
  "doc_task doc = do { header \<leftarrow> json_get doc ''header''; json_get header ''task_id'' }"

lemma task_update [simp]:
  "p_taskId (p_text (set_header k v p)) = p_taskId (p_text p)" "p_taskId (p_text (set_payload k v p)) = p_taskId (p_text p)"
  "p_taskId (p_text (remove_payload k p)) = p_taskId (p_text p)" "p_taskId (p_text (named n p)) = p_taskId (p_text p)"
  "p_taskId (p_text (stamp_header t p)) = p_taskId (p_text p)"
  "p_oldTaskId (p_text (set_header k v p)) = p_oldTaskId (p_text p)" "p_oldTaskId (p_text (set_payload k v p)) = p_oldTaskId (p_text p)"
  "p_oldTaskId (p_text (remove_payload k p)) = p_oldTaskId (p_text p)" "p_oldTaskId (p_text (named n p)) = p_oldTaskId (p_text p)"
  "p_oldTaskId (p_text (stamp_header t p)) = p_oldTaskId (p_text p)"
  by (simp_all add: set_header_def set_payload_def remove_payload_def named_def stamp_header_def)

lemma header_task [simp]: "map_of (p_header (p_text (stamp_header t p))) ''task_id'' = Some (JString (p_taskId (p_text p)))"
  by (simp add: stamp_header_def set_header_def)

definition next_task :: "(nat \<Rightarrow> string) \<Rightarrow> INlsRequestParam \<Rightarrow> string" where
  "next_task u p =
    (let t = (if p_taskId (p_text p) = p_oldTaskId (p_text p) then u 0 else p_taskId (p_text p))
     in if t = [] then u 1 else t)"

lemma new_task_ids [simp]:
  "p_taskId (p_text (new_task u p)) = next_task u p" "p_oldTaskId (p_text (new_task u p)) = next_task u p"
  by (simp_all add: new_task_def next_task_def Let_def)

lemma base_start_task:
  "doc_task (fst (base_start u p)) = Some (JString (next_task u p))" "p_taskId (p_text (snd (base_start u p))) = next_task u p"
  "p_oldTaskId (p_text (snd (base_start u p))) = next_task u p"
  by (simp_all add: base_start_def Let_def doc_task_def)

lemma next_task_update [simp]:
  "next_task u (named n p) = next_task u p" "next_task u (remove_payload k p) = next_task u p"
  "next_task u (set_payload k v p) = next_task u p"
  by (simp_all add: next_task_def)

lemma dash_start_task:
  "doc_task (fst (dash_start rd u p)) = Some (JString (next_task u p))" "p_taskId (p_text (snd (dash_start rd u p))) = next_task u p"
  "p_oldTaskId (p_text (snd (dash_start rd u p))) = next_task u p"
  by (simp_all add: dash_start_def Let_def doc_task_def dash_header_def)

lemma start_document_task:
  "doc_task (fst (start_document rd u p)) = Some (JString (next_task u p)) \<and>
   p_taskId (p_text (snd (start_document rd u p))) = next_task u p \<and>
   p_oldTaskId (p_text (snd (start_document rd u p))) = next_task u p"
  by (cases "p_mode (p_conn p)") (simp_all add: start_document_def Let_def base_start_task dash_start_task)

text \<open>C31: every start begins a task of its own: its document names the task the request has from then on, which
is a fresh one unless the user has set another since the last start.\<close>

theorem start_begins_task:
  assumes "getStartCommand rd wr u p = (text, p')" "u 0 \<noteq> []"
  shows "\<exists>doc. text = wr doc \<and> doc_task doc = Some (JString (p_taskId (p_text p'))) \<and>
    p_oldTaskId (p_text p') = p_taskId (p_text p') \<and>
    (p_taskId (p_text p') = (if p_taskId (p_text p) = p_oldTaskId (p_text p) then u 0
      else if p_taskId (p_text p) = [] then u 1 else p_taskId (p_text p)))"
proof -
  obtain doc q where d: "start_document rd u p = (doc, q)" by force
  have "text = wr doc" "p_taskId (p_text p') = p_taskId (p_text q)" "p_oldTaskId (p_text p') = p_oldTaskId (p_text q)"
    using assms(1) by (auto simp: getStartCommand_def d)
  then show ?thesis
    using start_document_task [of rd u p] assms(2) by (auto simp: d next_task_def)
qed

theorem start_begins_task_witness:
  "\<exists>doc text p'. getStartCommand (\<lambda>_. None) (\<lambda>_. ''text'') (\<lambda>_. ''t1'') (new_RequestParam 0 TypeAsr [] 0) = (text, p') \<and>
    doc_task doc = Some (JString ''t1'') \<and> p_taskId (p_text p') = ''t1''"
proof -
  obtain cmd p' where g: "getStartCommand (\<lambda>_. None) (\<lambda>_. ''text'') (\<lambda>_. ''t1'') (new_RequestParam 0 TypeAsr [] 0) = (cmd, p')"
    by force
  show ?thesis
    using start_begins_task [OF g] g
    by (simp add: new_RequestParam_def new_INlsRequestParam_def set_header_def) metis
qed

definition bears_task :: "writer \<Rightarrow> INlsRequestParam \<Rightarrow> string \<times> INlsRequestParam \<Rightarrow> bool" where
  "bears_task wr p r \<longleftrightarrow> (\<exists>doc. fst r = wr doc \<and> doc_task doc = Some (JString (p_taskId (p_text p)))) \<and>
     p_taskId (p_text (snd r)) = p_taskId (p_text p)"

lemma bears_taskI:
  "doc_task doc = Some (JString (p_taskId (p_text p))) \<Longrightarrow> p_taskId (p_text q) = p_taskId (p_text p) \<Longrightarrow>
    bears_task wr p (wr doc, q)"
  by (auto simp: bears_task_def)

lemma base_stop_task:
  "doc_task (fst (base_stop u p)) = Some (JString (p_taskId (p_text p)))" "p_taskId (p_text (snd (base_stop u p))) = p_taskId (p_text p)"
  by (simp_all add: base_stop_def Let_def doc_task_def)

lemma dash_task_of:
  "doc_task (dash_finish p) = Some (JString (p_taskId (p_text p)))"
  "doc_task (object [(''header'', dash_header a p), (''payload'', v)]) = Some (JString (p_taskId (p_text p)))"
  by (simp_all add: dash_finish_def doc_task_def dash_header_def)

lemma stop_document_task:
  assumes "p_mode (p_conn p) \<noteq> TypeTts"
  shows "\<exists>doc q. stop_document u p = (Some doc, q) \<and> doc_task doc = Some (JString (p_taskId (p_text p))) \<and>
    p_taskId (p_text q) = p_taskId (p_text p)"
  using assms by (cases "p_mode (p_conn p)") (simp_all add: stop_document_def split_beta base_stop_task dash_task_of)

text \<open>The commands between two starts belong to the task of the first: stop, text, flush and control name
the task the request has, and leave it as it is.\<close>

theorem commands_keep_task:
  "(p_mode (p_conn p) \<noteq> TypeTts \<longrightarrow> bears_task wr p (getStopCommand wr u p)) \<and>
   (p_mode (p_conn p) \<in> {TypeStreamInputTts, TypeDashSceopCosyVoiceStreamInputTts} \<longrightarrow>
      bears_task wr p (getRunFlowingSynthesisCommand wr t u p)) \<and>
   (p_mode (p_conn p) = TypeStreamInputTts \<longrightarrow> bears_task wr p (getFlushFlowingTextCommand rd wr t u p)) \<and>
   (rd t = Some (JObject ms) \<longrightarrow> (\<exists>text q. getControlCommand rd wr t u p = (Some text, q) \<and> bears_task wr p (text, q)))"
proof (intro conjI impI)
  assume "p_mode (p_conn p) \<noteq> TypeTts"
  from stop_document_task [OF this, of u] show "bears_task wr p (getStopCommand wr u p)"
    by (auto simp: bears_task_def getStopCommand_def kept_stop_def)
next
  have "doc_task (object [(''header'', header_of q), (''payload'', v)]) = Some (JString (p_taskId (p_text p)))"
    if "map_of (p_header (p_text q)) ''task_id'' = Some (JString (p_taskId (p_text p)))" for q v
    using that by (simp add: doc_task_def)
  then show "bears_task wr p (getRunFlowingSynthesisCommand wr t u p)"
    if "p_mode (p_conn p) \<in> {TypeStreamInputTts, TypeDashSceopCosyVoiceStreamInputTts}"
    using that dash_task_of(2) [of "''continue-task''" p]
    by (auto simp: bears_task_def getRunFlowingSynthesisCommand_def Let_def set_payload_def)
  show "bears_task wr p (getFlushFlowingTextCommand rd wr t u p)" if "p_mode (p_conn p) = TypeStreamInputTts"
    using that by (auto simp: bears_task_def getFlushFlowingTextCommand_def Let_def doc_task_def split: option.split)
next
  assume "rd t = Some (JObject ms)"
  moreover define q where "q = (if p_mode (p_conn p) = TypeRealTime
      then named (if controlHeaderName (p_derived p) \<noteq> [] then controlHeaderName (p_derived p) else ''ControlTranscriber'') p
      else p)"
  moreover have "p_taskId (p_text q) = p_taskId (p_text p)" by (simp add: q_def)
  ultimately show "\<exists>text q. getControlCommand rd wr t u p = (Some text, q) \<and> bears_task wr p (text, q)"
    unfolding getControlCommand_def q_def [symmetric] Let_def
    by (auto simp: base_control_def parse_object_def Let_def doc_task_def only_def intro!: bears_taskI)
qed

theorem commands_keep_task_witness:
  "bears_task (\<lambda>_. ''text'') (new_RequestParam 0 TypeAsr [] 0) (getStopCommand (\<lambda>_. ''text'') (\<lambda>_. ''m1'') (new_RequestParam 0 TypeAsr [] 0))"
  using commands_keep_task [of "new_RequestParam 0 TypeAsr [] 0" "\<lambda>_. ''text''" "\<lambda>_. ''m1''" "[]" "\<lambda>_. None"]
  by (simp add: new_RequestParam_def new_INlsRequestParam_def set_header_def)

section \<open>What a start takes along\<close>

text \<open>C36: a text sent to a flowing synthesizer stays in the payload: the next start of the request, after a
reconnection or for the next round of a long connection, carries the last text of the round before.\<close>

theorem start_repeats_text:
  assumes "p_mode (p_conn p) = TypeStreamInputTts" "getRunFlowingSynthesisCommand wr text u p = (cmd, p')"
  shows "\<exists>ps. json_get (fst (start_document rd v p')) ''payload'' = Some (JObject ps) \<and> map_of ps ''text'' = Some (JString text)"
proof -
  have p': "map_of (p_payload (p_text p')) ''text'' = Some (JString text)" "p_mode (p_conn p') = TypeStreamInputTts"
    using assms
    by (auto simp: getRunFlowingSynthesisCommand_def Let_def set_payload_def stamp_header_def named_def set_header_def)
  have "map_of (p_payload (p_text (stamp_header (v 2) (new_task v q)))) = map_of (p_payload (p_text q))" for q
    by (simp add: stamp_header_def set_header_def new_task_def Let_def)
  then have "json_get (fst (base_start v q)) ''payload'' = Some (JObject (p_payload (p_text (stamp_header (v 2) (new_task v q)))))"
    "map_of (p_payload (p_text (stamp_header (v 2) (new_task v q)))) = map_of (p_payload (p_text q))" for q
    by (simp_all add: base_start_def Let_def)
  then show ?thesis
    using p' by (simp add: start_document_def Let_def named_def set_header_def set_payload_def remove_payload_def)
qed

theorem start_repeats_text_witness:
  "\<exists>cmd p' ps. getRunFlowingSynthesisCommand (\<lambda>_. ''doc'') ''hello'' (\<lambda>_. ''m1'') (new_RequestParam 0 TypeStreamInputTts [] 0) = (cmd, p') \<and>
    json_get (fst (start_document (\<lambda>_. None) (\<lambda>_. ''t2'') p')) ''payload'' = Some (JObject ps) \<and>
    map_of ps ''text'' = Some (JString ''hello'')"
proof -
  obtain cmd p' where g: "getRunFlowingSynthesisCommand (\<lambda>_. ''doc'') ''hello'' (\<lambda>_. ''m1'')
      (new_RequestParam 0 TypeStreamInputTts [] 0) = (cmd, p')" by force
  have "p_mode (p_conn (new_RequestParam 0 TypeStreamInputTts [] 0)) = TypeStreamInputTts"
    by (simp add: new_RequestParam_def new_INlsRequestParam_def set_header_def)
  from start_repeats_text [OF this g] show ?thesis using g by blast
qed

end
