(* ===== verification/NodeTexts.thy ===== *)
theory NodeTexts
  imports NodeFrames NodeStreams RequestCommands
begin

text \<open>
  What a node says: the commands it queues between two starts belong to one task, and what of the
  reason of a failure reaches the user.
\<close>

section \<open>The task of the commands\<close>

text \<open>What a command queues: nothing, a PING, or a frame with a document of the task \<open>t\<close>. A command the class of
the request does not have is an empty text.\<close>

definition of_task :: "feed \<Rightarrow> string \<Rightarrow> CmdType \<Rightarrow> byte list \<Rightarrow> bool" where
  "of_task y t type bs \<longleftrightarrow> bs = [] \<or> type = CmdSendPing \<and> bs = pingBytes y \<or> bs = textBytes y [] \<or>
     (\<exists>doc. bs = textBytes y (c_string (y_dump y doc)) \<and> doc_task doc = Some (JString t))"

fun queue_all :: "feed \<Rightarrow> (CmdType \<times> string) list \<Rightarrow> Node \<Rightarrow> Node" where
  "queue_all y [] s = s"
| "queue_all y ((type, message) # cs) s = queue_all y cs (addCmdDataBuffer y type message s)"

text \<open>What the text of a command says of the task, and the task afterwards.\<close>

definition says_task :: "writer \<Rightarrow> string \<Rightarrow> string \<Rightarrow> bool" where
  "says_task wr t cmd \<longleftrightarrow> cmd = [] \<or> (\<exists>doc. cmd = wr doc \<and> doc_task doc = Some (JString t))"

lemma bears_says: "bears_task wr p r \<Longrightarrow> says_task wr (p_taskId (p_text p)) (fst r) \<and> p_taskId (p_text (snd r)) = p_taskId (p_text p)"
  by (auto simp: bears_task_def says_task_def)

lemma command_says:
  assumes "type \<notin> {CmdStart, CmdTextDialog}" "command_text y type message s = (cmd, p)"
  shows "(\<forall>c. cmd = Some c \<longrightarrow> says_task (y_dump y) (p_taskId (p_text (nparam s))) c) \<and>
    p_taskId (p_text p) = p_taskId (p_text (nparam s))"
proof -
  let ?t = "p_taskId (p_text (nparam s))" and ?q = "nparam s" and ?wr = "y_dump y" and ?u = "y_uuid y type"
  have stop: "says_task ?wr ?t (fst (getStopCommand ?wr ?u ?q)) \<and> p_taskId (p_text (snd (getStopCommand ?wr ?u ?q))) = ?t"
  proof (cases "p_mode (p_conn ?q) = TypeTts")
    case True
    then show ?thesis by (simp add: getStopCommand_def stop_document_def kept_stop_def says_task_def)
  next
    case False
    then have "bears_task ?wr ?q (getStopCommand ?wr ?u ?q)"
      using commands_keep_task [of ?q ?wr ?u] by blast
    then show ?thesis by (rule bears_says)
  qed
  have wake: "says_task ?wr ?t (fst (getStopWakeWordCommand ?wr ?u ?q)) \<and>
      p_taskId (p_text (snd (getStopWakeWordCommand ?wr ?u ?q))) = ?t"
    using base_stop_task [of ?u "named ''StopWakeWordVerification'' ?q"]
    by (auto simp: getStopWakeWordCommand_def kept_stop_def says_task_def split_beta)
  have run: "says_task ?wr ?t (fst (getRunFlowingSynthesisCommand ?wr message ?u ?q)) \<and>
      p_taskId (p_text (snd (getRunFlowingSynthesisCommand ?wr message ?u ?q))) = ?t"
  proof (cases "p_mode (p_conn ?q) \<in> {TypeStreamInputTts, TypeDashSceopCosyVoiceStreamInputTts}")
    case True
    then have "bears_task ?wr ?q (getRunFlowingSynthesisCommand ?wr message ?u ?q)"
      using commands_keep_task [of ?q ?wr ?u message] by blast
    then show ?thesis by (rule bears_says)
  qed (simp add: getRunFlowingSynthesisCommand_def says_task_def)
  have flush: "says_task ?wr ?t (fst (getFlushFlowingTextCommand (y_json y) ?wr message ?u ?q)) \<and>
      p_taskId (p_text (snd (getFlushFlowingTextCommand (y_json y) ?wr message ?u ?q))) = ?t"
  proof (cases "p_mode (p_conn ?q) = TypeStreamInputTts")
    case True
    then have "bears_task ?wr ?q (getFlushFlowingTextCommand (y_json y) ?wr message ?u ?q)"
      using commands_keep_task [of ?q ?wr ?u message] by blast
    then show ?thesis by (rule bears_says)
  qed (simp add: getFlushFlowingTextCommand_def says_task_def)
  have control: "(\<forall>c. fst (getControlCommand (y_json y) ?wr message ?u ?q) = Some c \<longrightarrow> says_task ?wr ?t c) \<and>
      p_taskId (p_text (snd (getControlCommand (y_json y) ?wr message ?u ?q))) = ?t"
  proof (cases "\<exists>ms. y_json y message = Some (JObject ms)")
    case True
    then obtain ms c q where "getControlCommand (y_json y) ?wr message ?u ?q = (Some c, q)" "bears_task ?wr ?q (c, q)"
      using commands_keep_task [of ?q ?wr ?u message "y_json y"] by metis
    then show ?thesis using bears_says [of ?wr ?q "(c, q)"] by simp
  next
    case False
    then obtain code where c: "parse_object (y_json y) message = Inl code"
      by (cases "parse_object (y_json y) message") (auto simp: parse_object_def split: option.splits json.splits)
    then have "base_control (y_json y) message ?u p = (None, p)" for p by (simp add: base_control_def)
    then show ?thesis by (simp add: getControlCommand_def Let_def)
  qed
  have "(\<forall>c. fst (command_text y type message s) = Some c \<longrightarrow> says_task ?wr ?t c) \<and>
      p_taskId (p_text (snd (command_text y type message s))) = ?t"
    using assms(1) stop wake run flush control by (cases type) (simp_all add: command_text_def Let_def split_beta)
  then show ?thesis by (simp add: assms(2))
qed

lemma start_says:
  assumes "command_text y CmdStart message s = (cmd, p)"
  shows "\<exists>doc. cmd = Some (y_dump y doc) \<and> doc_task doc = Some (JString (p_taskId (p_text p)))"
proof -
  obtain c q where c: "start_command y s = (c, q)" by force
  obtain again r where again: "start_command y s =
      (let (cmd, p) = getStartCommand (y_json y) (y_dump y) (y_uuid y CmdStart) r
       in (cmd, if again then remove_payload ''tw_index_offset'' (remove_payload ''tw_time_offset'' p) else p))"
    unfolding start_command_def Let_def by blast
  obtain c' q' where r: "getStartCommand (y_json y) (y_dump y) (y_uuid y CmdStart) r = (c', q')" by force
  then have q': "c' = c" "p_taskId (p_text q) = p_taskId (p_text q')"
    using c by (auto simp: again)
  obtain doc d where d: "start_document (y_json y) (y_uuid y CmdStart) r = (doc, d)" by force
  have "cmd = Some c" "p = q" using assms by (auto simp: command_text_def c)
  then show ?thesis
    using r q' start_document_task [of "y_json y" "y_uuid y CmdStart" r] by (auto simp: getStartCommand_def d)
qed

lemma queue_task:
  assumes "hasRequest s" "type \<notin> {CmdStart, CmdTextDialog}"
  shows "\<exists>bs. cmdEvBuffer (addCmdDataBuffer y type message s) = cmdEvBuffer s @ bs \<and>
      of_task y (p_taskId (p_text (nparam s))) type bs" "hasRequest (addCmdDataBuffer y type message s)"
    "p_taskId (p_text (nparam (addCmdDataBuffer y type message s))) = p_taskId (p_text (nparam s))"
proof -
  obtain cmd p where c: "command_text y type message s = (cmd, p)" by force
  note says = command_says [OF assms(2) c]
  show "\<exists>bs. cmdEvBuffer (addCmdDataBuffer y type message s) = cmdEvBuffer s @ bs \<and>
      of_task y (p_taskId (p_text (nparam s))) type bs"
    using assms says
    by (cases cmd) (auto simp: addCmdDataBuffer_def c of_task_def says_task_def c_string_def Let_def)
  show "hasRequest (addCmdDataBuffer y type message s)"
    using assms(1) by (cases cmd) (simp_all add: addCmdDataBuffer_def c Let_def)
  show "p_taskId (p_text (nparam (addCmdDataBuffer y type message s))) = p_taskId (p_text (nparam s))"
    using says by (cases cmd) (simp_all add: addCmdDataBuffer_def c Let_def)
qed

lemma queue_all_task:
  assumes "hasRequest s" "\<forall>c\<in>set cs. fst c \<notin> {CmdStart, CmdTextDialog}"
  shows "\<exists>bss. cmdEvBuffer (queue_all y cs s) = cmdEvBuffer s @ concat bss \<and>
      list_all2 (\<lambda>c bs. of_task y (p_taskId (p_text (nparam s))) (fst c) bs) cs bss \<and>
      p_taskId (p_text (nparam (queue_all y cs s))) = p_taskId (p_text (nparam s))"
  using assms
proof (induction cs arbitrary: s)
  case (Cons c cs)
  obtain type message where c: "c = (type, message)" by force
  define u where "u = addCmdDataBuffer y type message s"
  have t: "type \<notin> {CmdStart, CmdTextDialog}" using Cons.prems(2) by (simp add: c)
  obtain bs where bs: "cmdEvBuffer u = cmdEvBuffer s @ bs" "of_task y (p_taskId (p_text (nparam s))) type bs"
    "hasRequest u" "p_taskId (p_text (nparam u)) = p_taskId (p_text (nparam s))"
    using queue_task [OF Cons.prems(1) t] unfolding u_def by blast
  obtain bss where "cmdEvBuffer (queue_all y cs u) = cmdEvBuffer u @ concat bss"
    "list_all2 (\<lambda>c bs. of_task y (p_taskId (p_text (nparam u))) (fst c) bs) cs bss"
    "p_taskId (p_text (nparam (queue_all y cs u))) = p_taskId (p_text (nparam u))"
    using Cons.IH [OF bs(3)] Cons.prems(2) by auto
  then show ?case
    using bs by (intro exI [of _ "bs # bss"]) (simp add: c u_def [symmetric])
qed simp



section \<open>The reason of a failure\<close>

lemma handlerEvent_says:
  assumes "plain s"
  shows "told (handlerEvent x msg code ty s) = told s @
    [new_NlsEvent (if ty = Close \<or> ty = TaskFailed then replenishNodeProcess x msg else msg) code ty
      (p_taskId (p_text (nparam s)))]"
proof -
  define u where "u = (if code \<noteq> CloseCode then s\<lparr>nodeErrCode := code\<rparr> else s)"
  have u: "plain u" "told u = told s" using assms by (simp_all add: u_def plain_def told_def)
  define ev where "ev = new_NlsEvent (if ty = Close \<or> ty = TaskFailed then replenishNodeProcess x msg else msg) code ty
      (p_taskId (p_text (nparam s)))"
  have "handlerEvent x msg code ty s = (if ty = Close then (snd (handlerFrame x ev u))\<lparr>workStatus := NodeClosed\<rparr>
      else snd (handlerFrame x ev u))"
    using assms unfolding plain_def by (simp add: handlerEvent_def u_def ev_def Let_def)
  moreover have "told (snd (handlerFrame x ev u)) = told s @ [ev]"
    using handlerFrame_tells [OF u(1), of x ev] u(2) by simp
  ultimately have "told (handlerEvent x msg code ty s) = told s @ [ev]" by (simp add: told_def)
  then show ?thesis by (simp only: ev_def)
qed

text \<open>C35: the reason of a failure is put between quotes as it is and cut off after 1022 characters; when the
result is not JSON, because the reason has a quote in it or is too long, the user is told of the
failure, with its code, but without any text.\<close>

theorem failure_reason_lost:
  assumes "plain s" "info \<noteq> []" "x_json x (take 1022 (''{\"TaskFailed\":\"'' @ c_string info @ ''\"}'')) = None"
  shows "\<exists>c. told (handlerTaskFailedEvent x info code s) = told s @
      [new_NlsEvent [] (if code = DefaultErrorCode then getErrorCodeFromMsg x info else code) TaskFailed
         (p_taskId (p_text (nparam s))), c] \<and> ev_type c = Close"
proof -
  let ?m = "take 1022 (''{\"TaskFailed\":\"'' @ c_string info @ ''\"}'')"
  let ?c = "if code = DefaultErrorCode then getErrorCodeFromMsg x info else code"
  define u where "u = handlerEvent x ?m ?c TaskFailed s"
  have "replenishNodeProcess x ?m = []" using assms(3) by (simp add: replenishNodeProcess_def)
  then have "told u = told s @ [new_NlsEvent [] ?c TaskFailed (p_taskId (p_text (nparam s)))]"
    using handlerEvent_says [OF assms(1), of x ?m ?c TaskFailed] by (simp add: u_def)
  moreover have "plain u" unfolding u_def by (rule handlerEvent_tells(2) [OF assms(1)]) simp
  moreover have "handlerTaskFailedEvent x info code s = handlerEvent x (genCloseMsg x u) CloseCode Close u"
    using assms(2) unfolding handlerTaskFailedEvent_def u_def Let_def by simp
  ultimately show ?thesis
    using handlerEvent_says [of u x "genCloseMsg x u" CloseCode Close] by (simp add: new_NlsEvent_def)
qed

theorem failure_reason_lost_witness:
  "\<exists>c. told (handlerTaskFailedEvent ex_outside ''the \"host\" is unknown'' SysConnectFailed ex_starting) =
      [new_NlsEvent [] SysConnectFailed TaskFailed (p_taskId (p_text ex_task)), c] \<and> ev_type c = Close"
proof -
  have "plain ex_starting" "told ex_starting = []" "nparam ex_starting = ex_task"
    by (simp_all add: plain_def told_def ex_starting_eq ex_invoked_eq)
  moreover have "x_json ex_outside (take 1022 (''{\"TaskFailed\":\"'' @ c_string ''the \"host\" is unknown'' @ ''\"}'')) = None"
    by (simp add: ex_outside_def ex_json_def ex_done_def c_string_def)
  ultimately show ?thesis
    using failure_reason_lost [of ex_starting "''the \"host\" is unknown''" ex_outside SysConnectFailed] by simp
qed

end
