(* ===== verification/RequestClasses.thy ===== *)
theory RequestClasses
  imports RequestCommands NlsEvents
begin

text \<open>
  The classes of requests (\<open>framework/feature/*/*Request.cpp\<close>): the setters a user calls, which check their
  arguments and pass them on to the parameters, and the registration of the user's callbacks.
\<close>

section \<open>Outcomes\<close>

text \<open>A method returns a code, or it makes a string of a null pointer or has no value to return (\<open>Fatal\<close>), or the
class does not have it. Methods without a result return 0 here. A string is \<open>None\<close> for a null pointer.\<close>

datatype outcome = Returns int INlsRequestParam | Fatal | NoMethod

definition returns :: "(INlsRequestParam \<Rightarrow> INlsRequestParam) \<Rightarrow> INlsRequestParam \<Rightarrow> outcome" where
  "returns f p = Returns Success (f p)"

definition result :: "int \<times> INlsRequestParam \<Rightarrow> outcome" where
  "result r = Returns (fst r) (snd r)"

text \<open>\<open>INPUT_PARAM_STRING_CHECK\<close>; and a string that is not checked.\<close>

definition with_check :: "string option \<Rightarrow> (string \<Rightarrow> INlsRequestParam \<Rightarrow> outcome) \<Rightarrow> INlsRequestParam \<Rightarrow> outcome" where
  "with_check v f p = (case v of None \<Rightarrow> Returns (- InvalidInputParam) p | Some t \<Rightarrow> f t p)"

definition without_check :: "string option \<Rightarrow> (string \<Rightarrow> INlsRequestParam \<Rightarrow> outcome) \<Rightarrow> INlsRequestParam \<Rightarrow> outcome" where
  "without_check v f p = (case v of None \<Rightarrow> Fatal | Some t \<Rightarrow> f t p)"

definition appends :: "string option \<Rightarrow> string option \<Rightarrow> INlsRequestParam \<Rightarrow> outcome" where
  "appends k v p =
    (case (k, v) of (Some k, Some v) \<Rightarrow> returns (AppendHttpHeader k v) p | _ \<Rightarrow> Returns (- InvalidInputParam) p)"

section \<open>Setters\<close>

text \<open>The methods of all classes.\<close>

datatype request_call =
    Call_setPayloadParam "string option"
  | Call_setContextParam "string option"
  | Call_setToken "string option"
  | Call_setTokenExpirationTime u64
  | Call_setUrl "string option"
  | Call_setAppKey "string option"
  | Call_setFormat "string option"
  | Call_setSampleRate int
  | Call_setIntermediateResult bool
  | Call_setPunctuationPrediction bool
  | Call_setInverseTextNormalization bool
  | Call_setEnableVoiceDetection bool
  | Call_setMaxStartSilence int
  | Call_setMaxEndSilence int
  | Call_AppendHttpHeaderParam "string option" "string option"
  | Call_setCustomizationId "string option"
  | Call_setVocabularyId "string option"
  | Call_setTimeout int
  | Call_setEnableRecvTimeout bool
  | Call_setRecvTimeout int
  | Call_setSendTimeout int
  | Call_setOutputFormat "string option"
  | Call_setEnableOnMessage bool
  | Call_setEnableContinued bool
  | Call_setTaskId "string option"
  | Call_setAudioAddress "string option"
  | Call_setSemanticSentenceDetection bool
  | Call_setMaxSentenceSilence int
  | Call_setNlpModel "string option"
  | Call_setEnableNlp bool
  | Call_setSessionId "string option"
  | Call_setEnableWords bool
  | Call_setEnableIgnoreSentenceTimeout bool
  | Call_setDisfluency bool
  | Call_setSpeechNoiseThreshold double
  | Call_setText "string option"
  | Call_setMethod int
  | Call_setPitchRate int
  | Call_setEnableSubtitle bool
  | Call_setSpeechRate int
  | Call_setVolume int
  | Call_setVoice "string option"
  | Call_setSingleRoundText "string option"
  | Call_setQueryContext "string option"
  | Call_setQuery "string option"
  | Call_setQueryParams "string option"
  | Call_setWakeWordModel "string option"
  | Call_setWakeWord "string option"
  | Call_setEnableWakeWordVerification bool
  | Call_setEnableMultiGroup bool
  | Call_setAPIKey "string option"
  | Call_setModel "string option"
  | Call_setSemanticPunctuationEnabled bool
  | Call_setMultiThresholdModeEnabled bool
  | Call_setHeartbeat bool
  | Call_setDisfluencyRemovalEnabled bool
  | Call_setLanguageHints "string option"
  | Call_setResources "string option"
  | Call_setSpeechRateFloat double
  | Call_setPitchRateFloat double
  | Call_setSsmlEnabled bool
  | Call_setBitRate int
  | Call_setWordTimestampEnabled bool
  | Call_setSeed int
  | Call_setInstruction "string option"

definition SpeechRecognizerRequest :: "reader \<Rightarrow> request_call \<Rightarrow> INlsRequestParam \<Rightarrow> outcome" where
  "SpeechRecognizerRequest rd call p = (case call of
     Call_setPayloadParam v \<Rightarrow> with_check v (\<lambda>t p. result (setPayloadParam rd t p)) p
   | Call_setContextParam v \<Rightarrow> with_check v (\<lambda>t p. result (setContextParam rd t p)) p
   | Call_setToken v \<Rightarrow> with_check v (\<lambda>v. returns (apply_setting (SetToken v))) p
   | Call_setTokenExpirationTime v \<Rightarrow> returns (apply_setting (SetTokenExpirationTime v)) p
   | Call_setUrl v \<Rightarrow> with_check v (\<lambda>v. returns (apply_setting (SetUrl v))) p
   | Call_setAppKey v \<Rightarrow> with_check v (\<lambda>v. returns (apply_setting (SetAppKey v))) p
   | Call_setFormat v \<Rightarrow> with_check v (\<lambda>v. returns (apply_setting (SetFormat v))) p
   | Call_setSampleRate v \<Rightarrow> returns (apply_setting (SetSampleRate v)) p
   | Call_setIntermediateResult v \<Rightarrow> returns (apply_setting (SetIntermediateResult v)) p
   | Call_setPunctuationPrediction v \<Rightarrow> returns (apply_setting (SetPunctuationPrediction v)) p
   | Call_setInverseTextNormalization v \<Rightarrow> returns (apply_setting (SetTextNormalization v)) p
   | Call_setEnableVoiceDetection v \<Rightarrow> returns (apply_recognizer (SetEnableVoiceDetection v)) p
   | Call_setMaxStartSilence v \<Rightarrow> returns (apply_recognizer (SetMaxStartSilence v)) p
   | Call_setMaxEndSilence v \<Rightarrow> returns (apply_recognizer (SetMaxEndSilence v)) p
   | Call_AppendHttpHeaderParam k v \<Rightarrow> appends k v p
   | Call_setCustomizationId v \<Rightarrow> with_check v (\<lambda>v. returns (apply_setting (SetCustomizationId v))) p
   | Call_setVocabularyId v \<Rightarrow> with_check v (\<lambda>v. returns (apply_setting (SetVocabularyId v))) p
   | Call_setTimeout v \<Rightarrow> returns (apply_setting (SetTimeout v)) p
   | Call_setEnableRecvTimeout v \<Rightarrow> returns (apply_setting (SetEnableRecvTimeout v)) p
   | Call_setRecvTimeout v \<Rightarrow> returns (apply_setting (SetRecvTimeout v)) p
   | Call_setSendTimeout v \<Rightarrow> returns (apply_setting (SetSendTimeout v)) p
   | Call_setOutputFormat v \<Rightarrow> with_check v (\<lambda>v. returns (apply_setting (SetOutputFormat v))) p
   | Call_setEnableOnMessage v \<Rightarrow> returns (apply_setting (SetEnableOnMessage v)) p
   | Call_setEnableContinued v \<Rightarrow> returns (apply_setting (SetEnableContinued v)) p
   | Call_setTaskId v \<Rightarrow> without_check v (\<lambda>v. returns (apply_setting (SetTaskId v))) p
   | Call_setAudioAddress v \<Rightarrow> with_check v (\<lambda>v. returns (apply_recognizer (SetAudioAddress v))) p
   | _ \<Rightarrow> NoMethod)"

definition SpeechTranscriberRequest :: "reader \<Rightarrow> request_call \<Rightarrow> INlsRequestParam \<Rightarrow> outcome" where
  "SpeechTranscriberRequest rd call p = (case call of
     Call_setPayloadParam v \<Rightarrow> with_check v (\<lambda>t p. result (setPayloadParam rd t p)) p
   | Call_setContextParam v \<Rightarrow> with_check v (\<lambda>t p. result (setContextParam rd t p)) p
   | Call_setToken v \<Rightarrow> with_check v (\<lambda>v. returns (apply_setting (SetToken v))) p
   | Call_setTokenExpirationTime v \<Rightarrow> returns (apply_setting (SetTokenExpirationTime v)) p
   | Call_setUrl v \<Rightarrow> with_check v (\<lambda>v. returns (apply_setting (SetUrl v))) p
   | Call_setAppKey v \<Rightarrow> with_check v (\<lambda>v. returns (apply_setting (SetAppKey v))) p
   | Call_setFormat v \<Rightarrow> with_check v (\<lambda>v. returns (apply_setting (SetFormat v))) p
   | Call_setSampleRate v \<Rightarrow> returns (apply_setting (SetSampleRate v)) p
   | Call_setIntermediateResult v \<Rightarrow> returns (apply_setting (SetIntermediateResult v)) p
   | Call_setPunctuationPrediction v \<Rightarrow> returns (apply_setting (SetPunctuationPrediction v)) p
   | Call_setInverseTextNormalization v \<Rightarrow> returns (apply_setting (SetTextNormalization v)) p
   | Call_AppendHttpHeaderParam k v \<Rightarrow> appends k v p
   | Call_setSemanticSentenceDetection v \<Rightarrow> returns (apply_setting (SetSentenceDetection v)) p
   | Call_setMaxSentenceSilence v \<Rightarrow> returns (apply_transcriber (SetTranscriberSentenceSilence v)) p
   | Call_setCustomizationId v \<Rightarrow> with_check v (\<lambda>v. returns (apply_setting (SetCustomizationId v))) p
   | Call_setVocabularyId v \<Rightarrow> with_check v (\<lambda>v. returns (apply_setting (SetVocabularyId v))) p
   | Call_setTimeout v \<Rightarrow> returns (apply_setting (SetTimeout v)) p
   | Call_setEnableRecvTimeout v \<Rightarrow> returns (apply_setting (SetEnableRecvTimeout v)) p
   | Call_setRecvTimeout v \<Rightarrow> returns (apply_setting (SetRecvTimeout v)) p
   | Call_setSendTimeout v \<Rightarrow> returns (apply_setting (SetSendTimeout v)) p
   | Call_setOutputFormat v \<Rightarrow> with_check v (\<lambda>v. returns (apply_setting (SetOutputFormat v))) p
   | Call_setEnableOnMessage v \<Rightarrow> returns (apply_setting (SetEnableOnMessage v)) p
   | Call_setEnableContinued v \<Rightarrow> returns (apply_setting (SetEnableContinued v)) p
   | Call_setTaskId v \<Rightarrow> without_check v (\<lambda>v. returns (apply_setting (SetTaskId v))) p
   | Call_setNlpModel v \<Rightarrow> with_check v (\<lambda>v. returns (apply_transcriber (SetNlpModel v))) p
   | Call_setEnableNlp v \<Rightarrow> returns (apply_transcriber (SetEnableNlp v)) p
   | Call_setSessionId v \<Rightarrow> with_check v (\<lambda>v. returns (apply_setting (SetSessionId v))) p
   | Call_setEnableWords v \<Rightarrow> returns (apply_transcriber (SetEnableWords v)) p
   | Call_setEnableIgnoreSentenceTimeout v \<Rightarrow> returns (apply_transcriber (SetEnableIgnoreSentenceTimeout v)) p
   | Call_setDisfluency v \<Rightarrow> returns (apply_transcriber (SetDisfluency v)) p
   | Call_setSpeechNoiseThreshold v \<Rightarrow> returns (apply_transcriber (SetSpeechNoiseThreshold v)) p
   | _ \<Rightarrow> NoMethod)"

definition SpeechSynthesizerRequest :: "reader \<Rightarrow> request_call \<Rightarrow> INlsRequestParam \<Rightarrow> outcome" where
  "SpeechSynthesizerRequest rd call p = (case call of
     Call_setPayloadParam v \<Rightarrow> with_check v (\<lambda>t p. result (setPayloadParam rd t p)) p
   | Call_setContextParam v \<Rightarrow> with_check v (\<lambda>t p. result (setContextParam rd t p)) p
   | Call_setUrl v \<Rightarrow> with_check v (\<lambda>v. returns (apply_setting (SetUrl v))) p
   | Call_setAppKey v \<Rightarrow> with_check v (\<lambda>v. returns (apply_setting (SetAppKey v))) p
   | Call_setToken v \<Rightarrow> with_check v (\<lambda>v. returns (apply_setting (SetToken v))) p
   | Call_setTokenExpirationTime v \<Rightarrow> returns (apply_setting (SetTokenExpirationTime v)) p
   | Call_setFormat v \<Rightarrow> with_check v (\<lambda>v. returns (apply_setting (SetFormat v))) p
   | Call_setSampleRate v \<Rightarrow> returns (apply_setting (SetSampleRate v)) p
   | Call_setText v \<Rightarrow> with_check v (\<lambda>v. returns (apply_synthesizer (SetText v))) p
   | Call_setMethod v \<Rightarrow> returns (apply_synthesizer (SetMethod v)) p
   | Call_setPitchRate v \<Rightarrow> returns (apply_synthesizer (SetPitchRate v)) p
   | Call_setEnableSubtitle v \<Rightarrow> returns (apply_synthesizer (SetEnableSubtitle v)) p
   | Call_setSpeechRate v \<Rightarrow> returns (apply_synthesizer (SetSpeechRate v)) p
   | Call_setVolume v \<Rightarrow> returns (apply_synthesizer (SetVolume v)) p
   | Call_setVoice v \<Rightarrow> with_check v (\<lambda>v. returns (apply_setting (SetVoice v))) p
   | Call_setTimeout v \<Rightarrow> returns (apply_setting (SetTimeout v)) p
   | Call_setRecvTimeout v \<Rightarrow> returns (apply_setting (SetRecvTimeout v)) p
   | Call_setSendTimeout v \<Rightarrow> returns (apply_setting (SetSendTimeout v)) p
   | Call_setOutputFormat v \<Rightarrow> with_check v (\<lambda>v. returns (apply_setting (SetOutputFormat v))) p
   | Call_setEnableOnMessage v \<Rightarrow> returns (apply_setting (SetEnableOnMessage v)) p
   | Call_setEnableContinued v \<Rightarrow> returns (apply_setting (SetEnableContinued v)) p
   | Call_setTaskId v \<Rightarrow> without_check v (\<lambda>v. returns (apply_setting (SetTaskId v))) p
   | Call_AppendHttpHeaderParam k v \<Rightarrow> appends k v p
   | _ \<Rightarrow> NoMethod)"

definition FlowingSynthesizerRequest :: "reader \<Rightarrow> request_call \<Rightarrow> INlsRequestParam \<Rightarrow> outcome" where
  "FlowingSynthesizerRequest rd call p = (case call of
     Call_setPayloadParam v \<Rightarrow> with_check v (\<lambda>t p. result (setPayloadParam rd t p)) p
   | Call_setContextParam v \<Rightarrow> with_check v (\<lambda>t p. result (setContextParam rd t p)) p
   | Call_setUrl v \<Rightarrow> with_check v (\<lambda>v. returns (apply_setting (SetUrl v))) p
   | Call_setAppKey v \<Rightarrow> with_check v (\<lambda>v. returns (apply_setting (SetAppKey v))) p
   | Call_setToken v \<Rightarrow> with_check v (\<lambda>v. returns (apply_setting (SetToken v))) p
   | Call_setTokenExpirationTime v \<Rightarrow> returns (apply_setting (SetTokenExpirationTime v)) p
   | Call_setFormat v \<Rightarrow> with_check v (\<lambda>v. returns (apply_setting (SetFormat v))) p
   | Call_setSampleRate v \<Rightarrow> returns (apply_setting (SetSampleRate v)) p
   | Call_setPitchRate v \<Rightarrow> returns (apply_flowing (SetFlowingPitchRate v)) p
   | Call_setEnableSubtitle v \<Rightarrow> returns (apply_flowing (SetFlowingSubtitle v)) p
   | Call_setSpeechRate v \<Rightarrow> returns (apply_flowing (SetFlowingSpeechRate v)) p
   | Call_setVolume v \<Rightarrow> returns (apply_flowing (SetFlowingVolume v)) p
   | Call_setVoice v \<Rightarrow> with_check v (\<lambda>v. returns (apply_setting (SetVoice v))) p
   | Call_setSingleRoundText v \<Rightarrow> with_check v (\<lambda>t p. result (setSingleRoundText t p)) p
   | Call_setTimeout v \<Rightarrow> returns (apply_setting (SetTimeout v)) p
   | Call_setRecvTimeout v \<Rightarrow> returns (apply_setting (SetRecvTimeout v)) p
   | Call_setSendTimeout v \<Rightarrow> returns (apply_setting (SetSendTimeout v)) p
   | Call_setOutputFormat v \<Rightarrow> with_check v (\<lambda>v. returns (apply_setting (SetOutputFormat v))) p
   | Call_setEnableOnMessage v \<Rightarrow> returns (apply_setting (SetEnableOnMessage v)) p
   | Call_setEnableContinued v \<Rightarrow> returns (apply_setting (SetEnableContinued v)) p
   | Call_setTaskId v \<Rightarrow> without_check v (\<lambda>v. returns (apply_setting (SetTaskId v))) p
   | Call_AppendHttpHeaderParam k v \<Rightarrow> appends k v p
   | _ \<Rightarrow> NoMethod)"

definition DialogAssistantRequest :: "reader \<Rightarrow> request_call \<Rightarrow> INlsRequestParam \<Rightarrow> outcome" where
  "DialogAssistantRequest rd call p = (case call of
     Call_setPayloadParam v \<Rightarrow> with_check v (\<lambda>t p. result (setPayloadParam rd t p)) p
   | Call_setContextParam v \<Rightarrow> with_check v (\<lambda>t p. result (setContextParam rd t p)) p
   | Call_setToken v \<Rightarrow> with_check v (\<lambda>v. returns (apply_setting (SetToken v))) p
   | Call_setTokenExpirationTime v \<Rightarrow> returns (apply_setting (SetTokenExpirationTime v)) p
   | Call_setUrl v \<Rightarrow> with_check v (\<lambda>v. returns (apply_setting (SetUrl v))) p
   | Call_setAppKey v \<Rightarrow> with_check v (\<lambda>v. returns (apply_setting (SetAppKey v))) p
   | Call_setFormat v \<Rightarrow> with_check v (\<lambda>v. returns (apply_setting (SetFormat v))) p
   | Call_setSampleRate v \<Rightarrow> returns (apply_setting (SetSampleRate v)) p
   | Call_setTimeout v \<Rightarrow> returns (apply_setting (SetTimeout v)) p
   | Call_setRecvTimeout v \<Rightarrow> returns (apply_setting (SetRecvTimeout v)) p
   | Call_setSendTimeout v \<Rightarrow> returns (apply_setting (SetSendTimeout v)) p
   | Call_setOutputFormat v \<Rightarrow> with_check v (\<lambda>v. returns (apply_setting (SetOutputFormat v))) p
   | Call_setSessionId v \<Rightarrow> without_check v (\<lambda>v. returns (apply_setting (SetSessionId v))) p
   | Call_setTaskId v \<Rightarrow> without_check v (\<lambda>v. returns (apply_setting (SetTaskId v))) p
   | Call_setQueryContext v \<Rightarrow> without_check v (\<lambda>v. returns (apply_dialog (SetQueryContext v))) p
   | Call_setQuery v \<Rightarrow> without_check v (\<lambda>v. returns (apply_dialog (SetQuery v))) p
   | Call_setQueryParams v \<Rightarrow> without_check v (\<lambda>t p. result (setQueryParams rd t p)) p
   | Call_AppendHttpHeaderParam k v \<Rightarrow> appends k v p
   | Call_setWakeWordModel v \<Rightarrow> without_check v (\<lambda>v. returns (apply_dialog (SetWakeWordModel v))) p
   | Call_setWakeWord v \<Rightarrow> without_check v (\<lambda>v. returns (apply_dialog (SetWakeWord v))) p
   | Call_setEnableWakeWordVerification v \<Rightarrow> returns (apply_setting (SetEnableWakeWordVerification v)) p
   | Call_setEnableMultiGroup v \<Rightarrow> returns (apply_dialog (SetEnableMultiGroup v)) p
   | _ \<Rightarrow> NoMethod)"

definition DashFunAsrTranscriberRequest :: "reader \<Rightarrow> request_call \<Rightarrow> INlsRequestParam \<Rightarrow> outcome" where
  "DashFunAsrTranscriberRequest rd call p = (case call of
     Call_setPayloadParam v \<Rightarrow> with_check v (\<lambda>t p. result (setPayloadParam rd t p)) p
   | Call_setUrl v \<Rightarrow> with_check v (\<lambda>v. returns (apply_setting (SetUrl v))) p
   | Call_setAPIKey v \<Rightarrow> with_check v (\<lambda>v. returns (apply_setting (SetAPIKey v))) p
   | Call_setTokenExpirationTime v \<Rightarrow> returns (apply_setting (SetTokenExpirationTime v)) p
   | Call_setModel v \<Rightarrow> with_check v (\<lambda>v. returns (apply_setting (SetModel v))) p
   | Call_setFormat v \<Rightarrow> with_check v (\<lambda>v. returns (apply_setting (SetFormat v))) p
   | Call_setSampleRate v \<Rightarrow> returns (apply_setting (SetSampleRate v)) p
   | Call_setVocabularyId v \<Rightarrow> with_check v (\<lambda>v. returns (apply_setting (SetVocabularyId v))) p
   | Call_setSemanticPunctuationEnabled v \<Rightarrow> returns (apply_setting (SetSemanticPunctuationEnabled v)) p
   | Call_setMaxSentenceSilence v \<Rightarrow> returns (apply_setting (SetMaxSentenceSilence v)) p
   | Call_setMultiThresholdModeEnabled v \<Rightarrow> returns (apply_setting (SetMultiThresholdModeEnabled v)) p
   | Call_setHeartbeat v \<Rightarrow> returns (apply_setting (SetHeartbeat v)) p
   | Call_setTimeout v \<Rightarrow> returns (apply_setting (SetTimeout v)) p
   | Call_setEnableRecvTimeout v \<Rightarrow> returns (apply_setting (SetEnableRecvTimeout v)) p
   | Call_setRecvTimeout v \<Rightarrow> returns (apply_setting (SetRecvTimeout v)) p
   | Call_setSendTimeout v \<Rightarrow> returns (apply_setting (SetSendTimeout v)) p
   | Call_setOutputFormat v \<Rightarrow> with_check v (\<lambda>v. returns (apply_setting (SetOutputFormat v))) p
   | Call_setEnableOnMessage v \<Rightarrow> returns (apply_setting (SetEnableOnMessage v)) p
   | Call_setEnableContinued v \<Rightarrow> returns (apply_setting (SetEnableContinued v)) p
   | Call_setTaskId v \<Rightarrow> without_check v (\<lambda>v. returns (apply_setting (SetTaskId v))) p
   | _ \<Rightarrow> NoMethod)"

definition DashParaformerTranscriberRequest :: "reader \<Rightarrow> request_call \<Rightarrow> INlsRequestParam \<Rightarrow> outcome" where
  "DashParaformerTranscriberRequest rd call p = (case call of
     Call_setPayloadParam v \<Rightarrow> with_check v (\<lambda>t p. result (setPayloadParam rd t p)) p
   | Call_setUrl v \<Rightarrow> with_check v (\<lambda>v. returns (apply_setting (SetUrl v))) p
   | Call_setAPIKey v \<Rightarrow> with_check v (\<lambda>v. returns (apply_setting (SetAPIKey v))) p
   | Call_setTokenExpirationTime v \<Rightarrow> returns (apply_setting (SetTokenExpirationTime v)) p
   | Call_setModel v \<Rightarrow> with_check v (\<lambda>v. returns (apply_setting (SetModel v))) p
   | Call_setFormat v \<Rightarrow> with_check v (\<lambda>v. returns (apply_setting (SetFormat v))) p
   | Call_setSampleRate v \<Rightarrow> returns (apply_setting (SetSampleRate v)) p
   | Call_setVocabularyId v \<Rightarrow> with_check v (\<lambda>v. returns (apply_setting (SetVocabularyId v))) p
   | Call_setDisfluencyRemovalEnabled v \<Rightarrow> returns (apply_paraformer (SetDisfluencyRemovalEnabled v)) p
   | Call_setLanguageHints v \<Rightarrow> with_check v (\<lambda>v. returns (apply_paraformer (SetParaformerLanguageHints v))) p
   | Call_setSemanticPunctuationEnabled v \<Rightarrow> returns (apply_setting (SetSemanticPunctuationEnabled v)) p
   | Call_setMaxSentenceSilence v \<Rightarrow> returns (apply_setting (SetMaxSentenceSilence v)) p
   | Call_setMultiThresholdModeEnabled v \<Rightarrow> returns (apply_setting (SetMultiThresholdModeEnabled v)) p
   | Call_setPunctuationPrediction v \<Rightarrow> returns (apply_setting (SetPunctuationPrediction v)) p
   | Call_setHeartbeat v \<Rightarrow> returns (apply_setting (SetHeartbeat v)) p
   | Call_setInverseTextNormalization v \<Rightarrow> returns (apply_setting (SetTextNormalization v)) p
   | Call_setResources v \<Rightarrow> with_check v (\<lambda>v. returns (apply_paraformer (SetResources v))) p
   | Call_setTimeout v \<Rightarrow> returns (apply_setting (SetTimeout v)) p
   | Call_setEnableRecvTimeout v \<Rightarrow> returns (apply_setting (SetEnableRecvTimeout v)) p
   | Call_setRecvTimeout v \<Rightarrow> returns (apply_setting (SetRecvTimeout v)) p
   | Call_setSendTimeout v \<Rightarrow> returns (apply_setting (SetSendTimeout v)) p
   | Call_setOutputFormat v \<Rightarrow> with_check v (\<lambda>v. returns (apply_setting (SetOutputFormat v))) p
   | Call_setEnableOnMessage v \<Rightarrow> returns (apply_setting (SetEnableOnMessage v)) p
   | Call_setEnableContinued v \<Rightarrow> returns (apply_setting (SetEnableContinued v)) p
   | Call_setTaskId v \<Rightarrow> without_check v (\<lambda>v. returns (apply_setting (SetTaskId v))) p
   | _ \<Rightarrow> NoMethod)"

definition DashCosyVoiceSynthesizerRequest :: "reader \<Rightarrow> request_call \<Rightarrow> INlsRequestParam \<Rightarrow> outcome" where
  "DashCosyVoiceSynthesizerRequest rd call p = (case call of
     Call_setPayloadParam v \<Rightarrow> with_check v (\<lambda>t p. result (setPayloadParam rd t p)) p
   | Call_setContextParam v \<Rightarrow> with_check v (\<lambda>t p. result (setContextParam rd t p)) p
   | Call_setUrl v \<Rightarrow> with_check v (\<lambda>v. returns (apply_setting (SetUrl v))) p
   | Call_setAPIKey v \<Rightarrow> with_check v (\<lambda>v. returns (apply_setting (SetAPIKey v))) p
   | Call_setTokenExpirationTime v \<Rightarrow> returns (apply_setting (SetTokenExpirationTime v)) p
   | Call_setModel v \<Rightarrow> with_check v (\<lambda>v. returns (apply_setting (SetModel v))) p
   | Call_setVoice v \<Rightarrow> with_check v (\<lambda>v. returns (apply_setting (SetVoice v))) p
   | Call_setFormat v \<Rightarrow> with_check v (\<lambda>v. returns (apply_setting (SetFormat v))) p
   | Call_setSampleRate v \<Rightarrow> returns (apply_setting (SetSampleRate v)) p
   | Call_setVolume v \<Rightarrow> returns (apply_cosyvoice (SetCosyVolume v)) p
   | Call_setSpeechRateFloat v \<Rightarrow> returns (apply_cosyvoice (SetCosySpeechRate v)) p
   | Call_setPitchRateFloat v \<Rightarrow> returns (apply_cosyvoice (SetCosyPitchRate v)) p
   | Call_setSsmlEnabled v \<Rightarrow> returns (apply_setting (SetSsmlEnabled v)) p
   | Call_setBitRate n \<Rightarrow> Fatal
   | Call_setWordTimestampEnabled v \<Rightarrow> returns (apply_setting (SetWordTimestampEnabled v)) p
   | Call_setSeed v \<Rightarrow> returns (apply_cosyvoice (SetSeed v)) p
   | Call_setLanguageHints v \<Rightarrow> with_check v (\<lambda>v. returns (apply_cosyvoice (SetCosyLanguageHints v))) p
   | Call_setInstruction v \<Rightarrow> with_check v (\<lambda>v. returns (apply_cosyvoice (SetInstruction v))) p
   | Call_setSingleRoundText v \<Rightarrow> with_check v (\<lambda>t p. result (setSingleRoundText t p)) p
   | Call_setTimeout v \<Rightarrow> returns (apply_setting (SetTimeout v)) p
   | Call_setRecvTimeout v \<Rightarrow> returns (apply_setting (SetRecvTimeout v)) p
   | Call_setSendTimeout v \<Rightarrow> returns (apply_setting (SetSendTimeout v)) p
   | Call_setOutputFormat v \<Rightarrow> with_check v (\<lambda>v. returns (apply_setting (SetOutputFormat v))) p
   | Call_setEnableOnMessage v \<Rightarrow> returns (apply_setting (SetEnableOnMessage v)) p
   | Call_setEnableContinued v \<Rightarrow> returns (apply_setting (SetEnableContinued v)) p
   | Call_setTaskId v \<Rightarrow> without_check v (\<lambda>v. returns (apply_setting (SetTaskId v))) p
   | Call_AppendHttpHeaderParam k v \<Rightarrow> appends k v p
   | _ \<Rightarrow> NoMethod)"

text \<open>The class of a request is given by its mode.\<close>

definition request_set :: "reader \<Rightarrow> request_call \<Rightarrow> INlsRequestParam \<Rightarrow> outcome" where
  "request_set rd call p =
    (case p_mode (p_conn p) of
       TypeAsr \<Rightarrow> SpeechRecognizerRequest rd call p
     | TypeRealTime \<Rightarrow> SpeechTranscriberRequest rd call p
     | TypeTts \<Rightarrow> SpeechSynthesizerRequest rd call p
     | TypeStreamInputTts \<Rightarrow> FlowingSynthesizerRequest rd call p
     | TypeDialog \<Rightarrow> DialogAssistantRequest rd call p
     | TypeDashScopeFunAsrRealTime \<Rightarrow> DashFunAsrTranscriberRequest rd call p
     | TypeDashScopeParaformerRealTime \<Rightarrow> DashParaformerTranscriberRequest rd call p
     | TypeDashSceopCosyVoiceStreamInputTts \<Rightarrow> DashCosyVoiceSynthesizerRequest rd call p
     | _ \<Rightarrow> NoMethod)"

lemmas class_defs = SpeechRecognizerRequest_def SpeechTranscriberRequest_def SpeechSynthesizerRequest_def
  FlowingSynthesizerRequest_def DialogAssistantRequest_def DashFunAsrTranscriberRequest_def
  DashParaformerTranscriberRequest_def DashCosyVoiceSynthesizerRequest_def

text \<open>A setter does nothing, with an error, or one step of the parameters.\<close>

definition one_step :: "INlsRequestParam \<Rightarrow> outcome \<Rightarrow> bool" where
  "one_step p r = (case r of Returns ret q \<Rightarrow> ret = Success \<and> param_step p q \<or> ret < 0 \<and> q = p | _ \<Rightarrow> True)"

lemma one_step_other [simp]: "one_step p Fatal" "one_step p NoMethod"
  by (simp_all add: one_step_def)

lemma one_step_returns: "param_step p (f p) \<Longrightarrow> one_step p (returns f p)"
  by (simp add: one_step_def returns_def)

lemma one_step_result:
  "fst r = Success \<and> param_step p (snd r) \<or> fst r < 0 \<and> snd r = p \<Longrightarrow> one_step p (result r)"
  by (simp add: one_step_def result_def)

lemma one_step_settings [simp]:
  "one_step p (returns (apply_setting st) p)" "one_step p (returns (apply_recognizer a) p)"
  "one_step p (returns (apply_transcriber b) p)" "one_step p (returns (apply_synthesizer c) p)"
  "one_step p (returns (apply_flowing d) p)" "one_step p (returns (apply_dialog e) p)"
  "one_step p (returns (apply_paraformer g) p)" "one_step p (returns (apply_cosyvoice h) p)"
  by (rule one_step_returns, rule param_step.intros)+

lemma one_step_json:
  assumes "reads_ok rd"
  shows "one_step p (result (setPayloadParam rd t p))" "one_step p (result (setContextParam rd t p))"
    "one_step p (result (setQueryParams rd t p))"
proof -
  have e: "parse_object rd u = Inl code \<Longrightarrow> code < 0" for u code
    by (auto simp: parse_object_def split: option.splits json.splits)
  have "fst (setPayloadParam rd t p) = Success \<or> fst (setPayloadParam rd t p) < 0 \<and> snd (setPayloadParam rd t p) = p"
    using e by (auto simp: setPayloadParam_def split: sum.split)
  then show "one_step p (result (setPayloadParam rd t p))"
    using param_payload [OF assms] by (intro one_step_result) blast
  have "fst (setContextParam rd t p) = Success \<or> fst (setContextParam rd t p) < 0 \<and> snd (setContextParam rd t p) = p"
    using e by (auto simp: setContextParam_def split: sum.split)
  then show "one_step p (result (setContextParam rd t p))"
    using param_context [OF assms] by (intro one_step_result) blast
  have "fst (setQueryParams rd t p) = Success \<or> fst (setQueryParams rd t p) < 0 \<and> snd (setQueryParams rd t p) = p"
    using e by (auto simp: setQueryParams_def split: sum.split)
  then show "one_step p (result (setQueryParams rd t p))"
    using param_query [OF assms] by (intro one_step_result) blast
qed

lemma one_step_round [simp]: "one_step p (result (setSingleRoundText t p))"
proof -
  have "fst (setSingleRoundText t p) = Success \<or> fst (setSingleRoundText t p) < 0 \<and> snd (setSingleRoundText t p) = p"
    by (auto simp: setSingleRoundText_def Let_def)
  then show ?thesis using param_round by (intro one_step_result) blast
qed

lemma one_step_checks [simp]:
  "(\<And>t. one_step p (f t p)) \<Longrightarrow> one_step p (with_check v f p)" "(\<And>t. one_step p (f t p)) \<Longrightarrow> one_step p (without_check v f p)"
  "one_step p (appends k v p)"
proof -
  show "(\<And>t. one_step p (f t p)) \<Longrightarrow> one_step p (with_check v f p)"
    by (cases v) (simp_all add: with_check_def one_step_def)
  show "(\<And>t. one_step p (f t p)) \<Longrightarrow> one_step p (without_check v f p)"
    by (cases v) (simp_all add: without_check_def)
  have "one_step p (returns (AppendHttpHeader a b) p)" for a b
    by (rule one_step_returns) (rule param_step.intros)
  then show "one_step p (appends k v p)"
    by (cases k; cases v) (simp_all add: appends_def, simp_all add: one_step_def)
qed

lemma classes_one_step:
  assumes "reads_ok rd"
  shows "one_step p (SpeechRecognizerRequest rd call p)" "one_step p (SpeechTranscriberRequest rd call p)"
    "one_step p (SpeechSynthesizerRequest rd call p)" "one_step p (FlowingSynthesizerRequest rd call p)"
    "one_step p (DialogAssistantRequest rd call p)" "one_step p (DashFunAsrTranscriberRequest rd call p)"
    "one_step p (DashParaformerTranscriberRequest rd call p)" "one_step p (DashCosyVoiceSynthesizerRequest rd call p)"
  unfolding class_defs using one_step_json [OF assms] by (cases call; simp)+



section \<open>Callbacks\<close>

text \<open>A class keeps a method for each event it can be asked to report, and the user's parameters in a map. The
constructors set the methods they list to null; any other holds what the memory held, \<open>garbage\<close>.\<close>

record callback =
  cb_method :: "EventType \<Rightarrow> ptr"
  cb_param :: "EventType \<rightharpoonup> ptr"

definition cleared :: "EventType list \<Rightarrow> (EventType \<Rightarrow> ptr) \<Rightarrow> callback" where
  "cleared types garbage = \<lparr>cb_method = (\<lambda>ty. if ty \<in> set types then NULL else garbage ty), cb_param = Map.empty\<rparr>"

definition SpeechRecognizerCallback :: "(EventType \<Rightarrow> ptr) \<Rightarrow> callback" where
  "SpeechRecognizerCallback = cleared
    [TaskFailed, RecognitionStarted, RecognitionCompleted, RecognitionResultChanged, Close, Message]"

definition SpeechRecognizerCallback_setters :: "EventType list" where
  "SpeechRecognizerCallback_setters =
    [TaskFailed, RecognitionStarted, Message, RecognitionCompleted, RecognitionResultChanged, Close]"

definition SpeechTranscriberCallback :: "(EventType \<Rightarrow> ptr) \<Rightarrow> callback" where
  "SpeechTranscriberCallback = cleared
    [TaskFailed, TranscriptionStarted, SentenceBegin, TranscriptionResultChanged, SentenceEnd,
      TranscriptionCompleted, Close, Message]"

definition SpeechTranscriberCallback_setters :: "EventType list" where
  "SpeechTranscriberCallback_setters =
    [TaskFailed, TranscriptionStarted, SentenceBegin, TranscriptionResultChanged, SentenceEnd,
      SentenceSemantics, Message, TranscriptionCompleted, Close]"

definition SpeechSynthesizerCallback :: "(EventType \<Rightarrow> ptr) \<Rightarrow> callback" where
  "SpeechSynthesizerCallback = cleared
    [TaskFailed, SynthesisStarted, SynthesisCompleted, Close, Binary, Message]"

definition SpeechSynthesizerCallback_setters :: "EventType list" where
  "SpeechSynthesizerCallback_setters =
    [TaskFailed, SynthesisStarted, SynthesisCompleted, Close, Binary, MetaInfo, Message]"

definition FlowingSynthesizerCallback :: "(EventType \<Rightarrow> ptr) \<Rightarrow> callback" where
  "FlowingSynthesizerCallback = cleared
    [TaskFailed, SynthesisStarted, SynthesisCompleted, Close, Binary, SentenceBegin, SentenceEnd,
      SentenceSynthesis, Message]"

definition FlowingSynthesizerCallback_setters :: "EventType list" where
  "FlowingSynthesizerCallback_setters =
    [TaskFailed, SynthesisStarted, SynthesisCompleted, Close, Binary, SentenceBegin, SentenceEnd,
      SentenceSynthesis, Message]"

definition DialogAssistantCallback :: "(EventType \<Rightarrow> ptr) \<Rightarrow> callback" where
  "DialogAssistantCallback = cleared
    [TaskFailed, RecognitionStarted, RecognitionCompleted, DialogResultGenerated, RecognitionResultChanged,
      Close]"

definition DialogAssistantCallback_setters :: "EventType list" where
  "DialogAssistantCallback_setters =
    [TaskFailed, RecognitionStarted, RecognitionCompleted, DialogResultGenerated,
      WakeWordVerificationCompleted, RecognitionResultChanged, Close]"

definition DashFunAsrTranscriberCallback :: "(EventType \<Rightarrow> ptr) \<Rightarrow> callback" where
  "DashFunAsrTranscriberCallback = cleared
    [TaskFailed, TranscriptionStarted, SentenceBegin, TranscriptionResultChanged, SentenceEnd,
      TranscriptionCompleted, Close, Message]"

definition DashFunAsrTranscriberCallback_setters :: "EventType list" where
  "DashFunAsrTranscriberCallback_setters =
    [TaskFailed, TranscriptionStarted, SentenceBegin, TranscriptionResultChanged, SentenceEnd,
      SentenceSemantics, Message, TranscriptionCompleted, Close]"

definition DashParaformerTranscriberCallback :: "(EventType \<Rightarrow> ptr) \<Rightarrow> callback" where
  "DashParaformerTranscriberCallback = cleared
    [TaskFailed, TranscriptionStarted, SentenceBegin, TranscriptionResultChanged, SentenceEnd,
      TranscriptionCompleted, Close, Message]"

definition DashParaformerTranscriberCallback_setters :: "EventType list" where
  "DashParaformerTranscriberCallback_setters =
    [TaskFailed, TranscriptionStarted, SentenceBegin, TranscriptionResultChanged, SentenceEnd,
      SentenceSemantics, Message, TranscriptionCompleted, Close]"

definition DashCosyVoiceSynthesizerCallback :: "(EventType \<Rightarrow> ptr) \<Rightarrow> callback" where
  "DashCosyVoiceSynthesizerCallback = cleared
    [TaskFailed, SynthesisStarted, SynthesisCompleted, Close, Binary, SentenceBegin, SentenceEnd,
      SentenceSynthesis, Message]"

definition DashCosyVoiceSynthesizerCallback_setters :: "EventType list" where
  "DashCosyVoiceSynthesizerCallback_setters =
    [TaskFailed, SynthesisStarted, SynthesisCompleted, Close, Binary, SentenceBegin, SentenceEnd,
      SentenceSynthesis, Message]"

definition new_callback :: "NlsType \<Rightarrow> (EventType \<Rightarrow> ptr) \<Rightarrow> callback" where
  "new_callback mode garbage =
    (case mode of
       TypeAsr \<Rightarrow> SpeechRecognizerCallback garbage
     | TypeRealTime \<Rightarrow> SpeechTranscriberCallback garbage
     | TypeTts \<Rightarrow> SpeechSynthesizerCallback garbage
     | TypeStreamInputTts \<Rightarrow> FlowingSynthesizerCallback garbage
     | TypeDialog \<Rightarrow> DialogAssistantCallback garbage
     | TypeDashScopeFunAsrRealTime \<Rightarrow> DashFunAsrTranscriberCallback garbage
     | TypeDashScopeParaformerRealTime \<Rightarrow> DashParaformerTranscriberCallback garbage
     | TypeDashSceopCosyVoiceStreamInputTts \<Rightarrow> DashCosyVoiceSynthesizerCallback garbage
     | _ \<Rightarrow> cleared [] garbage)"

definition setters :: "NlsType \<Rightarrow> EventType list" where
  "setters mode =
    (case mode of
       TypeAsr \<Rightarrow> SpeechRecognizerCallback_setters
     | TypeRealTime \<Rightarrow> SpeechTranscriberCallback_setters
     | TypeTts \<Rightarrow> SpeechSynthesizerCallback_setters
     | TypeStreamInputTts \<Rightarrow> FlowingSynthesizerCallback_setters
     | TypeDialog \<Rightarrow> DialogAssistantCallback_setters
     | TypeDashScopeFunAsrRealTime \<Rightarrow> DashFunAsrTranscriberCallback_setters
     | TypeDashScopeParaformerRealTime \<Rightarrow> DashParaformerTranscriberCallback_setters
     | TypeDashSceopCosyVoiceStreamInputTts \<Rightarrow> DashCosyVoiceSynthesizerCallback_setters
     | _ \<Rightarrow> [])"

lemmas callback_defs = new_callback_def setters_def cleared_def
  SpeechRecognizerCallback_def SpeechRecognizerCallback_setters_def
  SpeechTranscriberCallback_def SpeechTranscriberCallback_setters_def
  SpeechSynthesizerCallback_def SpeechSynthesizerCallback_setters_def
  FlowingSynthesizerCallback_def FlowingSynthesizerCallback_setters_def
  DialogAssistantCallback_def DialogAssistantCallback_setters_def
  DashFunAsrTranscriberCallback_def DashFunAsrTranscriberCallback_setters_def
  DashParaformerTranscriberCallback_def DashParaformerTranscriberCallback_setters_def
  DashCosyVoiceSynthesizerCallback_def DashCosyVoiceSynthesizerCallback_setters_def

text \<open>\<open>setOn...\<close>: the method, and its parameter.\<close>

definition set_on :: "EventType \<Rightarrow> ptr \<Rightarrow> ptr \<Rightarrow> callback \<Rightarrow> callback" where
  "set_on type event param cb = cb\<lparr>cb_method := (cb_method cb)(type := event), cb_param := (cb_param cb)(type \<mapsto> param)\<rparr>"

fun register :: "(EventType \<times> ptr \<times> ptr) list \<Rightarrow> callback \<Rightarrow> callback" where
  "register [] cb = cb"
| "register ((type, event, param) # rs) cb = register rs (set_on type event param cb)"

definition deliver :: "NlsType \<Rightarrow> callback \<Rightarrow> NlsEvent \<Rightarrow> (ptr \<times> NlsEvent \<times> ptr) option" where
  "deliver mode cb ev = listener mode (cb_method cb) (cb_param cb) ev"

text \<open>A setter exists for each callback of a listener, and for the failures.\<close>

lemma setters_handled: "set (setters mode) = (if setters mode = [] then {} else insert TaskFailed (set (handled mode)))"
  by (cases mode) (auto simp: callback_defs listener_defs)

lemma register_other:
  "ty \<notin> fst ` set rs \<Longrightarrow> cb_method (register rs cb) ty = cb_method cb ty \<and> cb_param (register rs cb) ty = cb_param cb ty"
  by (induction rs cb rule: register.induct) (auto simp: set_on_def)

lemma register_append: "register (rs @ rs') cb = register rs' (register rs cb)"
  by (induction rs cb rule: register.induct) simp_all



text \<open>The callbacks the constructors forget.\<close>

definition forgotten :: "NlsType \<Rightarrow> EventType \<Rightarrow> bool" where
  "forgotten mode ty \<longleftrightarrow>
     mode \<in> {TypeRealTime, TypeDashScopeFunAsrRealTime, TypeDashScopeParaformerRealTime} \<and> ty = SentenceSemantics \<or>
     mode = TypeTts \<and> ty = MetaInfo \<or> mode = TypeDialog \<and> ty = WakeWordVerificationCompleted"

lemma new_callback_method:
  assumes "setters mode \<noteq> []" "ty = TaskFailed \<or> ty \<in> set (handled mode)"
  shows "cb_method (new_callback mode garbage) ty = (if forgotten mode ty then garbage ty else NULL)"
  using assms by (cases mode) (auto simp: callback_defs listener_defs forgotten_def)

text \<open>C34: five of the constructors forget a callback: as long as the user has not set it, an event of its type
calls whatever address the memory held. All other callbacks a user has not set are not called.\<close>

theorem forgotten_callback_called:
  assumes "setters mode \<noteq> []" "callback_of mode (ev_type ev) = ty" "ty \<notin> fst ` set rs"
  shows "deliver mode (register rs (new_callback mode garbage)) ev =
    (if forgotten mode ty \<and> garbage ty \<noteq> NULL then Some (garbage ty, ev, NULL) else None)"
proof -
  have "cb_param (new_callback mode garbage) ty = None"
    by (cases mode) (simp_all add: callback_defs)
  then have p: "cb_param (register rs (new_callback mode garbage)) ty = None"
    using register_other [OF assms(3)] by simp
  have "ty = TaskFailed \<or> ty \<in> set (handled mode)" using assms(2) by (auto simp: callback_of_def split: if_splits)
  then have m: "cb_method (register rs (new_callback mode garbage)) ty = (if forgotten mode ty then garbage ty else NULL)"
    using new_callback_method [OF assms(1)] register_other [OF assms(3)] by simp
  show ?thesis using m p assms(2) by (simp add: deliver_def listener_def Let_def)
qed

theorem forgotten_callback_called_witness:
  "deliver TypeTts (register [(Close, 9, 90)] (new_callback TypeTts (\<lambda>_. 5))) (new_NlsEvent [] 0 MetaInfo []) =
     Some (5, new_NlsEvent [] 0 MetaInfo [], NULL)"
  using forgotten_callback_called [of TypeTts "new_NlsEvent [] 0 MetaInfo []" MetaInfo "[(Close, 9, 90)]" "\<lambda>_. 5"]
  by (simp add: callback_of_def listener_defs setters_def SpeechSynthesizerCallback_setters_def forgotten_def)

end
