(* ===== verification/RequestCalls.thy ===== *)
theory RequestCalls
  imports RequestClasses NodeMachine
begin

text \<open>
  The calls of the request classes that reach the node: what each class does before it hands a call over to
  \<open>INlsRequest\<close> (\<open>framework/feature/*/*Request.cpp\<close>). Together with the setters they are the interface of
  a client; every call is a run of the node's state machine.
\<close>

section \<open>The calls\<close>

datatype client_call = AskSet request_call | AskStart | AskQueryText | AskStop | AskCancel
  | AskAudio bool "byte list" | AskText string | AskFlush string | AskControl string "string option"

text \<open>The type a request has when it starts.\<close>

definition typed :: "NlsRequestType \<Rightarrow> Node \<Rightarrow> Node" where
  "typed r s = s\<lparr>nparam := apply_setting (SetNlsRequestType r) (nparam s)\<rparr>"

definition request_start :: "api \<Rightarrow> Node \<Rightarrow> int \<times> Node" where
  "request_start a s = start a (case p_mode (p_conn (nparam s)) of
     TypeTts \<Rightarrow> typed SpeechSynthesizer s
   | TypeStreamInputTts \<Rightarrow> typed FlowingSynthesizer s
   | TypeDashSceopCosyVoiceStreamInputTts \<Rightarrow> typed FlowingSynthesizer s
   | TypeDialog \<Rightarrow> typed (if enableWakeWord (p_conn (nparam s)) then SpeechWakeWordDialog else SpeechExecuteDialog) s
   | _ \<Rightarrow> s)"

definition queryText :: "api \<Rightarrow> Node \<Rightarrow> int \<times> Node" where
  "queryText a s = start a (typed SpeechTextDialog s)"

text \<open>A synthesizer cannot be stopped.\<close>

definition request_stop :: "outside \<Rightarrow> feed \<Rightarrow> api \<Rightarrow> Node \<Rightarrow> int \<times> Node" where
  "request_stop x y a s = (if p_mode (p_conn (nparam s)) = TypeTts then (Success, s) else stop x y a s)"

definition request_sendText :: "outside \<Rightarrow> feed \<Rightarrow> api \<Rightarrow> string \<Rightarrow> Node \<Rightarrow> int \<times> Node" where
  "request_sendText x y a t s =
    (if MaximumNumberOfWords (p_mode (p_conn (nparam s))) < CharsCalculate (Some (bytes_of t)) then (- InvalidInputParam, s)
     else sendText x y a t s)"

definition request_sendFlush :: "outside \<Rightarrow> feed \<Rightarrow> api \<Rightarrow> string \<Rightarrow> Node \<Rightarrow> int \<times> Node" where
  "request_sendFlush x y a t s = (if y_json y t = None then (- JsonParseFailed, s) else sendFlush x y a t s)"

definition request_control :: "outside \<Rightarrow> feed \<Rightarrow> api \<Rightarrow> string \<Rightarrow> string option \<Rightarrow> Node \<Rightarrow> int \<times> Node" where
  "request_control x y a message name s = stControl x y a message
    (case name of None \<Rightarrow> s | Some n \<Rightarrow> s\<lparr>nparam := apply_transcriber (SetControlHeaderName n) (nparam s)\<rparr>)"

text \<open>\<open>None\<close>: the class does not have the method, or it is given a null pointer it does not expect.\<close>

definition client :: "outside \<Rightarrow> feed \<Rightarrow> api \<Rightarrow> client_call \<Rightarrow> Node \<Rightarrow> (int \<times> Node) option" where
  "client x y a call s =
    (let mode = p_mode (p_conn (nparam s))
     in case call of
       AskSet c \<Rightarrow> (case request_set (y_json y) c (nparam s) of Returns ret q \<Rightarrow> Some (ret, s\<lparr>nparam := q\<rparr>) | _ \<Rightarrow> None)
     | AskStart \<Rightarrow> Some (request_start a s)
     | AskQueryText \<Rightarrow> if mode = TypeDialog then Some (queryText a s) else None
     | AskStop \<Rightarrow> Some (request_stop x y a s)
     | AskCancel \<Rightarrow> Some (cancel x y a s)
     | AskAudio e bytes \<Rightarrow>
         if mode \<in> {TypeAsr, TypeRealTime, TypeDialog, TypeDashScopeFunAsrRealTime, TypeDashScopeParaformerRealTime}
         then Some (request_sendAudio x y a e bytes s) else None
     | AskText t \<Rightarrow>
         if mode \<in> {TypeStreamInputTts, TypeDashSceopCosyVoiceStreamInputTts} then Some (request_sendText x y a t s) else None
     | AskFlush t \<Rightarrow> if mode = TypeStreamInputTts then Some (request_sendFlush x y a t s) else None
     | AskControl m n \<Rightarrow> if mode = TypeRealTime then Some (request_control x y a m n s) else None)"

section \<open>Setters and the reconnection\<close>

text \<open>No setter but \<open>setEnableContinued\<close> changes the switch of the reconnection.\<close>

definition same_switch :: "INlsRequestParam \<Rightarrow> outcome \<Rightarrow> bool" where
  "same_switch p r = (case r of Returns ret q \<Rightarrow> enableReconnect (p_conn q) = enableReconnect (p_conn p) | _ \<Rightarrow> True)"

lemma same_switch_simps [simp]:
  "same_switch p Fatal" "same_switch p NoMethod"
  "same_switch p (returns f p) = (enableReconnect (p_conn (f p)) = enableReconnect (p_conn p))"
  "same_switch p (result r) = (enableReconnect (p_conn (snd r)) = enableReconnect (p_conn p))"
  by (simp_all add: same_switch_def returns_def result_def)

lemma same_switch_checks:
  "(\<And>t. same_switch p (f t p)) \<Longrightarrow> same_switch p (with_check v f p)"
  "(\<And>t. same_switch p (f t p)) \<Longrightarrow> same_switch p (without_check v f p)" "same_switch p (appends k w p)"
proof -
  show "(\<And>t. same_switch p (f t p)) \<Longrightarrow> same_switch p (with_check v f p)"
    by (cases v) (simp_all add: with_check_def same_switch_def)
  show "(\<And>t. same_switch p (f t p)) \<Longrightarrow> same_switch p (without_check v f p)"
    by (cases v) (simp_all add: without_check_def same_switch_def)
  show "same_switch p (appends k w p)"
    by (cases k; cases w) (simp_all add: appends_def AppendHttpHeader_def, simp_all add: same_switch_def)
qed

lemma conn_context [simp]: "p_conn (set_context k v p) = p_conn p" "p_conn (snd (setContextParam rd t p)) = p_conn p"
  "p_conn (snd (setQueryParams rd t p)) = p_conn p" "p_conn (snd (setSingleRoundText t p)) = p_conn p"
  by (simp_all add: set_context_def setContextParam_def setQueryParams_def setSingleRoundText_def Let_def split: sum.split)

lemma conn_derived [simp]:
  "p_conn (apply_recognizer a p) = p_conn p" "p_conn (apply_transcriber b p) = p_conn p"
  "p_conn (apply_synthesizer c p) = p_conn p" "p_conn (apply_flowing d p) = p_conn p" "p_conn (apply_dialog e p) = p_conn p"
  "p_conn (apply_paraformer f p) = p_conn p" "p_conn (apply_cosyvoice g p) = p_conn p"
  by (cases a, simp_all) (cases b, simp_all, cases c, simp_all, cases d, simp_all, cases e, simp_all, cases f, simp_all, cases g, simp_all)

lemma switch_setting: "\<forall>b. st \<noteq> SetEnableContinued b \<Longrightarrow> enableReconnect (p_conn (apply_setting st p)) = enableReconnect (p_conn p)"
  by (cases st) (simp_all add: apply_setting_def apply_inline_def, metis)

lemma same_switch_set:
  assumes "\<forall>b. call \<noteq> Call_setEnableContinued b"
  shows "same_switch p (request_set rd call p)"
proof -
  note k = same_switch_checks switch_setting
  have "same_switch p (SpeechRecognizerRequest rd call p)" "same_switch p (SpeechTranscriberRequest rd call p)"
    "same_switch p (SpeechSynthesizerRequest rd call p)" "same_switch p (FlowingSynthesizerRequest rd call p)"
    "same_switch p (DialogAssistantRequest rd call p)" "same_switch p (DashFunAsrTranscriberRequest rd call p)"
    "same_switch p (DashParaformerTranscriberRequest rd call p)" "same_switch p (DashCosyVoiceSynthesizerRequest rd call p)"
    unfolding class_defs using assms by (cases call; simp add: k)+
  then show ?thesis unfolding request_set_def by (cases "p_mode (p_conn p)") simp_all
qed

section \<open>Calls are runs\<close>

lemma typed_step: "node_step s (typed r s)"
  unfolding typed_def by (rule step_set) (simp add: switch_setting)

lemma typed_simps [simp]: "exitStatus (typed r s) = exitStatus s" "workStatus (typed r s) = workStatus s"
  by (simp_all add: typed_def)

lemma start_run:
  assumes "alone a" "exitStatus s = ExitInvalid" "NodeInvalid < workStatus s" "workStatus s < NodeFailed"
  shows "node_step\<^sup>*\<^sup>* s (snd (start a s))" "node_step\<^sup>*\<^sup>* s (snd (start a (typed r s)))"
proof -
  show "node_step\<^sup>*\<^sup>* s (snd (start a s))" by (rule r_into_rtranclp) (rule step_start [OF assms])
  have "node_step (typed r s) (snd (start a (typed r s)))" using assms by (intro step_start) simp_all
  then show "node_step\<^sup>*\<^sup>* s (snd (start a (typed r s)))"
    using typed_step [of s r] by (meson rtranclp.rtrancl_into_rtrancl r_into_rtranclp)
qed



end
