(* ===== verification/Spec2Isabelle.thy ===== *)
theory Spec2Isabelle
  imports NlsPrelude NlsGlobal TextUtils WebSocketTcp WebSocketHttp JsonValue NlsObjects ConnectedPool
    PoolInvariant PoolSafety PoolTimer PoolRelease PoolSystem PoolTheorems PoolContracts
    PoolRuns PoolRefinement NodeManager NlsClient NodeIO NodeState NodeCommands
    NodeConnect NodeSession EventNetWork NodeCallbacks NodeRuns NodeMachine NodeReconnect
    NodeRetries NodeStreams NodeSending NodeFrames NodeTexts NlsEvents RequestParam RequestCommands
    RequestClasses RequestCalls
begin

text \<open>
  A verification library for the C++ core of the NLS speech SDK (\<open>src/nlsCppSdk\<close>).

  The program. A client creates requests (recognizer, transcriber, synthesizer, ...) through
  \<open>NlsClientImpl\<close>. Each request owns a \<open>ConnectNode\<close>, which connects to the service, upgrades the
  connection to a WebSocket, sends audio and text as frames and receives the service's messages.
  \<open>NlsNodeManager\<close> is the registry all threads ask whether a request or node still exists and which
  state it has. \<open>ConnectedPool\<close>, when it is enabled, keeps connections that are already established
  (``preconnected'') or on which a task has already been started (``prestarted''); a new request
  takes over such a connection when its parameters are equal, and gives it back when it is
  finished. A timer of the pool drops connections that are too old or dead and prepares others.

  The theories and the code they model.

  \<^item> \<open>NlsPrelude\<close>: bytes and pointers, undefined behaviour as \<open>None\<close>, the search loop of the C++
    vectors, the laws of ordered index lists (locale \<open>ordered_indexes\<close>) and of transition systems
    with an invariant (locale \<open>invariant_system\<close>).
  \<^item> \<open>NlsGlobal\<close>: \<open>framework/common/nlsGlobal.h\<close>, the return codes, request states and types.
  \<^item> \<open>TextUtils\<close>: \<open>utils/text_utils.cpp\<close>. Counting of UTF-8 characters, masking of secrets,
    splitting, timeouts, conversion of samples.
  \<^item> \<open>WebSocketTcp\<close>, \<open>WebSocketHttp\<close>: \<open>transport/webSocketTcp.cpp\<close>. The frame encoder, the receiver
    with its states, URL parsing, the upgrade requests and the evaluation of the response. An RFC
    6455 receiver and sender are the reference definitions.
  \<^item> \<open>NodeIO\<close>: the input and output of \<open>transport/connectNode.cpp\<close>: \<open>nlsSendFrame\<close>, \<open>nlsReceive\<close>,
    \<open>gatewayResponse\<close> and \<open>webSocketResponse\<close>, the loop that cuts the received bytes into frames.
  \<^item> \<open>NodeState\<close>, \<open>NodeCommands\<close>, \<open>NodeConnect\<close>: the rest of \<open>transport/connectNode.cpp\<close>. The members of a
    node (record \<open>Node\<close>, with what it does to the outside in \<open>effects\<close>), closing, the callbacks, the
    reconnection and the handling of every frame; commands and audio; the URL, connecting, the
    handshake's steps and the retries.
  \<^item> \<open>NodeSession\<close>: the event callbacks of \<open>event/workThread.cpp\<close>. \<open>EventNetWork\<close>: the calls of a client in
    \<open>transport/nlsEventNetWork.cpp\<close>.
  \<^item> \<open>NodeCallbacks\<close>, \<open>NodeRuns\<close>, \<open>NodeMachine\<close>: what each operation tells the user (the relation \<open>speaks\<close>),
    the steps of a node (\<open>node_step\<close>) and the invariant of its runs. \<open>NodeReconnect\<close>, \<open>NodeRetries\<close>,
    \<open>NodeStreams\<close>, \<open>NodeSending\<close>, \<open>NodeFrames\<close>: reconnection, retries of connecting, the order of what is
    sent, commands between audio, and the end of a request.
  \<^item> \<open>JsonValue\<close>: the values of the JSON library and the accessors the code uses; its parser and its
    writer are parameters (types \<open>reader\<close> and \<open>writer\<close>).
  \<^item> \<open>RequestParam\<close>: the setters and the commands of \<open>framework/item/iNlsRequestParam.cpp\<close> and of the
    parameter classes of \<open>framework/feature\<close>, as documents. \<open>RequestCommands\<close>: the steps of the parameters
    (\<open>param_step\<close>), their invariant, and the tasks of the commands.
  \<^item> \<open>NlsEvents\<close>: \<open>framework/common/nlsEvent.cpp\<close>, \<open>nlsEventInner.cpp\<close> and the listeners of the classes: the
    events, how a message is parsed, and which callback gets it.
  \<^item> \<open>RequestClasses\<close>, \<open>RequestCalls\<close>: the classes of requests (\<open>framework/feature/*/*Request.cpp\<close>): setters
    with their checks, the registration of callbacks, and the calls to the node (\<open>client\<close>).
  \<^item> \<open>NodeTexts\<close>: the commands a node queues, and what of a failure it reports.
  \<^item> \<open>NlsObjects\<close>: parameters (\<open>framework/item/iNlsRequestParam.cpp\<close>), requests, nodes and SSL
    handles in a heap; following or deleting a dangling pointer is \<open>None\<close>.
  \<^item> \<open>ConnectedPool\<close>: every operation of \<open>transport/connectedPool.cpp\<close>. \<open>PoolInvariant\<close>,
    \<open>PoolSafety\<close>, \<open>PoolTimer\<close> and \<open>PoolRelease\<close> hold the pool's invariant and its preservation by
    the operations, the timer and the release event; \<open>PoolSystem\<close> puts the operations together as a
    step relation (\<open>pool_step\<close>) under the discipline of the callers.
  \<^item> \<open>PoolTheorems\<close>, \<open>PoolContracts\<close>, \<open>PoolRuns\<close>, \<open>PoolRefinement\<close>: what the pool promises, in all
    reachable states and operation by operation; concrete runs in which it does less than it means
    to; and that it implements an abstract pool of idle and busy connections (\<open>spec_step\<close>).
  \<^item> \<open>NodeManager\<close>: \<open>transport/nodeManager.cpp\<close>, the registry, with the contract of a registry as the
    locale \<open>request_registry\<close>.
  \<^item> \<open>NlsClient\<close>: creation and release of requests in \<open>framework/common/nlsClientImpl.cpp\<close>, over the
    heap, the pool and the registry.

  What is shown. Pool: in every reachable state, in any interleaving of its operations, slots own
  different living requests and SSL handles, a connection has at most one user, and a slot that can
  be picked has none; the operations are defined (no dangling pointer, no double deletion) in every
  such state; a pop hands out exactly a live, idle, matching slot; what is stored is found again;
  the timer marks exactly what is due; the destructor deletes what is stored once. Registry: a
  request is found exactly while it is registered, and the waiting removal ends. Frames: encoding
  is undone by the reference receiver; a stream of server frames is delivered in order, whole and
  once, however it is cut into pieces, by the receiver and by the loop of the node. Output is sent
  in order and without loss.

  Node: in every run its user hears of the closing once and of nothing afterwards, and of nothing after a
  cancel; what is sent on a channel is what was queued, in order; reconnections and the attempts to
  connect are bounded and end with a report; a stop follows the audio; an ending message closes the
  node. Requests: whatever is set, the parameters and the documents made from them are well-formed; a
  setter does all or nothing; what is queued between two starts belongs to one task; a message of the
  service becomes the event it names and reaches the callback registered for it; every call of a
  client is a run of the node's state machine. URLs, handshake and text functions have their round trips and error
  branches. The properties called errors state where the code does something it does not mean to
  (wrap of a length, a lost index, a double deletion); each is proved for the code as it is.

  Modelling conventions. Pointers are natural numbers, null is 0. C strings and buffers are lists; a read
  or write outside is \<open>None\<close>. \<open>size_t\<close>, \<open>uint64_t\<close> and the frame lengths are words of their width
  and wrap; \<open>int\<close>s that are only compared, copied or stay far inside their range are \<open>int\<close>.
  Operations that run under a mutex are single steps; where the mutex is let go (\<open>removeRequestFromInfo\<close>
  while it sleeps, the release event between two slots) other steps may come between. What the
  operating system, libevent, OpenSSL and the allocator return is a parameter of the operation.

  Loops. Loops over vectors are structural recursion. The waiting removal ends because its counter
  grows by \<open>StepSleepMs\<close> towards the fixed timeout: the measure is what is left of it. The frame
  loop of \<open>webSocketResponse\<close> ends because each round uses up a read result or buffered bytes, which is its
  lexicographic measure. \<open>dnsProcess\<close> retries at most \<open>RetryConnectCount\<close> times, and the measure is what is
  left of them; the slicing of audio consumes the bytes; a waiting call counts its sleeps. No definition
  needs fuel; the concrete runs of the pool use as many requests as their statements name.

  Not modelled. Time stamps, the recording of API calls and the log. The threads themselves, their locks
  and libevent's dispatch: an event callback and a call of a client are one step each, and what
  happens while a call sleeps is a parameter. The asynchronous resolver thread, the synchronous
  start of the pool's own nodes (\<open>syncConnectProcess\<close> and what it calls), and the release of a
  node's events. The parser and the writer of the JSON library, and the exceptions it may throw
  while it writes. Getters that only hand out a member. \<open>SSLconnect.cpp\<close>, the encoders, tokens and
  file transfer, which wrap OpenSSL, opus and libcurl; logging; the demos and the language bindings.
\<close>

end
